(* ===== verification/Prelude.thy ===== *)
theory Prelude
  imports Main "HOL-Library.Word" "HOL-Library.Monad_Syntax" "HOL-Library.Signed_Division"
    "HOL-Library.List_Lexorder" "HOL-Library.Char_ord"
begin

unbundle bit_operations_syntax

text \<open>
  Shared vocabulary of the SLO Fabric development: the machine integer types of the C++ sources,
  their wrap-around arithmetic, the decimal printers of \<^verbatim>\<open>std::to_string\<close>, and the generic
  facts about lists and words that the component theories rewrite with.

  A signed 64-bit quantity (\<^verbatim>\<open>std::int64_t\<close>) is an \<open>int\<close>; arithmetic that the sources perform
  without a check goes through \<open>wrap64\<close>, which reduces the exact result into the 64-bit two's
  complement range.  Signed overflow is undefined in C++; the reduction is what the supported
  compilers emit.  Unsigned quantities and raw bytes are words of the matching width.
\<close>

section \<open>Named fact collections\<close>

named_theorems i64_simps \<open>range and wrap-around facts on signed 64-bit integers\<close>
named_theorems codec_simps \<open>read-back equations of the binary encoding\<close>
named_theorems fabric_defs \<open>definitions of the public operations of the fabric\<close>
named_theorems frame_simps \<open>fields an operation leaves unchanged\<close>

section \<open>Machine integers\<close>

type_synonym u8 = "8 word"
type_synonym u16 = "16 word"
type_synonym u32 = "32 word"
type_synonym u64 = "64 word"
type_synonym i64 = int
type_synonym bytes = "8 word list"

definition i64_min :: int where
  "i64_min = - 9223372036854775808"

definition i64_max :: int where
  "i64_max = 9223372036854775807"

definition in_i64 :: "int \<Rightarrow> bool" where
  "in_i64 x \<longleftrightarrow> i64_min \<le> x \<and> x \<le> i64_max"

definition wrap64 :: "int \<Rightarrow> int" where
  "wrap64 x = (x + 9223372036854775808) mod 18446744073709551616 - 9223372036854775808"

definition i64_of_word :: "u64 \<Rightarrow> int" where
  "i64_of_word w = (if uint w < 9223372036854775808 then uint w else uint w - 18446744073709551616)"

definition i32_of_word :: "u32 \<Rightarrow> int" where
  "i32_of_word w = (if uint w < 2147483648 then uint w else uint w - 4294967296)"

definition in_i32 :: "int \<Rightarrow> bool" where
  "in_i32 x \<longleftrightarrow> - 2147483648 \<le> x \<and> x \<le> 2147483647"

section \<open>Decimal printing\<close>

definition digit_char :: "int \<Rightarrow> char" where
  "digit_char d = char_of (48 + d)"

function show_nonneg :: "int \<Rightarrow> string" where
  "show_nonneg n = (if n < 10 then [digit_char n] else show_nonneg (n div 10) @ [digit_char (n mod 10)])"
  by pat_completeness auto
termination
  by (relation "measure nat") auto

definition show_int :: "int \<Rightarrow> string" where
  "show_int i = (if i < 0 then CHR ''-'' # show_nonneg (- i) else show_nonneg i)"

definition show_u64 :: "u64 \<Rightarrow> string" where
  "show_u64 w = show_nonneg (uint w)"

definition digit_val :: "char \<Rightarrow> int" where
  "digit_val c = of_char c - 48"

definition read_nonneg :: "string \<Rightarrow> int" where
  "read_nonneg s = foldl (\<lambda>a c. 10 * a + digit_val c) 0 s"

section \<open>Characters and bytes\<close>

definition byte_of_char :: "char \<Rightarrow> u8" where
  "byte_of_char c = word_of_nat (of_char c)"

definition char_of_byte :: "u8 \<Rightarrow> char" where
  "char_of_byte b = char_of (unat b)"

section \<open>Facts\<close>

subsection \<open>Signed 64-bit integers\<close>

lemma in_i64_wrap64 [simp, i64_simps]: "in_i64 (wrap64 x)"
  unfolding in_i64_def wrap64_def i64_min_def i64_max_def by (simp add: pos_mod_bound)

lemma wrap64_id [i64_simps]: "in_i64 x \<Longrightarrow> wrap64 x = x"
  unfolding in_i64_def wrap64_def i64_min_def i64_max_def by (simp add: mod_pos_pos_trivial)

lemma wrap64_cong: "\<exists>k. wrap64 x = x - k * 18446744073709551616"
proof -
  have "wrap64 x = x - ((x + 9223372036854775808) div 18446744073709551616) * 18446744073709551616"
    unfolding wrap64_def by (simp add: minus_div_mult_eq_mod [symmetric])
  then show ?thesis by blast
qed

lemma in_i64_of_word [simp, i64_simps]: "in_i64 (i64_of_word w)"
proof -
  have "uint w < 18446744073709551616" "0 \<le> uint w" using uint_bounded [of w] by simp_all
  then show ?thesis
    unfolding in_i64_def i64_of_word_def i64_min_def i64_max_def by arith
qed

lemma mod_shift_negative: "- m \<le> x \<Longrightarrow> x < 0 \<Longrightarrow> x mod m = x + (m :: int)"
  using mod_pos_pos_trivial [of "x + m" m] by simp

lemma i64_of_word_of_int [simp, i64_simps]: "in_i64 x \<Longrightarrow> i64_of_word (word_of_int x) = x"
proof (cases "0 \<le> x")
  case True
  moreover assume "in_i64 x"
  ultimately have "x mod 2 ^ 64 = x" "x < 9223372036854775808"
    by (auto simp: in_i64_def i64_max_def)
  then show ?thesis by (simp add: i64_of_word_def uint_word_of_int)
next
  case False
  moreover assume "in_i64 x"
  ultimately have "x mod 2 ^ 64 = x + 2 ^ 64" "- 9223372036854775808 \<le> x"
    by (auto simp: in_i64_def i64_min_def intro!: mod_shift_negative)
  with False \<open>- 9223372036854775808 \<le> x\<close> show ?thesis
    by (simp add: i64_of_word_def uint_word_of_int)
qed

lemma i32_of_word_of_int [simp, i64_simps]: "in_i32 x \<Longrightarrow> i32_of_word (word_of_int x) = x"
proof (cases "0 \<le> x")
  case True
  moreover assume "in_i32 x"
  ultimately have "x mod 2 ^ 32 = x" "x < 2147483648" by (auto simp: in_i32_def)
  then show ?thesis by (simp add: i32_of_word_def uint_word_of_int)
next
  case False
  moreover assume "in_i32 x"
  ultimately have "x mod 2 ^ 32 = x + 2 ^ 32" "- 2147483648 \<le> x"
    by (auto simp: in_i32_def intro!: mod_shift_negative)
  with False \<open>- 2147483648 \<le> x\<close> show ?thesis
    by (simp add: i32_of_word_def uint_word_of_int)
qed

subsection \<open>Decimal printing reads back\<close>

declare show_nonneg.simps [simp del]

lemma digit_val_char [simp]: "0 \<le> d \<Longrightarrow> d < 10 \<Longrightarrow> digit_val (digit_char d) = d"
  by (simp add: digit_val_def digit_char_def)

lemma read_nonneg_snoc: "read_nonneg (s @ [c]) = 10 * read_nonneg s + digit_val c"
  by (simp add: read_nonneg_def)

lemma read_show_nonneg [simp]: "0 \<le> n \<Longrightarrow> read_nonneg (show_nonneg n) = n"
proof (induction n rule: show_nonneg.induct)
  case (1 n)
  show ?case
  proof (cases "n < 10")
    case True
    with 1 show ?thesis by (simp add: show_nonneg.simps [of n] read_nonneg_def)
  next
    case False
    with 1 show ?thesis by (simp add: show_nonneg.simps [of n] read_nonneg_snoc)
  qed
qed

lemma show_u64_inject [simp]: "show_u64 a = show_u64 b \<longleftrightarrow> a = b"
  by (metis read_show_nonneg show_u64_def unsigned_greater_eq word_uint_eq_iff)

subsection \<open>Programs that return\<close>

text \<open>A program in the option monad returns a value with a property when each call returns and the last value has it.\<close>

named_theorems returns

definition yields :: "('a \<Rightarrow> bool) \<Rightarrow> 'a option \<Rightarrow> bool" where
  "yields P m \<longleftrightarrow> (\<exists>x. m = Some x \<and> P x)"

lemma yields_bind: "yields Q m \<Longrightarrow> (\<And>x. Q x \<Longrightarrow> yields P (f x)) \<Longrightarrow> yields P (Option.bind m f)"
  by (auto simp: yields_def)

lemma yields_call [returns]: "yields (\<lambda>_. True) m \<Longrightarrow> (\<And>x. yields P (f x)) \<Longrightarrow> yields P (Option.bind m f)"
  by (rule yields_bind)

lemma yields_let [returns]: "(\<And>x. yields P (f x)) \<Longrightarrow> yields P (Let a f)"
  by (simp add: Let_def)

lemma yields_pair [returns]: "(\<And>a b. yields P (f a b)) \<Longrightarrow> yields P (case p of (a, b) \<Rightarrow> f a b)"
  by (cases p) simp

lemma yields_pair_app [returns]: "(\<And>a b. yields P (f a b c)) \<Longrightarrow> yields P ((case p of (a, b) \<Rightarrow> f a b) c)"
  by (cases p) simp

lemma yields_Some [simp]: "yields P (Some x) \<longleftrightarrow> P x"
  by (simp add: yields_def)

subsection \<open>Characters and bytes\<close>

lemma char_of_byte_of_char [simp]: "char_of_byte (byte_of_char c) = c"
proof -
  have "of_char c < (256 :: nat)" using of_char_mod_256 [of c] by (metis mod_less_divisor zero_less_numeral)
  then have "unat (word_of_nat (of_char c) :: u8) = of_char c"
    by (simp add: unat_of_nat)
  then show ?thesis by (simp add: char_of_byte_def byte_of_char_def)
qed

lemma map_char_of_byte [simp]: "map char_of_byte (map byte_of_char s) = s"
  by (simp add: comp_def)

lemma byte_of_char_of_byte [simp]: "byte_of_char (char_of_byte b) = b"
proof -
  have "of_char (char_of (unat b) :: char) = unat b mod (256 :: nat)" by simp
  also have "\<dots> = unat b" using unsigned_less [of b, where 'a = nat] by simp
  finally show ?thesis by (simp add: byte_of_char_def char_of_byte_def)
qed

end
