(* ===== verification/Binary64.thy ===== *)
theory Binary64
  imports Prelude
begin

text \<open>
  The C++ type \<^verbatim>\<open>double\<close> as the sources use it: IEEE-754 binary64 with the round-to-nearest,
  ties-to-even rounding of the default floating-point environment.  A value is its 64-bit pattern, so
  that \<^verbatim>\<open>write_pod\<close> of a double is the pattern itself and infinities, signed zeros and NaNs are
  all represented.  Comparison reads the pattern as a sign-magnitude integer; arithmetic computes the
  exact rational result and rounds it once.  Two things are fixed here that the standard leaves open:
  every invalid operation returns the same quiet NaN (payloads are not propagated), and a conversion to
  an integer type that cannot hold the value yields what x86-64 produces for it.
\<close>

section \<open>Representation\<close>

datatype double = Double (double_bits: u64)

definition inf_mag :: int where
  "inf_mag = 9218868437227405312"

definition dsign :: "double \<Rightarrow> bool" where
  "dsign x \<longleftrightarrow> 9223372036854775808 \<le> uint (double_bits x)"

definition dmag :: "double \<Rightarrow> int" where
  "dmag x = uint (double_bits x) mod 9223372036854775808"

definition mk_double :: "bool \<Rightarrow> int \<Rightarrow> double" where
  "mk_double s m = Double (word_of_int (if s then 9223372036854775808 + m else m))"

definition is_nan :: "double \<Rightarrow> bool" where
  "is_nan x \<longleftrightarrow> inf_mag < dmag x"

definition is_inf :: "double \<Rightarrow> bool" where
  "is_inf x \<longleftrightarrow> dmag x = inf_mag"

definition is_finite :: "double \<Rightarrow> bool" where
  "is_finite x \<longleftrightarrow> dmag x < inf_mag"

definition qnan :: double where
  "qnan = Double 0x7FF8000000000000"

definition dzero :: double where
  "dzero = Double 0"

definition dmant :: "double \<Rightarrow> int" where
  "dmant x = (if dmag x < 4503599627370496 then dmag x
              else 4503599627370496 + dmag x mod 4503599627370496)"

definition dexp :: "double \<Rightarrow> int" where
  "dexp x = max 1 (dmag x div 4503599627370496) - 1075"

section \<open>Comparison\<close>

definition dkey :: "double \<Rightarrow> int" where
  "dkey x = (if dsign x then - dmag x else dmag x)"

definition dlt :: "double \<Rightarrow> double \<Rightarrow> bool" where
  "dlt x y \<longleftrightarrow> \<not> is_nan x \<and> \<not> is_nan y \<and> dkey x < dkey y"

definition dle :: "double \<Rightarrow> double \<Rightarrow> bool" where
  "dle x y \<longleftrightarrow> \<not> is_nan x \<and> \<not> is_nan y \<and> dkey x \<le> dkey y"

definition deq :: "double \<Rightarrow> double \<Rightarrow> bool" where
  "deq x y \<longleftrightarrow> \<not> is_nan x \<and> \<not> is_nan y \<and> dkey x = dkey y"

abbreviation dgt :: "double \<Rightarrow> double \<Rightarrow> bool" where
  "dgt x y \<equiv> dlt y x"

abbreviation dge :: "double \<Rightarrow> double \<Rightarrow> bool" where
  "dge x y \<equiv> dle y x"

section \<open>Rounding\<close>

definition pow2 :: "int \<Rightarrow> int" where
  "pow2 k = 2 ^ nat k"

function bit_len :: "int \<Rightarrow> int" where
  "bit_len n = (if n \<le> 0 then 0 else 1 + bit_len (n div 2))"
  by pat_completeness auto
termination
  by (relation "measure nat") auto

definition rne :: "int \<Rightarrow> int \<Rightarrow> int" where
  "rne n d = (let q = n div d; r = n mod d
              in if d < 2 * r \<or> (2 * r = d \<and> odd q) then q + 1 else q)"

text \<open>
  \<open>round_mag n d e\<close> is the magnitude pattern of the double nearest to \<open>n / d * 2 ^ e\<close>.  The exponent
  \<open>k\<close> is the one for which the quotient has 53 bits (or the least exponent, for subnormal results);
  adding the rounded quotient to the shifted exponent also performs the carry into the next binade.
\<close>

definition round_exp :: "int \<Rightarrow> int \<Rightarrow> int \<Rightarrow> int" where
  "round_exp n d e =
     (let k = max (- 1074) (bit_len n - bit_len d + e - 53)
      in if 9007199254740992 * (d * pow2 (k - e)) \<le> n * pow2 (e - k) then k + 1 else k)"

definition round_mag :: "int \<Rightarrow> int \<Rightarrow> int \<Rightarrow> int" where
  "round_mag n d e =
     (if n = 0 then 0
      else let k = round_exp n d e;
               q = rne (n * pow2 (e - k)) (d * pow2 (k - e))
           in min inf_mag ((k + 1074) * 4503599627370496 + q))"

section \<open>Arithmetic\<close>

definition dneg :: "double \<Rightarrow> double" where
  "dneg x = mk_double (\<not> dsign x) (dmag x)"

definition dadd :: "double \<Rightarrow> double \<Rightarrow> double" where
  "dadd x y =
     (if is_nan x \<or> is_nan y then qnan
      else if is_inf x then (if is_inf y \<and> dsign x \<noteq> dsign y then qnan else x)
      else if is_inf y then y
      else let e = min (dexp x) (dexp y);
               a = (if dsign x then - 1 else 1) * dmant x * pow2 (dexp x - e);
               b = (if dsign y then - 1 else 1) * dmant y * pow2 (dexp y - e);
               s = a + b
           in if s = 0 then mk_double (dsign x \<and> dsign y) 0
              else mk_double (s < 0) (round_mag \<bar>s\<bar> 1 e))"

definition dsub :: "double \<Rightarrow> double \<Rightarrow> double" where
  "dsub x y = dadd x (dneg y)"

definition dmul :: "double \<Rightarrow> double \<Rightarrow> double" where
  "dmul x y =
     (if is_nan x \<or> is_nan y then qnan
      else if is_inf x \<or> is_inf y
        then (if dmag x = 0 \<or> dmag y = 0 then qnan else mk_double (dsign x \<noteq> dsign y) inf_mag)
      else mk_double (dsign x \<noteq> dsign y) (round_mag (dmant x * dmant y) 1 (dexp x + dexp y)))"

definition ddiv :: "double \<Rightarrow> double \<Rightarrow> double" where
  "ddiv x y =
     (if is_nan x \<or> is_nan y then qnan
      else if is_inf x then (if is_inf y then qnan else mk_double (dsign x \<noteq> dsign y) inf_mag)
      else if is_inf y then mk_double (dsign x \<noteq> dsign y) 0
      else if dmag y = 0
        then (if dmag x = 0 then qnan else mk_double (dsign x \<noteq> dsign y) inf_mag)
      else mk_double (dsign x \<noteq> dsign y) (round_mag (dmant x) (dmant y) (dexp x - dexp y)))"

section \<open>Conversions\<close>

text \<open>\<open>dec n d\<close> is the double literal whose decimal value is \<open>n / d\<close>.\<close>

definition dec :: "int \<Rightarrow> int \<Rightarrow> double" where
  "dec n d = mk_double False (round_mag n d 0)"

definition d_of_int :: "int \<Rightarrow> double" where
  "d_of_int i = mk_double (i < 0) (round_mag \<bar>i\<bar> 1 0)"

definition d_trunc :: "double \<Rightarrow> int" where
  "d_trunc x = (if dsign x then - 1 else 1) *
     (if 0 \<le> dexp x then dmant x * pow2 (dexp x) else dmant x div pow2 (- dexp x))"

definition d_to_i64 :: "double \<Rightarrow> int" where
  "d_to_i64 x = (if is_finite x \<and> in_i64 (d_trunc x) then d_trunc x else i64_min)"

text \<open>The same conversion where it matters that the language defines it in range only.\<close>

definition d_cast_i64 :: "double \<Rightarrow> int option" where
  "d_cast_i64 x = (if is_finite x \<and> in_i64 (d_trunc x) then Some (d_trunc x) else None)"

lemma d_cast_i64_some: "d_cast_i64 x = Some i \<Longrightarrow> d_to_i64 x = i"
  by (simp add: d_cast_i64_def d_to_i64_def split: if_splits)

definition d_to_size :: "double \<Rightarrow> int" where
  "d_to_size x = (if is_finite x \<and> 0 \<le> d_trunc x \<and> d_trunc x < 18446744073709551616
                  then d_trunc x else 9223372036854775808)"

definition dceil :: "double \<Rightarrow> double" where
  "dceil x =
     (if \<not> is_finite x \<or> 0 \<le> dexp x then x
      else let t = (if dsign x then - 1 else 1) * dmant x;
               c = - ((- t) div pow2 (- dexp x))
           in if c = 0 then mk_double (dsign x) 0 else d_of_int c)"

definition dclamp :: "double \<Rightarrow> double \<Rightarrow> double \<Rightarrow> double" where
  "dclamp v lo hi = (if dlt v lo then lo else if dlt hi v then hi else v)"

text \<open>
  \<^verbatim>\<open>std::to_string(double)\<close> prints with \<^verbatim>\<open>"%f"\<close>: six decimals of the exact value, ties to even.
\<close>

definition d_micros :: "double \<Rightarrow> int" where
  "d_micros x = rne (dmant x * 1000000 * pow2 (dexp x)) (pow2 (- dexp x))"

fun pad_left :: "nat \<Rightarrow> string \<Rightarrow> string" where
  "pad_left n s = replicate (n - length s) CHR ''0'' @ s"

definition d_to_string :: "double \<Rightarrow> string" where
  "d_to_string x =
     (if is_nan x then ''nan''
      else (if dsign x then ''-'' else '''') @
        (if is_inf x then ''inf''
         else show_int (d_micros x div 1000000) @ ''.'' @ pad_left 6 (show_int (d_micros x mod 1000000))))"

definition dsum :: "double list \<Rightarrow> double" where
  "dsum xs = foldl dadd dzero xs"

section \<open>Facts\<close>

lemma pow2_code [code]: "pow2 k = (if k \<le> 0 then 1 else 2 * pow2 (k - 1))"
proof (cases "k \<le> 0")
  case True
  then show ?thesis by (simp add: pow2_def)
next
  case False
  then have "nat k = Suc (nat (k - 1))" by simp
  with False show ?thesis by (simp add: pow2_def)
qed

declare bit_len.simps [simp del]

subsection \<open>Patterns\<close>

lemma dmag_bounds [simp]: "0 \<le> dmag x" "dmag x < 9223372036854775808"
  by (simp_all add: dmag_def)

lemma inf_mag_bounds [simp]: "0 < inf_mag" "inf_mag < 9223372036854775808"
  by (simp_all add: inf_mag_def)

lemma uint_mk_double:
  assumes "0 \<le> m" "m < 9223372036854775808"
  shows "uint (double_bits (mk_double s m)) = (if s then 9223372036854775808 + m else m)"
  using assms by (simp add: mk_double_def uint_word_of_int mod_pos_pos_trivial)

lemma dsign_mk_double [simp]:
  "0 \<le> m \<Longrightarrow> m < 9223372036854775808 \<Longrightarrow> dsign (mk_double s m) = s"
  by (simp add: dsign_def uint_mk_double)

lemma dmag_mk_double [simp]:
  "0 \<le> m \<Longrightarrow> m < 9223372036854775808 \<Longrightarrow> dmag (mk_double s m) = m"
  by (simp add: dmag_def uint_mk_double)

lemma dkey_mk_double [simp]:
  "0 \<le> m \<Longrightarrow> m < 9223372036854775808 \<Longrightarrow> dkey (mk_double s m) = (if s then - m else m)"
  by (simp add: dkey_def)

subsection \<open>The order of the numbers\<close>

lemma dlt_irrefl [simp]: "\<not> dlt x x"
  by (simp add: dlt_def)

lemma dlt_trans: "dlt x y \<Longrightarrow> dlt y z \<Longrightarrow> dlt x z"
  by (auto simp: dlt_def)

lemma dle_refl [simp]: "dle x x \<longleftrightarrow> \<not> is_nan x"
  by (simp add: dle_def)

lemma dle_trans: "dle x y \<Longrightarrow> dle y z \<Longrightarrow> dle x z"
  by (auto simp: dle_def)

lemma not_dlt: "\<not> is_nan x \<Longrightarrow> \<not> is_nan y \<Longrightarrow> \<not> dlt x y \<longleftrightarrow> dle y x"
  by (auto simp: dlt_def dle_def)

lemma dlt_imp_dle: "dlt x y \<Longrightarrow> dle x y"
  by (auto simp: dlt_def dle_def)

lemma dlt_asym: "dlt x y \<Longrightarrow> \<not> dlt y x"
  by (auto simp: dlt_def)

lemma not_deq: "\<not> is_nan x \<Longrightarrow> \<not> is_nan y \<Longrightarrow> \<not> deq x y \<longleftrightarrow> dlt x y \<or> dlt y x"
  by (auto simp: deq_def dlt_def)

subsection \<open>Powers of two and bit lengths\<close>

lemma pow2_pos [simp]: "0 < pow2 k"
  by (simp add: pow2_def)

lemma pow2_nonpos [simp]: "k \<le> 0 \<Longrightarrow> pow2 k = 1"
  by (simp add: pow2_def)

lemma pow2_add: "0 \<le> a \<Longrightarrow> 0 \<le> b \<Longrightarrow> pow2 (a + b) = pow2 a * pow2 b"
  by (simp add: pow2_def nat_add_distrib power_add)

lemma pow2_Suc: "0 \<le> a \<Longrightarrow> pow2 (a + 1) = 2 * pow2 a"
  using pow2_add [of a 1] by (simp add: pow2_def)

lemma pow2_mono: "a \<le> b \<Longrightarrow> pow2 a \<le> pow2 b"
  by (simp add: pow2_def power_increasing nat_mono)

lemma pow2_52: "pow2 52 = 4503599627370496" and pow2_53: "pow2 53 = 9007199254740992"
  by (simp_all add: pow2_def)

lemma bit_len_nonneg: "0 \<le> bit_len n"
  by (induction n rule: bit_len.induct) (subst bit_len.simps, simp)

lemma bit_len_1 [simp]: "bit_len 1 = 1"
  by (simp add: bit_len.simps [of 1] bit_len.simps [of 0])

lemma bit_len_pos: "0 < n \<Longrightarrow> 1 \<le> bit_len n"
  by (subst bit_len.simps) (simp add: bit_len_nonneg)

lemma bit_len_bounds: "0 < n \<Longrightarrow> pow2 (bit_len n - 1) \<le> n \<and> n < pow2 (bit_len n)"
proof (induction n rule: bit_len.induct)
  case (1 n)
  have len: "bit_len n = 1 + bit_len (n div 2)"
    using "1.prems" by (subst bit_len.simps) simp
  show ?case
  proof (cases "n = 1")
    case True
    then show ?thesis by (simp add: pow2_def)
  next
    case False
    with "1.prems" have half: "0 < n div 2" by auto
    with "1.IH" "1.prems" have IH: "pow2 (bit_len (n div 2) - 1) \<le> n div 2" "n div 2 < pow2 (bit_len (n div 2))"
      by simp_all
    have b: "1 \<le> bit_len (n div 2)" using half by (rule bit_len_pos)
    have "pow2 (bit_len n - 1) = 2 * pow2 (bit_len (n div 2) - 1)"
      using b pow2_Suc [of "bit_len (n div 2) - 1"] by (simp add: len)
    moreover have "pow2 (bit_len n) = 2 * pow2 (bit_len (n div 2))"
      using pow2_Suc [OF bit_len_nonneg, of "n div 2"] by (simp add: len add.commute)
    ultimately show ?thesis using IH by linarith
  qed
qed

lemma bit_len_mono: "0 < m \<Longrightarrow> m \<le> n \<Longrightarrow> bit_len m \<le> bit_len n"
proof (rule ccontr)
  assume *: "0 < m" "m \<le> n" "\<not> bit_len m \<le> bit_len n"
  then have "pow2 (bit_len n) \<le> pow2 (bit_len m - 1)" by (intro pow2_mono) simp
  with * bit_len_bounds [of m] bit_len_bounds [of n] show False by simp
qed

lemma bit_len_le: "0 < n \<Longrightarrow> n < pow2 k \<Longrightarrow> bit_len n \<le> k"
proof (rule ccontr)
  assume *: "0 < n" "n < pow2 k" "\<not> bit_len n \<le> k"
  then have "pow2 k \<le> pow2 (bit_len n - 1)" by (intro pow2_mono) simp
  with * bit_len_bounds [of n] show False by simp
qed

lemma bit_len_unique: "pow2 (k - 1) \<le> n \<Longrightarrow> n < pow2 k \<Longrightarrow> bit_len n = k"
proof -
  assume *: "pow2 (k - 1) \<le> n" "n < pow2 k"
  have n: "0 < n" using *(1) pow2_pos [of "k - 1"] by linarith
  have "\<not> bit_len n < k"
  proof
    assume "bit_len n < k"
    then have "pow2 (bit_len n) \<le> pow2 (k - 1)" by (intro pow2_mono) simp
    with *(1) bit_len_bounds [OF n] show False by simp
  qed
  with bit_len_le [OF n *(2)] show ?thesis by simp
qed

subsection \<open>Round to nearest, ties to even\<close>

lemma rne_exact [simp]: "0 < d \<Longrightarrow> rne (q * d) d = q"
  by (simp add: rne_def)

lemma rne_1 [simp]: "rne n 1 = n"
  by (simp add: rne_def)

lemma rne_mono:
  assumes "0 < d" "m \<le> n"
  shows "rne m d \<le> rne n d"
proof (cases "m div d = n div d")
  case True
  then have "m mod d \<le> n mod d"
    using assms by (simp add: minus_div_mult_eq_mod [symmetric])
  with True show ?thesis by (auto simp: rne_def Let_def)
next
  case False
  with assms have "m div d < n div d" using zdiv_mono1 [of m n d] by simp
  moreover have "rne m d \<le> m div d + 1" "n div d \<le> rne n d" by (auto simp: rne_def Let_def)
  ultimately show ?thesis by simp
qed

lemma rne_bounds:
  assumes "0 < d" "a * d \<le> n" "n \<le> b * d"
  shows "a \<le> rne n d" "rne n d \<le> b"
  using rne_mono [OF assms(1,2)] rne_mono [OF assms(1,3)] assms(1) by simp_all

subsection \<open>Integers as doubles\<close>

lemma round_exp_int:
  assumes "0 < n"
  shows "round_exp n 1 0 = bit_len n - 53"
proof -
  define b where "b = bit_len n"
  have b: "1 \<le> b" "pow2 (b - 1) \<le> n" using bit_len_pos bit_len_bounds assms by (auto simp: b_def)
  have "9007199254740992 * pow2 (b - 54) \<le> n * pow2 (54 - b)"
  proof (cases "b \<le> 54")
    case True
    then have "pow2 (b - 1) * pow2 (54 - b) = 9007199254740992"
      using b pow2_add [of "b - 1" "54 - b"] by (simp add: pow2_53)
    moreover have "pow2 (b - 1) * pow2 (54 - b) \<le> n * pow2 (54 - b)"
      using b(2) by (intro mult_right_mono) (auto simp: less_imp_le)
    ultimately show ?thesis using True by simp
  next
    case False
    then show ?thesis using b pow2_add [of 53 "b - 54"] by (simp add: pow2_53)
  qed
  then show ?thesis
    using b by (simp add: round_exp_def Let_def b_def [symmetric] max_def)
qed

definition int_quot :: "int \<Rightarrow> int" where
  "int_quot n = (if bit_len n \<le> 53 then n * pow2 (53 - bit_len n) else rne n (pow2 (bit_len n - 53)))"

lemma int_quot_bounds:
  assumes "0 < n"
  shows "4503599627370496 \<le> int_quot n" "int_quot n \<le> 9007199254740992"
proof -
  define b where "b = bit_len n"
  have b: "1 \<le> b" "pow2 (b - 1) \<le> n" "n < pow2 b"
    using bit_len_pos bit_len_bounds assms by (auto simp: b_def)
  have "4503599627370496 \<le> int_quot n \<and> int_quot n \<le> 9007199254740992"
  proof (cases "b \<le> 53")
    case True
    have "pow2 (b - 1) * pow2 (53 - b) = 4503599627370496" "pow2 b * pow2 (53 - b) = 9007199254740992"
      using True b pow2_add [of "b - 1" "53 - b"] pow2_add [of b "53 - b"] by (simp_all add: pow2_52 pow2_53)
    moreover have "pow2 (b - 1) * pow2 (53 - b) \<le> n * pow2 (53 - b)" "n * pow2 (53 - b) \<le> pow2 b * pow2 (53 - b)"
      using b by (auto intro!: mult_right_mono simp: less_imp_le)
    ultimately show ?thesis using True by (simp add: int_quot_def b_def)
  next
    case False
    have "4503599627370496 * pow2 (b - 53) \<le> n" "n \<le> 9007199254740992 * pow2 (b - 53)"
      using False b pow2_add [of 52 "b - 53"] pow2_add [of 53 "b - 53"] by (simp_all add: pow2_52 pow2_53)
    then show ?thesis using False rne_bounds [of "pow2 (b - 53)"] by (simp add: int_quot_def b_def)
  qed
  then show "4503599627370496 \<le> int_quot n" "int_quot n \<le> 9007199254740992" by simp_all
qed

lemma round_mag_int:
  assumes "0 < n"
  shows "round_mag n 1 0 = min inf_mag ((bit_len n + 1021) * 4503599627370496 + int_quot n)"
  using assms by (simp add: round_mag_def round_exp_int Let_def int_quot_def add.commute)

lemma binade_step:
  fixes b c q r :: int
  assumes "b + 1 \<le> c" "q \<le> 9007199254740992" "4503599627370496 \<le> r"
  shows "(b + 1021) * 4503599627370496 + q \<le> (c + 1021) * 4503599627370496 + r"
proof -
  have "(b + 1) * 4503599627370496 \<le> c * 4503599627370496" using assms(1) by (rule mult_right_mono) simp
  with assms(2,3) show ?thesis by (simp add: distrib_right)
qed

lemma round_mag_0 [simp]: "round_mag 0 d e = 0"
  by (simp add: round_mag_def)

lemma round_mag_int_mono:
  assumes "0 \<le> m" "m \<le> n"
  shows "round_mag m 1 0 \<le> round_mag n 1 0"
proof (cases "m = 0")
  case True
  then show ?thesis
    using round_mag_int [of n] int_quot_bounds [of n] bit_len_nonneg [of n] assms
    by (cases "n = 0") (auto simp: min_def inf_mag_def)
next
  case False
  with assms have pos: "0 < m" "0 < n" by simp_all
  have "(bit_len m + 1021) * 4503599627370496 + int_quot m \<le> (bit_len n + 1021) * 4503599627370496 + int_quot n"
  proof (cases "bit_len m = bit_len n")
    case True
    have "int_quot m \<le> int_quot n"
      using True assms by (auto simp: int_quot_def less_imp_le intro!: rne_mono mult_right_mono)
    with True show ?thesis by simp
  next
    case False
    with bit_len_mono [OF pos(1) assms(2)] have "bit_len m + 1 \<le> bit_len n" by simp
    then show ?thesis using int_quot_bounds [OF pos(1)] int_quot_bounds [OF pos(2)] by (intro binade_step)
  qed
  with pos show ?thesis by (simp add: round_mag_int min_le_iff_disj)
qed

lemma round_mag_int_finite:
  assumes "0 \<le> n" "n \<le> 9223372036854775808"
  shows "round_mag n 1 0 < inf_mag"
proof (cases "n = 0")
  case False
  with assms have pos: "0 < n" by simp
  have "bit_len n \<le> 64" using pos assms by (intro bit_len_le) (simp_all add: pow2_def)
  with int_quot_bounds [OF pos] round_mag_int [OF pos] show ?thesis
    by (simp add: inf_mag_def)
qed simp

lemma round_mag_int_strict:
  assumes "0 \<le> m" "m < n" "n \<le> 9007199254740992"
  shows "round_mag m 1 0 < round_mag n 1 0"
proof -
  have n: "0 < n" "round_mag n 1 0 = (bit_len n + 1021) * 4503599627370496 + int_quot n"
    using assms round_mag_int [of n] round_mag_int_finite [of n] by (auto simp: min_def)
  show ?thesis
  proof (cases "m = 0")
    case True
    then show ?thesis using n int_quot_bounds [of n] bit_len_nonneg [of n] by simp
  next
    case False
    with assms have m: "0 < m" "m < 9007199254740992" by simp_all
    have mb: "bit_len m \<le> 53" using m by (intro bit_len_le) (simp_all add: pow2_53)
    have "m * pow2 (53 - bit_len m) < pow2 (bit_len m) * pow2 (53 - bit_len m)"
      using bit_len_bounds [OF m(1)] by simp
    also have "\<dots> = 9007199254740992" using mb pow2_add [OF bit_len_nonneg, of "53 - bit_len m" m] by (simp add: pow2_53)
    finally have mq: "int_quot m < 9007199254740992" using mb by (simp add: int_quot_def)
    have "(bit_len m + 1021) * 4503599627370496 + int_quot m < (bit_len n + 1021) * 4503599627370496 + int_quot n"
    proof (cases "bit_len m = bit_len n")
      case True
      then show ?thesis using mb assms by (simp add: int_quot_def)
    next
      case False
      with bit_len_mono [of m n] m assms have "bit_len m + 1 \<le> bit_len n" by simp
      with mq int_quot_bounds [OF n(1)] show ?thesis
        using binade_step [of "bit_len m" "bit_len n" "int_quot m + 1" "int_quot n"] by simp
    qed
    moreover have "round_mag m 1 0 \<le> (bit_len m + 1021) * 4503599627370496 + int_quot m"
      using round_mag_int [OF m(1)] by simp
    ultimately show ?thesis using n by simp
  qed
qed

lemma round_mag_nonneg: "0 \<le> n \<Longrightarrow> 0 \<le> round_mag n 1 0"
  using round_mag_int_mono [of 0 n] by simp

lemma in_i64_abs: "in_i64 i \<Longrightarrow> \<bar>i\<bar> \<le> 9223372036854775808"
  by (auto simp: in_i64_def i64_min_def i64_max_def)

lemma d_of_int_mag:
  assumes "in_i64 i"
  shows "dmag (d_of_int i) = round_mag \<bar>i\<bar> 1 0" "dsign (d_of_int i) \<longleftrightarrow> i < 0"
    "dkey (d_of_int i) = (if i < 0 then - round_mag (- i) 1 0 else round_mag i 1 0)"
  using round_mag_int_finite [OF abs_ge_zero in_i64_abs [OF assms]] round_mag_nonneg [OF abs_ge_zero [of i]] order.strict_trans [OF _ inf_mag_bounds(2)]
  by (auto simp: d_of_int_def abs_if)

lemma d_of_int_finite [simp]: "in_i64 i \<Longrightarrow> is_finite (d_of_int i)"
  using round_mag_int_finite [OF abs_ge_zero in_i64_abs] by (simp add: is_finite_def d_of_int_mag)

lemma finite_not_nan [simp]: "is_finite x \<Longrightarrow> \<not> is_nan x"
  by (simp add: is_finite_def is_nan_def)

lemma d_of_int_mono:
  assumes "in_i64 i" "in_i64 j" "i \<le> j"
  shows "dle (d_of_int i) (d_of_int j)"
  using assms round_mag_int_mono [of i j] round_mag_int_mono [of "- j" "- i"]
    round_mag_nonneg [of j] round_mag_nonneg [of "- i"]
  by (auto simp: dle_def d_of_int_mag)

lemma d_of_int_strict:
  assumes "- 9007199254740992 \<le> i" "i < j" "j \<le> 9007199254740992"
  shows "dlt (d_of_int i) (d_of_int j)"
proof -
  have "in_i64 i" "in_i64 j" using assms by (auto simp: in_i64_def i64_min_def i64_max_def)
  then show ?thesis
    using assms round_mag_int_strict [of i j] round_mag_int_strict [of "- j" "- i"]
      round_mag_int_strict [of 0 "- i"] round_mag_nonneg [of j]
    by (auto simp: dlt_def d_of_int_mag)
qed

lemma d_of_int_order_exact:
  assumes "\<bar>i\<bar> \<le> 9007199254740992" "\<bar>j\<bar> \<le> 9007199254740992"
  shows "dlt (d_of_int i) (d_of_int j) \<longleftrightarrow> i < j"
  using d_of_int_strict [of i j] d_of_int_strict [of j i] assms dlt_asym
  by (metis abs_le_iff dlt_irrefl linorder_neqE minus_le_iff)

end
