(* ===== verification/Identities.thy ===== *)
theory Identities
  imports Prelude
begin

text \<open>
  Identities, generations and the status model (\<^verbatim>\<open>identities.hpp\<close>, \<^verbatim>\<open>status.hpp\<close>).  The class
  templates \<^verbatim>\<open>Id<Tag>\<close> and \<^verbatim>\<open>Gen<Tag>\<close> are datatypes with a phantom type argument, so that the
  authority domains are as little interchangeable here as they are in the sources.
\<close>

section \<open>Strongly typed identities and generations\<close>

datatype 'tag Id = Id (id_value: u64)

definition id_valid :: "'tag Id \<Rightarrow> bool" where
  "id_valid i \<longleftrightarrow> id_value i \<noteq> 0"

definition id_invalid :: "'tag Id \<Rightarrow> bool" where
  "id_invalid i \<longleftrightarrow> id_value i = 0"

definition id_to_string :: "'tag Id \<Rightarrow> string" where
  "id_to_string i = show_u64 (id_value i)"

datatype 'tag Gen = Gen (gen_value: u64)

definition gen_valid :: "'tag Gen \<Rightarrow> bool" where
  "gen_valid g \<longleftrightarrow> gen_value g \<noteq> 0"

definition gen_invalid :: "'tag Gen \<Rightarrow> bool" where
  "gen_invalid g \<longleftrightarrow> gen_value g = 0"

definition gen_next :: "'tag Gen \<Rightarrow> 'tag Gen" where
  "gen_next g = Gen (gen_value g + 1)"

definition gen_to_string :: "'tag Gen \<Rightarrow> string" where
  "gen_to_string g = show_u64 (gen_value g)"

datatype Priority = Priority (priority_value: int)

instantiation Id :: (type) linorder
begin

definition less_eq_Id :: "'a Id \<Rightarrow> 'a Id \<Rightarrow> bool" where
  "less_eq_Id a b \<longleftrightarrow> id_value a \<le> id_value b"

definition less_Id :: "'a Id \<Rightarrow> 'a Id \<Rightarrow> bool" where
  "less_Id a b \<longleftrightarrow> id_value a < id_value b"

instance
  by standard (auto simp: less_eq_Id_def less_Id_def intro: Id.expand)

end

instantiation Gen :: (type) linorder
begin

definition less_eq_Gen :: "'a Gen \<Rightarrow> 'a Gen \<Rightarrow> bool" where
  "less_eq_Gen a b \<longleftrightarrow> gen_value a \<le> gen_value b"

definition less_Gen :: "'a Gen \<Rightarrow> 'a Gen \<Rightarrow> bool" where
  "less_Gen a b \<longleftrightarrow> gen_value a < gen_value b"

instance
  by standard (auto simp: less_eq_Gen_def less_Gen_def intro: Gen.expand)

end

instantiation Priority :: linorder
begin

definition less_eq_Priority :: "Priority \<Rightarrow> Priority \<Rightarrow> bool" where
  "less_eq_Priority a b \<longleftrightarrow> priority_value a \<le> priority_value b"

definition less_Priority :: "Priority \<Rightarrow> Priority \<Rightarrow> bool" where
  "less_Priority a b \<longleftrightarrow> priority_value a < priority_value b"

instance
  by standard (auto simp: less_eq_Priority_def less_Priority_def intro: Priority.expand)

end

text \<open>The authority domains: one tag type per \<^verbatim>\<open>SLOFABRIC_DOMAIN\<close> and \<^verbatim>\<open>SLOFABRIC_EPOCH\<close>.\<close>

typedecl Service_tag
typedecl Workload_tag
typedecl Tenant_tag
typedecl SloContract_tag
typedecl Objective_tag
typedecl Policy_tag
typedecl Evidence_tag
typedecl Evaluation_tag
typedecl Enforcement_tag
typedecl SourceBoot_tag
typedecl CoordinatorEpoch_tag

type_synonym ServiceId = "Service_tag Id"
type_synonym WorkloadId = "Workload_tag Id"
type_synonym WorkloadGen = "Workload_tag Gen"
type_synonym TenantId = "Tenant_tag Id"
type_synonym SloContractId = "SloContract_tag Id"
type_synonym SloContractGen = "SloContract_tag Gen"
type_synonym ObjectiveId = "Objective_tag Id"
type_synonym ObjectiveGen = "Objective_tag Gen"
type_synonym PolicyId = "Policy_tag Id"
type_synonym PolicyGen = "Policy_tag Gen"
type_synonym EvidenceId = "Evidence_tag Id"
type_synonym EvidenceGen = "Evidence_tag Gen"
type_synonym EvaluationId = "Evaluation_tag Id"
type_synonym EvaluationGen = "Evaluation_tag Gen"
type_synonym EnforcementId = "Enforcement_tag Id"
type_synonym EnforcementGen = "Enforcement_tag Gen"
type_synonym SourceBootId = "SourceBoot_tag Id"
type_synonym SourceBootGen = "SourceBoot_tag Gen"
type_synonym CoordinatorEpoch = "CoordinatorEpoch_tag Gen"

section \<open>Status codes, statuses and results\<close>

datatype StatusCode =
    SC_Ok | SC_InvalidInput | SC_StaleAuthority | SC_StaleEvidence | SC_InsufficientEvidence
  | SC_UnitMismatch | SC_ContractInactive | SC_PolicySuperseded | SC_ObjectiveInvalid
  | SC_PersistenceCorrupt | SC_ProtocolError | SC_ResourceExhausted | SC_EnforcementFailed
  | SC_OutcomeUnknown | SC_Cancelled | SC_ShuttingDown | SC_NotReady | SC_NotFound | SC_Internal

fun status_code_name :: "StatusCode \<Rightarrow> string" where
  "status_code_name SC_Ok = ''ok''"
| "status_code_name SC_InvalidInput = ''invalid_input''"
| "status_code_name SC_StaleAuthority = ''stale_authority''"
| "status_code_name SC_StaleEvidence = ''stale_evidence''"
| "status_code_name SC_InsufficientEvidence = ''insufficient_evidence''"
| "status_code_name SC_UnitMismatch = ''unit_mismatch''"
| "status_code_name SC_ContractInactive = ''contract_inactive''"
| "status_code_name SC_PolicySuperseded = ''policy_superseded''"
| "status_code_name SC_ObjectiveInvalid = ''objective_invalid''"
| "status_code_name SC_PersistenceCorrupt = ''persistence_corrupt''"
| "status_code_name SC_ProtocolError = ''protocol_error''"
| "status_code_name SC_ResourceExhausted = ''resource_exhausted''"
| "status_code_name SC_EnforcementFailed = ''enforcement_failed''"
| "status_code_name SC_OutcomeUnknown = ''outcome_unknown''"
| "status_code_name SC_Cancelled = ''cancelled''"
| "status_code_name SC_ShuttingDown = ''shutting_down''"
| "status_code_name SC_NotReady = ''not_ready''"
| "status_code_name SC_NotFound = ''not_found''"
| "status_code_name SC_Internal = ''internal''"

datatype Status = Status (status_code: StatusCode) (status_message: string)

definition status_ok :: "Status \<Rightarrow> bool" where
  "status_ok s \<longleftrightarrow> status_code s = SC_Ok"

definition ok :: Status where
  "ok = Status SC_Ok []"

definition invalid_input :: "string \<Rightarrow> Status" where
  "invalid_input m = Status SC_InvalidInput m"

definition stale_authority :: "string \<Rightarrow> Status" where
  "stale_authority m = Status SC_StaleAuthority m"

definition stale_evidence :: "string \<Rightarrow> Status" where
  "stale_evidence m = Status SC_StaleEvidence m"

definition unit_mismatch :: "string \<Rightarrow> Status" where
  "unit_mismatch m = Status SC_UnitMismatch m"

definition contract_inactive :: "string \<Rightarrow> Status" where
  "contract_inactive m = Status SC_ContractInactive m"

definition policy_superseded :: "string \<Rightarrow> Status" where
  "policy_superseded m = Status SC_PolicySuperseded m"

definition objective_invalid :: "string \<Rightarrow> Status" where
  "objective_invalid m = Status SC_ObjectiveInvalid m"

definition persistence_corrupt :: "string \<Rightarrow> Status" where
  "persistence_corrupt m = Status SC_PersistenceCorrupt m"

definition protocol_error :: "string \<Rightarrow> Status" where
  "protocol_error m = Status SC_ProtocolError m"

definition enforcement_failed :: "string \<Rightarrow> Status" where
  "enforcement_failed m = Status SC_EnforcementFailed m"

definition cancelled :: "string \<Rightarrow> Status" where
  "cancelled m = Status SC_Cancelled m"

definition not_ready :: "string \<Rightarrow> Status" where
  "not_ready m = Status SC_NotReady m"

definition not_found :: "string \<Rightarrow> Status" where
  "not_found m = Status SC_NotFound m"

definition internal :: "string \<Rightarrow> Status" where
  "internal m = Status SC_Internal m"

text \<open>
  \<^verbatim>\<open>Result<T>\<close> carries an optional value and a status.  \<open>result_get\<close> is the checked accessor
  \<^verbatim>\<open>value()\<close>: the left injection is the exception it throws; an ok result without a value would
  dereference an empty optional and has no defined outcome (\<open>None\<close>).
\<close>

datatype 'a Result = Result (result_data: "'a option") (result_status: Status)

definition result_value :: "'a \<Rightarrow> 'a Result" where
  "result_value v = Result (Some v) ok"

definition result_error :: "Status \<Rightarrow> 'a Result" where
  "result_error s = Result None s"

definition result_ok :: "'a Result \<Rightarrow> bool" where
  "result_ok r \<longleftrightarrow> status_ok (result_status r)"

definition result_get :: "'a Result \<Rightarrow> (string + 'a) option" where
  "result_get r =
     (if \<not> result_ok r then Some (Inl (''Result::value() on error: '' @ status_message (result_status r)))
      else map_option Inr (result_data r))"

section \<open>Facts\<close>

lemmas status_ctor_defs =
  ok_def invalid_input_def stale_authority_def stale_evidence_def unit_mismatch_def
  contract_inactive_def policy_superseded_def objective_invalid_def persistence_corrupt_def
  protocol_error_def enforcement_failed_def cancelled_def not_ready_def not_found_def internal_def

lemma status_ok_ok [simp]: "status_ok ok"
  by (simp add: status_ok_def ok_def)

lemma status_errors_not_ok [simp]:
  "\<not> status_ok (invalid_input m)" "\<not> status_ok (stale_authority m)" "\<not> status_ok (stale_evidence m)"
  "\<not> status_ok (unit_mismatch m)" "\<not> status_ok (contract_inactive m)" "\<not> status_ok (policy_superseded m)"
  "\<not> status_ok (objective_invalid m)" "\<not> status_ok (persistence_corrupt m)" "\<not> status_ok (protocol_error m)"
  "\<not> status_ok (enforcement_failed m)" "\<not> status_ok (cancelled m)" "\<not> status_ok (not_ready m)"
  "\<not> status_ok (not_found m)" "\<not> status_ok (internal m)"
  by (simp_all add: status_ok_def status_ctor_defs)

lemma error_neq_ok [simp]:
  "invalid_input m \<noteq> ok" "stale_authority m \<noteq> ok" "stale_evidence m \<noteq> ok" "unit_mismatch m \<noteq> ok"
  "contract_inactive m \<noteq> ok" "policy_superseded m \<noteq> ok" "objective_invalid m \<noteq> ok"
  "persistence_corrupt m \<noteq> ok" "protocol_error m \<noteq> ok" "enforcement_failed m \<noteq> ok"
  "cancelled m \<noteq> ok" "not_ready m \<noteq> ok" "not_found m \<noteq> ok" "internal m \<noteq> ok"
  by (simp_all add: status_ctor_defs)

lemmas ok_neq_error [simp] = error_neq_ok [symmetric]

lemma result_simps [simp]:
  "result_ok (result_value v)" "result_data (result_value v) = Some v" "result_status (result_value v) = ok"
  "result_data (result_error s) = None" "result_status (result_error s) = s"
  "result_ok (result_error s) = status_ok s"
  by (simp_all add: result_ok_def result_value_def result_error_def)

lemma result_value_inject [simp]: "result_value a = result_value b \<longleftrightarrow> a = b"
  by (simp add: result_value_def)

lemma result_value_neq_error [simp]: "result_value a \<noteq> result_error s" "result_error s \<noteq> result_value a"
  by (simp_all add: result_value_def result_error_def)

lemma id_eq_iff: "a = b \<longleftrightarrow> id_value a = id_value (b :: 'tag Id)"
  by (cases a; cases b) simp

lemma gen_eq_iff: "a = b \<longleftrightarrow> gen_value a = gen_value (b :: 'tag Gen)"
  by (cases a; cases b) simp

text \<open>A successor generation is newer, except at the end of the 64-bit range, where it wraps to 0.\<close>

lemma gen_next_greater: "gen_value g \<noteq> - 1 \<Longrightarrow> g < gen_next g"
proof -
  assume "gen_value g \<noteq> - 1"
  then have "1 + gen_value g \<noteq> 0" by (metis add.inverse_unique minus_unique)
  then have "gen_value g < gen_value g + 1" by (simp add: word_less_nat_alt unatSuc add.commute)
  then show ?thesis by (simp add: less_Gen_def gen_next_def)
qed

end
