(* ===== verification/Units.thy ===== *)
theory Units
  imports Binary64 Identities
begin

text \<open>
  Typed quantities (\<^verbatim>\<open>units.hpp\<close>) and objective values (\<^verbatim>\<open>objective_value.hpp\<close>): the checked
  64-bit arithmetic, the unit classes, the unit kinds and the numeric view used for comparisons.
\<close>

section \<open>Checked 64-bit arithmetic\<close>

text \<open>The out parameter of each function is the value of the option; \<open>None\<close> is the return value \<^verbatim>\<open>false\<close>.\<close>

definition checked_add :: "int \<Rightarrow> int \<Rightarrow> int option" where
  "checked_add a b =
     (if (0 < b \<and> i64_max - b < a) \<or> (b < 0 \<and> a < i64_min - b) then None else Some (wrap64 (a + b)))"

definition checked_sub :: "int \<Rightarrow> int \<Rightarrow> int option" where
  "checked_sub a b =
     (if (0 < b \<and> a < i64_min + b) \<or> (b < 0 \<and> i64_max + b < a) then None else Some (wrap64 (a - b)))"

text \<open>
  \<^verbatim>\<open>checked_mul\<close> multiplies first and divides afterwards to see whether the product wrapped.  A signed product out of range is
  undefined behaviour, and a compiler may drop the test: the outer \<open>None\<close> says that the call has no defined result.
\<close>

definition checked_mul :: "int \<Rightarrow> int \<Rightarrow> int option option" where
  "checked_mul a b =
     (if a = 0 \<or> b = 0 then Some (Some 0)
      else if a = - 1 \<and> b = i64_min then Some None
      else if b = - 1 \<and> a = i64_min then Some None
      else if \<not> in_i64 (a * b) then None
      else let r = a * b in if r sdiv b \<noteq> a then Some None else Some (Some r))"

fun checked_scale :: "int \<Rightarrow> nat \<Rightarrow> int option option" where
  "checked_scale v 0 = Some (Some v)"
| "checked_scale v (Suc e) =
     (case checked_mul v 10 of None \<Rightarrow> None | Some None \<Rightarrow> Some None | Some (Some t) \<Rightarrow> checked_scale t e)"

section \<open>Unit classes\<close>

datatype Duration = Duration (as_ns: i64)
datatype ByteCount = ByteCount (as_bytes: i64)
datatype Count = Count (count_value: i64)
datatype BasisPoints = BasisPoints (bp_value: i64)
datatype Percentage = Percentage (percentage_value: double)
datatype PressureRatio = PressureRatio (pressure_value: double)
datatype CostMicros = CostMicros (as_micros: i64)
datatype EnergyJoules = EnergyJoules (joules_value: i64)
datatype 'tag Rate = Rate (rate_value: double)

typedecl RequestsPerSecond_tag
typedecl TokensPerSecond_tag
typedecl BytesPerSecond_tag
typedecl OperationsPerSecond_tag

type_synonym RequestsPerSecond = "RequestsPerSecond_tag Rate"
type_synonym TokensPerSecond = "TokensPerSecond_tag Rate"
type_synonym BytesPerSecond = "BytesPerSecond_tag Rate"
type_synonym OperationsPerSecond = "OperationsPerSecond_tag Rate"

instantiation Duration :: linorder
begin

definition less_eq_Duration :: "Duration \<Rightarrow> Duration \<Rightarrow> bool" where
  "less_eq_Duration a b \<longleftrightarrow> as_ns a \<le> as_ns b"

definition less_Duration :: "Duration \<Rightarrow> Duration \<Rightarrow> bool" where
  "less_Duration a b \<longleftrightarrow> as_ns a < as_ns b"

instance
  by standard (auto simp: less_eq_Duration_def less_Duration_def intro: Duration.expand)

end

definition duration_as_micros :: "Duration \<Rightarrow> int" where
  "duration_as_micros d = as_ns d sdiv 1000"

definition duration_as_ms :: "Duration \<Rightarrow> int" where
  "duration_as_ms d = as_ns d sdiv 1000000"

definition duration_add :: "Duration \<Rightarrow> Duration \<Rightarrow> Duration option" where
  "duration_add a b = map_option Duration (checked_add (as_ns a) (as_ns b))"

definition duration_plus :: "Duration \<Rightarrow> Duration \<Rightarrow> Duration" where
  "duration_plus a b = Duration (wrap64 (as_ns a + as_ns b))"

definition duration_to_string :: "Duration \<Rightarrow> string" where
  "duration_to_string d = show_int (as_ns d) @ ''ns''"

definition microseconds :: "int \<Rightarrow> Duration" where
  "microseconds v = Duration (wrap64 (v * 1000))"

definition milliseconds :: "int \<Rightarrow> Duration" where
  "milliseconds v = Duration (wrap64 (v * 1000000))"

definition seconds :: "int \<Rightarrow> Duration" where
  "seconds v = Duration (wrap64 (v * 1000000000))"

definition cost_add :: "CostMicros \<Rightarrow> CostMicros \<Rightarrow> CostMicros option" where
  "cost_add a b = map_option CostMicros (checked_add (as_micros a) (as_micros b))"

definition cost_sub :: "CostMicros \<Rightarrow> CostMicros \<Rightarrow> CostMicros option" where
  "cost_sub a b = map_option CostMicros (checked_sub (as_micros a) (as_micros b))"

definition basis_points_valid :: "BasisPoints \<Rightarrow> bool" where
  "basis_points_valid b \<longleftrightarrow> 0 \<le> bp_value b \<and> bp_value b \<le> 10000"

definition percentage_valid :: "Percentage \<Rightarrow> bool" where
  "percentage_valid p \<longleftrightarrow> dge (percentage_value p) dzero \<and> dle (percentage_value p) (dec 100 1)"

definition pressure_valid :: "PressureRatio \<Rightarrow> bool" where
  "pressure_valid r \<longleftrightarrow> dge (pressure_value r) dzero \<and> deq (pressure_value r) (pressure_value r)"

definition finite_nonneg :: "double \<Rightarrow> bool" where
  "finite_nonneg d \<longleftrightarrow> deq d d \<and> dge d dzero \<and> dle d (dec (10 ^ 300) 1)"

definition rate_valid :: "'tag Rate \<Rightarrow> bool" where
  "rate_valid r \<longleftrightarrow> finite_nonneg (rate_value r)"

section \<open>Objective values\<close>

datatype UnitKind =
    UK_Nanoseconds | UK_Microseconds | UK_Milliseconds | UK_Seconds
  | UK_Bytes | UK_KiloBytes | UK_MegaBytes | UK_GigaBytes
  | UK_Count | UK_BasisPoints | UK_Percent | UK_PressureRatio
  | UK_RequestsPerSecond | UK_TokensPerSecond | UK_BytesPerSecond | UK_OperationsPerSecond
  | UK_CurrencyMicros | UK_EnergyJoules

fun unit_kind_name :: "UnitKind \<Rightarrow> string" where
  "unit_kind_name UK_Nanoseconds = ''nanoseconds''"
| "unit_kind_name UK_Microseconds = ''microseconds''"
| "unit_kind_name UK_Milliseconds = ''milliseconds''"
| "unit_kind_name UK_Seconds = ''seconds''"
| "unit_kind_name UK_Bytes = ''bytes''"
| "unit_kind_name UK_KiloBytes = ''kilobytes''"
| "unit_kind_name UK_MegaBytes = ''megabytes''"
| "unit_kind_name UK_GigaBytes = ''gigabytes''"
| "unit_kind_name UK_Count = ''count''"
| "unit_kind_name UK_BasisPoints = ''basis_points''"
| "unit_kind_name UK_Percent = ''percent''"
| "unit_kind_name UK_PressureRatio = ''pressure_ratio''"
| "unit_kind_name UK_RequestsPerSecond = ''requests_per_second''"
| "unit_kind_name UK_TokensPerSecond = ''tokens_per_second''"
| "unit_kind_name UK_BytesPerSecond = ''bytes_per_second''"
| "unit_kind_name UK_OperationsPerSecond = ''operations_per_second''"
| "unit_kind_name UK_CurrencyMicros = ''currency_micros''"
| "unit_kind_name UK_EnergyJoules = ''energy_joules''"

datatype ObjectiveValue =
    VDuration Duration | VByteCount ByteCount | VCount Count | VBasisPoints BasisPoints
  | VPercentage Percentage | VPressureRatio PressureRatio
  | VRequestsPerSecond RequestsPerSecond | VTokensPerSecond TokensPerSecond
  | VBytesPerSecond BytesPerSecond | VOperationsPerSecond OperationsPerSecond
  | VCostMicros CostMicros | VEnergyJoules EnergyJoules

fun unit_kind_of :: "ObjectiveValue \<Rightarrow> UnitKind" where
  "unit_kind_of (VDuration _) = UK_Nanoseconds"
| "unit_kind_of (VByteCount _) = UK_Bytes"
| "unit_kind_of (VCount _) = UK_Count"
| "unit_kind_of (VBasisPoints _) = UK_BasisPoints"
| "unit_kind_of (VPercentage _) = UK_Percent"
| "unit_kind_of (VPressureRatio _) = UK_PressureRatio"
| "unit_kind_of (VRequestsPerSecond _) = UK_RequestsPerSecond"
| "unit_kind_of (VTokensPerSecond _) = UK_TokensPerSecond"
| "unit_kind_of (VBytesPerSecond _) = UK_BytesPerSecond"
| "unit_kind_of (VOperationsPerSecond _) = UK_OperationsPerSecond"
| "unit_kind_of (VCostMicros _) = UK_CurrencyMicros"
| "unit_kind_of (VEnergyJoules _) = UK_EnergyJoules"

fun numeric_of :: "ObjectiveValue \<Rightarrow> double" where
  "numeric_of (VDuration d) = d_of_int (as_ns d)"
| "numeric_of (VByteCount b) = d_of_int (as_bytes b)"
| "numeric_of (VCount c) = d_of_int (count_value c)"
| "numeric_of (VBasisPoints bp) = d_of_int (bp_value bp)"
| "numeric_of (VPercentage p) = percentage_value p"
| "numeric_of (VPressureRatio r) = pressure_value r"
| "numeric_of (VRequestsPerSecond r) = rate_value r"
| "numeric_of (VTokensPerSecond r) = rate_value r"
| "numeric_of (VBytesPerSecond r) = rate_value r"
| "numeric_of (VOperationsPerSecond r) = rate_value r"
| "numeric_of (VCostMicros m) = d_of_int (as_micros m)"
| "numeric_of (VEnergyJoules e) = d_of_int (joules_value e)"

definition unit_kind_matches :: "ObjectiveValue \<Rightarrow> ObjectiveValue \<Rightarrow> bool" where
  "unit_kind_matches a b \<longleftrightarrow> unit_kind_of a = unit_kind_of b"

fun value_to_string :: "ObjectiveValue \<Rightarrow> string" where
  "value_to_string (VDuration d) = duration_to_string d"
| "value_to_string (VByteCount b) = show_int (as_bytes b) @ ''B''"
| "value_to_string (VCount c) = show_int (count_value c)"
| "value_to_string (VBasisPoints bp) = show_int (bp_value bp) @ ''bp''"
| "value_to_string (VPercentage p) = d_to_string (percentage_value p) @ ''%''"
| "value_to_string (VPressureRatio r) = d_to_string (pressure_value r)"
| "value_to_string (VRequestsPerSecond r) = d_to_string (rate_value r) @ ''req/s''"
| "value_to_string (VTokensPerSecond r) = d_to_string (rate_value r) @ ''tok/s''"
| "value_to_string (VBytesPerSecond r) = d_to_string (rate_value r) @ ''B/s''"
| "value_to_string (VOperationsPerSecond r) = d_to_string (rate_value r) @ ''op/s''"
| "value_to_string (VCostMicros m) = show_int (as_micros m) @ ''um''"
| "value_to_string (VEnergyJoules e) = show_int (joules_value e) @ ''J''"

text \<open>
  The integer that an integral value carries, and the range in which the conversion of an integral value
  to \<^verbatim>\<open>double\<close> loses nothing.
\<close>

fun integral_of :: "ObjectiveValue \<Rightarrow> int option" where
  "integral_of (VDuration d) = Some (as_ns d)"
| "integral_of (VByteCount b) = Some (as_bytes b)"
| "integral_of (VCount c) = Some (count_value c)"
| "integral_of (VBasisPoints bp) = Some (bp_value bp)"
| "integral_of (VCostMicros m) = Some (as_micros m)"
| "integral_of (VEnergyJoules e) = Some (joules_value e)"
| "integral_of _ = None"

definition value_in_range :: "ObjectiveValue \<Rightarrow> bool" where
  "value_in_range v \<longleftrightarrow> (case integral_of v of None \<Rightarrow> True | Some i \<Rightarrow> in_i64 i)"

section \<open>Facts\<close>

subsection \<open>Checked arithmetic is exact\<close>

lemma checked_add_eq:
  "in_i64 a \<Longrightarrow> in_i64 b \<Longrightarrow> checked_add a b = (if in_i64 (a + b) then Some (a + b) else None)"
  by (auto simp: checked_add_def in_i64_def wrap64_id i64_min_def i64_max_def)

lemma checked_sub_eq:
  "in_i64 a \<Longrightarrow> in_i64 b \<Longrightarrow> checked_sub a b = (if in_i64 (a - b) then Some (a - b) else None)"
  by (auto simp: checked_sub_def in_i64_def wrap64_id i64_min_def i64_max_def)

text \<open>
  On a machine whose products wrap, the division test of \<^verbatim>\<open>checked_mul\<close> would find every wrap-around: a wrapped product differs from the exact one
  by a nonzero multiple of \<open>2 ^ 64\<close>, while truncated division moves it by less than the divisor.
\<close>

lemma sdiv_close: "(b :: int) \<noteq> 0 \<Longrightarrow> \<bar>r - (r sdiv b) * b\<bar> < \<bar>b\<bar>"
proof -
  assume "b \<noteq> 0"
  have "r - (r sdiv b) * b = r smod b" by (simp add: minus_sdiv_mult_eq_smod)
  also have "\<bar>\<dots>\<bar> < \<bar>b\<bar>"
    using \<open>b \<noteq> 0\<close> by (simp add: signed_modulo_int_def abs_mult sgn_if)
  finally show ?thesis .
qed

lemma wrap_sdiv_detects:
  assumes "in_i64 b" "b \<noteq> 0" "wrap64 (a * b) sdiv b = a"
  shows "in_i64 (a * b)"
proof -
  obtain k where k: "wrap64 (a * b) = a * b - k * 18446744073709551616" using wrap64_cong by blast
  have "\<bar>wrap64 (a * b) - a * b\<bar> < \<bar>b\<bar>" using sdiv_close [OF assms(2), of "wrap64 (a * b)"] assms(3) by simp
  also have "\<bar>b\<bar> \<le> 9223372036854775808" using assms(1) by (rule in_i64_abs)
  finally have "\<bar>k * 18446744073709551616\<bar> < 9223372036854775808" using k by simp
  then have "k = 0" by (simp add: abs_mult)
  with k have "wrap64 (a * b) = a * b" by simp
  then show ?thesis using in_i64_wrap64 [of "a * b"] by simp
qed

lemma sdiv_mult_exact: "(b :: int) \<noteq> 0 \<Longrightarrow> (a * b) sdiv b = a"
proof -
  assume b: "b \<noteq> 0"
  then have "sgn b * sgn b = 1" by (simp add: sgn_if)
  then have "sgn (a * b) * sgn b = sgn a" by (simp add: sgn_mult mult.assoc)
  with b show ?thesis by (simp add: signed_divide_int_def abs_mult sgn_mult_abs)
qed

lemma in_i64_closer: "\<bar>x\<bar> \<le> \<bar>y\<bar> \<Longrightarrow> (y < 0 \<Longrightarrow> x \<le> 0) \<Longrightarrow> in_i64 y \<Longrightarrow> in_i64 x"
  by (cases "y < 0") (auto simp: in_i64_def i64_min_def i64_max_def)

lemma sdiv_mult_in_i64: "in_i64 t \<Longrightarrow> 0 < d \<Longrightarrow> in_i64 ((t sdiv d) * d)"
proof (rule in_i64_closer [of _ t])
  assume "0 < d"
  then have eq: "(t sdiv d) * d = sgn t * (\<bar>t\<bar> div d * d)" by (simp add: signed_divide_int_def)
  have le: "\<bar>t\<bar> div d * d \<le> \<bar>t\<bar>"
    using pos_mod_sign [OF \<open>0 < d\<close>, of "\<bar>t\<bar>"] minus_mod_eq_div_mult [of "\<bar>t\<bar>" d] by linarith
  moreover have "0 \<le> \<bar>t\<bar> div d * d" using \<open>0 < d\<close> by (simp add: pos_imp_zdiv_nonneg_iff)
  ultimately have le: "\<bar>t\<bar> div d * d \<le> \<bar>t\<bar>" "0 \<le> \<bar>t\<bar> div d * d" by simp_all
  show "\<bar>(t sdiv d) * d\<bar> \<le> \<bar>t\<bar>" using le by (auto simp: eq abs_mult sgn_if)
  show "(t sdiv d) * d \<le> 0" if "t < 0" using that le by (simp add: eq)
qed

lemma sdiv_mono: "0 < d \<Longrightarrow> s \<le> t \<Longrightarrow> s sdiv d \<le> t sdiv (d :: int)"
proof -
  assume d: "0 < d" and le: "s \<le> t"
  have *: "x sdiv d = (if x < 0 then - ((- x) div d) else x div d)" for x
    using d by (auto simp: signed_divide_int_def sgn_if)
  have "(- t) div d \<le> (- s) div d" "s div d \<le> t div d" using d le by (auto intro: zdiv_mono1)
  moreover have "0 \<le> (- s) div d" if "s < 0" using d that by (simp add: pos_imp_zdiv_nonneg_iff)
  moreover have "0 \<le> t div d" if "0 \<le> t" using d that by (simp add: pos_imp_zdiv_nonneg_iff)
  ultimately show ?thesis using le by (auto simp: *)
qed

lemma checked_mul_eq:
  assumes "in_i64 a" "in_i64 b"
  shows "checked_mul a b =
    (if in_i64 (a * b) then Some (Some (a * b)) else if {a, b} = {- 1, i64_min} then Some None else None)"
proof (cases "in_i64 (a * b)")
  case True
  then have "\<not> (a = - 1 \<and> b = i64_min)" "\<not> (b = - 1 \<and> a = i64_min)"
    by (auto simp: in_i64_def i64_min_def i64_max_def)
  then show ?thesis using True by (auto simp: checked_mul_def sdiv_mult_exact Let_def)
next
  case False
  then have "a \<noteq> 0" "b \<noteq> 0" by (auto simp: in_i64_def i64_min_def i64_max_def)
  then show ?thesis using False by (auto simp: checked_mul_def doubleton_eq_iff)
qed

lemma checked_scale_eq:
  "in_i64 v \<Longrightarrow> checked_scale v e = (if in_i64 (v * 10 ^ e) then Some (Some (v * 10 ^ e)) else None)"
proof (induction e arbitrary: v)
  case (Suc e)
  have ten: "in_i64 10" "{v, 10} \<noteq> {- 1, i64_min}" by (auto simp: in_i64_def i64_min_def i64_max_def doubleton_eq_iff)
  show ?case
  proof (cases "in_i64 (v * 10)")
    case True
    then show ?thesis using Suc ten by (simp add: checked_mul_eq mult.assoc)
  next
    case False
    have "\<bar>v * 10\<bar> * 1 \<le> \<bar>v * 10\<bar> * 10 ^ e" by (intro mult_left_mono) simp_all
    then have "\<bar>v * 10\<bar> \<le> \<bar>v * 10 ^ Suc e\<bar>" by (simp add: abs_mult)
    moreover have "v * 10 \<le> 0" if "v * 10 ^ Suc e < 0"
      using that by (auto simp: mult_less_0_iff dest: leD)
    ultimately have "\<not> in_i64 (v * 10 ^ Suc e)"
      using False in_i64_closer by blast
    with False Suc ten show ?thesis by (simp add: checked_mul_eq)
  qed
qed simp

subsection \<open>Properties\<close>

text \<open>
  Property C31.  The checked operations of \<^verbatim>\<open>slofabric::detail\<close> on \<^verbatim>\<open>int64_t\<close> operands: sum and difference are the exact result
  when it fits in 64 bits and are refused otherwise; product and decimal scaling are the exact result when it fits, and
  no other result is ever defined: beside the two pairs the product tests for beforehand, which it refuses, an operand pair
  whose product does not fit makes the function overflow a signed integer before it looks.
\<close>

theorem checked_arithmetic_exact:
  assumes "in_i64 a" "in_i64 b"
  shows "checked_add a b = (if in_i64 (a + b) then Some (a + b) else None) \<and>
    checked_sub a b = (if in_i64 (a - b) then Some (a - b) else None) \<and>
    checked_mul a b = (if in_i64 (a * b) then Some (Some (a * b)) else if {a, b} = {- 1, i64_min} then Some None else None) \<and>
    checked_scale a e = (if in_i64 (a * 10 ^ e) then Some (Some (a * 10 ^ e)) else None)"
  using assms by (simp add: checked_add_eq checked_sub_eq checked_mul_eq checked_scale_eq)

theorem checked_arithmetic_exact_witness:
  "checked_mul (3 * 10 ^ 9) (4 * 10 ^ 9) = None \<and> checked_scale (- 92233720368) 8 = Some (Some (- 9223372036800000000))
   \<and> checked_scale (- 92233720369) 8 = None"
  using checked_arithmetic_exact [of "3 * 10 ^ 9" "4 * 10 ^ 9" 0]
    checked_arithmetic_exact [of "- 92233720368" 0 8] checked_arithmetic_exact [of "- 92233720369" 0 8]
  by (simp add: in_i64_def i64_min_def i64_max_def doubleton_eq_iff)

end
