(* ===== verification/Objectives.thy ===== *)
theory Objectives
  imports Units
begin

text \<open>
  Objectives, policies, contracts, compliance vocabulary and evidence (\<^verbatim>\<open>objective.hpp\<close>,
  \<^verbatim>\<open>policy.hpp\<close>, \<^verbatim>\<open>contract.hpp\<close>, \<^verbatim>\<open>compliance.hpp\<close>, \<^verbatim>\<open>freshness.hpp\<close>,
  \<^verbatim>\<open>provenance.hpp\<close>, \<^verbatim>\<open>evidence.hpp\<close>).  Each enum is a datatype with the source's enumerators, each
  struct a record with the source's fields.
\<close>

section \<open>Objective vocabulary\<close>

datatype Dimension =
  Dim_Latency | Dim_Availability | Dim_Throughput | Dim_RecoveryTime | Dim_MemoryPressure | Dim_Cost

fun dimension_name :: "Dimension \<Rightarrow> string" where
  "dimension_name Dim_Latency = ''latency''"
| "dimension_name Dim_Availability = ''availability''"
| "dimension_name Dim_Throughput = ''throughput''"
| "dimension_name Dim_RecoveryTime = ''recovery_time''"
| "dimension_name Dim_MemoryPressure = ''memory_pressure''"
| "dimension_name Dim_Cost = ''cost''"

datatype Comparison = AtMost | AtLeast

definition comparison_name :: "Comparison \<Rightarrow> string" where
  "comparison_name c = (if c = AtMost then ''at_most'' else ''at_least'')"

datatype HardSoft = Hard | Soft

definition hardsoft_name :: "HardSoft \<Rightarrow> string" where
  "hardsoft_name h = (if h = Hard then ''hard'' else ''soft'')"

datatype WindowType = WT_Instantaneous | WT_Sliding | WT_Tumbling | WT_FixedInterval | WT_RollingCount

fun window_type_name :: "WindowType \<Rightarrow> string" where
  "window_type_name WT_Instantaneous = ''instantaneous''"
| "window_type_name WT_Sliding = ''sliding''"
| "window_type_name WT_Tumbling = ''tumbling''"
| "window_type_name WT_FixedInterval = ''fixed_interval''"
| "window_type_name WT_RollingCount = ''rolling_count''"

datatype EnforcementClass = EC_None | EC_Advisory | EC_Authorized | EC_Mandatory

fun enforcement_class_name :: "EnforcementClass \<Rightarrow> string" where
  "enforcement_class_name EC_None = ''none''"
| "enforcement_class_name EC_Advisory = ''advisory''"
| "enforcement_class_name EC_Authorized = ''authorized''"
| "enforcement_class_name EC_Mandatory = ''mandatory''"

datatype ObjectiveKind =
    K_LatencyMean | K_LatencyPercentile | K_LatencyMaxDeadline
  | K_AvailabilityTime | K_AvailabilityRequest
  | K_ThroughputRate
  | K_RecoveryMaxDuration
  | K_MemoryPressureMax | K_MemoryMinHeadroom
  | K_CostPerRequest | K_CostPerToken | K_CostWindowBudget

fun objective_kind_name :: "ObjectiveKind \<Rightarrow> string" where
  "objective_kind_name K_LatencyMean = ''latency_mean''"
| "objective_kind_name K_LatencyPercentile = ''latency_percentile''"
| "objective_kind_name K_LatencyMaxDeadline = ''latency_max_deadline''"
| "objective_kind_name K_AvailabilityTime = ''availability_time''"
| "objective_kind_name K_AvailabilityRequest = ''availability_request''"
| "objective_kind_name K_ThroughputRate = ''throughput_rate''"
| "objective_kind_name K_RecoveryMaxDuration = ''recovery_max_duration''"
| "objective_kind_name K_MemoryPressureMax = ''memory_pressure_max''"
| "objective_kind_name K_MemoryMinHeadroom = ''memory_min_headroom''"
| "objective_kind_name K_CostPerRequest = ''cost_per_request''"
| "objective_kind_name K_CostPerToken = ''cost_per_token''"
| "objective_kind_name K_CostWindowBudget = ''cost_window_budget''"

datatype RateTag = RT_Requests | RT_Tokens | RT_Bytes | RT_Operations

datatype AvailabilityMode = AM_Time | AM_Requests

record Objective =
  o_id :: ObjectiveId
  o_gen :: ObjectiveGen
  o_name :: string
  o_dim :: Dimension
  o_kind :: ObjectiveKind
  o_comparison :: Comparison
  o_hard :: HardSoft
  o_enforcement :: EnforcementClass
  o_target :: ObjectiveValue
  o_breach_threshold :: "ObjectiveValue option"
  o_recovery_threshold :: "ObjectiveValue option"
  o_min_evidence :: Count
  o_allowed_uncertainty :: double
  o_freshness_ttl :: Duration
  o_grace_period :: Duration
  o_window_type :: WindowType
  o_window_duration :: Duration
  o_window_count :: Count
  o_priority :: Priority
  o_percentile_rank :: double
  o_availability_mode :: AvailabilityMode
  o_rate_tag :: RateTag

fun expected_unit_for :: "Dimension \<Rightarrow> UnitKind" where
  "expected_unit_for Dim_Latency = UK_Nanoseconds"
| "expected_unit_for Dim_Availability = UK_BasisPoints"
| "expected_unit_for Dim_Throughput = UK_RequestsPerSecond"
| "expected_unit_for Dim_RecoveryTime = UK_Nanoseconds"
| "expected_unit_for Dim_MemoryPressure = UK_PressureRatio"
| "expected_unit_for Dim_Cost = UK_CurrencyMicros"

fun rate_unit :: "RateTag \<Rightarrow> UnitKind" where
  "rate_unit RT_Requests = UK_RequestsPerSecond"
| "rate_unit RT_Tokens = UK_TokensPerSecond"
| "rate_unit RT_Bytes = UK_BytesPerSecond"
| "rate_unit RT_Operations = UK_OperationsPerSecond"

definition target_unit_matches_dimension :: "Objective \<Rightarrow> bool" where
  "target_unit_matches_dimension o' =
     (if o_dim o' = Dim_Throughput then unit_kind_of (o_target o') = rate_unit (o_rate_tag o')
      else unit_kind_of (o_target o') = expected_unit_for (o_dim o'))"

text \<open>The member initialisers of \<^verbatim>\<open>struct Objective\<close>; a default variant holds its first alternative.\<close>

definition default_objective :: Objective where
  "default_objective =
     \<lparr> o_id = Id 0, o_gen = Gen 0, o_name = [], o_dim = Dim_Latency, o_kind = K_LatencyMean,
       o_comparison = AtMost, o_hard = Hard, o_enforcement = EC_Authorized,
       o_target = VDuration (Duration 0), o_breach_threshold = None, o_recovery_threshold = None,
       o_min_evidence = Count 1, o_allowed_uncertainty = dzero, o_freshness_ttl = Duration 0,
       o_grace_period = Duration 0, o_window_type = WT_Instantaneous, o_window_duration = Duration 0,
       o_window_count = Count 64, o_priority = Priority 0, o_percentile_rank = dec 99 100,
       o_availability_mode = AM_Time, o_rate_tag = RT_Requests \<rparr>"

section \<open>Policies\<close>

datatype PolicyMode = PM_Lexicographic | PM_HardThenSoft

fun policy_mode_name :: "PolicyMode \<Rightarrow> string" where
  "policy_mode_name PM_Lexicographic = ''lexicographic''"
| "policy_mode_name PM_HardThenSoft = ''hard_then_soft''"

datatype TieBreak = TB_ByPriority | TB_ByName | TB_ByObjectiveId

fun tie_break_name :: "TieBreak \<Rightarrow> string" where
  "tie_break_name TB_ByPriority = ''by_priority''"
| "tie_break_name TB_ByName = ''by_name''"
| "tie_break_name TB_ByObjectiveId = ''by_objective_id''"

record SloPolicy =
  p_id :: PolicyId
  p_gen :: PolicyGen
  p_mode :: PolicyMode
  p_tie_break :: TieBreak
  p_name :: string
  p_description :: string

section \<open>Contracts\<close>

datatype ContractLifecycle =
  CL_Draft | CL_Active | CL_Superseded | CL_Suspended | CL_Expired | CL_Retired

fun contract_lifecycle_name :: "ContractLifecycle \<Rightarrow> string" where
  "contract_lifecycle_name CL_Draft = ''draft''"
| "contract_lifecycle_name CL_Active = ''active''"
| "contract_lifecycle_name CL_Superseded = ''superseded''"
| "contract_lifecycle_name CL_Suspended = ''suspended''"
| "contract_lifecycle_name CL_Expired = ''expired''"
| "contract_lifecycle_name CL_Retired = ''retired''"

record SloContract =
  c_id :: SloContractId
  c_gen :: SloContractGen
  c_service :: ServiceId
  c_workload :: WorkloadId
  c_tenant :: TenantId
  c_objectives :: "Objective list"
  c_policy_id :: PolicyId
  c_policy_gen :: PolicyGen
  c_effective_from :: Duration
  c_expiration :: "Duration option"
  c_epoch :: CoordinatorEpoch
  c_lifecycle :: ContractLifecycle
  c_name :: string
  c_provenance :: string

definition is_active :: "SloContract \<Rightarrow> bool" where
  "is_active c \<longleftrightarrow> c_lifecycle c = CL_Active"

definition can_authorize :: "SloContract \<Rightarrow> Duration \<Rightarrow> bool" where
  "can_authorize c now =
     (if \<not> is_active c then False
      else if now < c_effective_from c then False
      else case c_expiration c of Some e \<Rightarrow> \<not> e \<le> now | None \<Rightarrow> True)"

section \<open>Compliance, freshness, provenance\<close>

datatype ComplianceState =
    CS_Compliant | CS_NearLimit | CS_AtRisk | CS_Violating | CS_Recovering
  | CS_InsufficientEvidence | CS_RevalidationRequired | CS_Suspended

fun compliance_state_name :: "ComplianceState \<Rightarrow> string" where
  "compliance_state_name CS_Compliant = ''compliant''"
| "compliance_state_name CS_NearLimit = ''near_limit''"
| "compliance_state_name CS_AtRisk = ''at_risk''"
| "compliance_state_name CS_Violating = ''violating''"
| "compliance_state_name CS_Recovering = ''recovering''"
| "compliance_state_name CS_InsufficientEvidence = ''insufficient_evidence''"
| "compliance_state_name CS_RevalidationRequired = ''revalidation_required''"
| "compliance_state_name CS_Suspended = ''suspended''"

datatype Provenance =
  PV_Measured | PV_Derived | PV_Estimated | PV_Reported | PV_Synthetic | PV_Unknown

fun provenance_name :: "Provenance \<Rightarrow> string" where
  "provenance_name PV_Measured = ''measured''"
| "provenance_name PV_Derived = ''derived''"
| "provenance_name PV_Estimated = ''estimated''"
| "provenance_name PV_Reported = ''reported''"
| "provenance_name PV_Synthetic = ''synthetic''"
| "provenance_name PV_Unknown = ''unknown''"

datatype Freshness = FR_Current | FR_Stale | FR_Expired | FR_RevalidationRequired | FR_Unknown

fun freshness_name :: "Freshness \<Rightarrow> string" where
  "freshness_name FR_Current = ''current''"
| "freshness_name FR_Stale = ''stale''"
| "freshness_name FR_Expired = ''expired''"
| "freshness_name FR_RevalidationRequired = ''revalidation_required''"
| "freshness_name FR_Unknown = ''unknown''"

section \<open>Evidence\<close>

datatype MeasurementStatus = MS_Complete | MS_Partial | MS_Inconclusive

fun measurement_status_name :: "MeasurementStatus \<Rightarrow> string" where
  "measurement_status_name MS_Complete = ''complete''"
| "measurement_status_name MS_Partial = ''partial''"
| "measurement_status_name MS_Inconclusive = ''inconclusive''"

datatype AggregationType =
    AG_Raw | AG_Sum | AG_Mean | AG_Min | AG_Max | AG_Count
  | AG_PercentileRaw | AG_PercentileApprox | AG_None

fun aggregation_type_name :: "AggregationType \<Rightarrow> string" where
  "aggregation_type_name AG_Raw = ''raw''"
| "aggregation_type_name AG_Sum = ''sum''"
| "aggregation_type_name AG_Mean = ''mean''"
| "aggregation_type_name AG_Min = ''min''"
| "aggregation_type_name AG_Max = ''max''"
| "aggregation_type_name AG_Count = ''count''"
| "aggregation_type_name AG_PercentileRaw = ''percentile_raw''"
| "aggregation_type_name AG_PercentileApprox = ''percentile_approx''"
| "aggregation_type_name AG_None = ''none''"

record EvidenceRecord =
  e_id :: EvidenceId
  e_gen :: EvidenceGen
  e_dimension :: Dimension
  e_objective_id :: ObjectiveId
  e_objective_gen :: ObjectiveGen
  e_source :: SourceBootId
  e_source_gen :: SourceBootGen
  e_epoch :: CoordinatorEpoch
  e_time :: Duration
  e_wall_ns :: i64
  e_provenance :: Provenance
  e_status :: MeasurementStatus
  e_aggregation :: AggregationType
  e_sample_count :: Count
  e_confidence :: "double option"
  e_value :: ObjectiveValue

definition is_synthetic :: "EvidenceRecord \<Rightarrow> bool" where
  "is_synthetic e \<longleftrightarrow> e_provenance e = PV_Synthetic \<or> e_provenance e = PV_Estimated"

definition default_evidence :: EvidenceRecord where
  "default_evidence =
     \<lparr> e_id = Id 0, e_gen = Gen 0, e_dimension = Dim_Latency, e_objective_id = Id 0, e_objective_gen = Gen 0,
       e_source = Id 0, e_source_gen = Gen 0, e_epoch = Gen 0, e_time = Duration 0, e_wall_ns = 0,
       e_provenance = PV_Measured, e_status = MS_Complete, e_aggregation = AG_Raw, e_sample_count = Count 1,
       e_confidence = None, e_value = VDuration (Duration 0) \<rparr>"

text \<open>The assignments the typed constructors of \<^verbatim>\<open>evidence.hpp\<close> share.\<close>

definition make_evidence ::
  "Dimension \<Rightarrow> EvidenceId \<Rightarrow> EvidenceGen \<Rightarrow> ObjectiveId \<Rightarrow> ObjectiveGen \<Rightarrow> SourceBootId \<Rightarrow> CoordinatorEpoch
     \<Rightarrow> Duration \<Rightarrow> ObjectiveValue \<Rightarrow> EvidenceRecord" where
  "make_evidence dim i g oid ogen src ep t v =
     default_evidence\<lparr> e_id := i, e_gen := g, e_dimension := dim, e_objective_id := oid,
       e_objective_gen := ogen, e_source := src, e_epoch := ep, e_time := t, e_value := v \<rparr>"

definition make_latency_evidence where
  "make_latency_evidence i g oid ogen src ep t latency =
     make_evidence Dim_Latency i g oid ogen src ep t (VDuration latency)"

definition make_cost_evidence where
  "make_cost_evidence i g oid ogen src ep t cost =
     make_evidence Dim_Cost i g oid ogen src ep t (VCostMicros cost)"

definition make_availability_evidence where
  "make_availability_evidence i g oid ogen src ep t availability =
     make_evidence Dim_Availability i g oid ogen src ep t (VBasisPoints availability)"

definition make_pressure_evidence where
  "make_pressure_evidence i g oid ogen src ep t pressure =
     make_evidence Dim_MemoryPressure i g oid ogen src ep t (VPressureRatio pressure)"

fun rate_of_tag :: "RateTag \<Rightarrow> double \<Rightarrow> ObjectiveValue" where
  "rate_of_tag RT_Requests r = VRequestsPerSecond (Rate r)"
| "rate_of_tag RT_Tokens r = VTokensPerSecond (Rate r)"
| "rate_of_tag RT_Bytes r = VBytesPerSecond (Rate r)"
| "rate_of_tag RT_Operations r = VOperationsPerSecond (Rate r)"

definition make_throughput_evidence where
  "make_throughput_evidence i g oid ogen src ep t rate tag =
     make_evidence Dim_Throughput i g oid ogen src ep t (rate_of_tag tag rate)"

section \<open>Facts\<close>

lemma unit_kind_of_rate [simp]: "unit_kind_of (rate_of_tag tag r) = rate_unit tag"
  by (cases tag) simp_all

lemma can_authorize_iff:
  "can_authorize c now \<longleftrightarrow>
     c_lifecycle c = CL_Active \<and> c_effective_from c \<le> now \<and> (\<forall>e. c_expiration c = Some e \<longrightarrow> now < e)"
  by (auto simp: can_authorize_def is_active_def split: option.splits)

end
