(* ===== verification/Ceilings.thy ===== *)
theory Ceilings
  imports Binary64
begin

text \<open>
  Exact ranks: what \<^verbatim>\<open>std::ceil\<close> of a product of doubles and its conversion to \<^verbatim>\<open>std::size_t\<close> come to, as integers.
\<close>

text \<open>The least integer that is not below the value \<open>dmant y * 2 ^ dexp y\<close> of a double that is not negative.\<close>

definition d_ceiling :: "double \<Rightarrow> int" where
  "d_ceiling y = - ((- (dmant y * pow2 (dexp y))) div pow2 (- dexp y))"

lemma below_div: "0 < d \<Longrightarrow> (a :: int) div d < r \<longleftrightarrow> a < r * d"
proof -
  assume d: "0 < d"
  have a: "a = a div d * d + a mod d" "0 \<le> a mod d" "a mod d < d" using d by simp_all
  show ?thesis
  proof (cases "a div d < r")
    case True
    then have "(a div d + 1) * d \<le> r * d" using d by (intro mult_right_mono) simp_all
    then have "a div d * d + d \<le> r * d" by (simp add: distrib_right)
    then show ?thesis using a True by linarith
  next
    case False
    then have "r * d \<le> a div d * d" using d by (intro mult_right_mono) simp_all
    then show ?thesis using a False by linarith
  qed
qed

lemma d_ceiling_least: "d_ceiling y \<le> r \<longleftrightarrow> dmant y * pow2 (dexp y) \<le> r * pow2 (- dexp y)"
proof -
  have "d_ceiling y \<le> r \<longleftrightarrow> - r \<le> (- (dmant y * pow2 (dexp y))) div pow2 (- dexp y)" by (auto simp: d_ceiling_def)
  also have "\<dots> \<longleftrightarrow> - r * pow2 (- dexp y) \<le> - (dmant y * pow2 (dexp y))"
    using below_div [of "pow2 (- dexp y)"] by (simp add: not_less [symmetric])
  finally show ?thesis by simp
qed

section \<open>Fields of a double\<close>

lemma dmant_bounds: "0 \<le> dmant x" "dmant x < 9007199254740992"
  using pos_mod_bound [of 4503599627370496 "dmag x"] by (auto simp: dmant_def)

lemma dexp_le: "0 < k \<Longrightarrow> dmag x < k * 4503599627370496 + 4503599627370496 \<Longrightarrow> dexp x \<le> k - 1075"
proof -
  assume k: "0 < k" "dmag x < k * 4503599627370496 + 4503599627370496"
  then have "dmag x div 4503599627370496 < k + 1" by (simp add: div_less_iff_less_mult)
  then show ?thesis using k(1) by (simp add: dexp_def)
qed

lemma d_trunc_pos:
  "\<not> dsign x \<Longrightarrow> d_trunc x = (if 0 \<le> dexp x then dmant x * pow2 (dexp x) else dmant x div pow2 (- dexp x))"
  by (simp add: d_trunc_def)

text \<open>An integer of at most 53 bits is converted without loss, in both directions.\<close>

lemma d_of_int_fields:
  assumes "0 < n" "n < 9007199254740992"
  shows "dmant (d_of_int n) = n * pow2 (53 - bit_len n)" "dexp (d_of_int n) = bit_len n - 53" "bit_len n \<le> 53" "1 \<le> bit_len n"
    "\<not> dsign (d_of_int n)" "is_finite (d_of_int n)"
proof -
  have i: "in_i64 n" using assms by (simp add: in_i64_def i64_min_def i64_max_def)
  show b: "bit_len n \<le> 53" "1 \<le> bit_len n" using assms bit_len_le [of n 53] bit_len_pos [of n] by (simp_all add: pow2_53)
  show "\<not> dsign (d_of_int n)" "is_finite (d_of_int n)" using i assms(1) d_of_int_mag(2) by simp_all
  have q: "4503599627370496 \<le> int_quot n" "int_quot n = n * pow2 (53 - bit_len n)"
    using int_quot_bounds [OF assms(1)] b by (simp_all add: int_quot_def)
  have "n * pow2 (53 - bit_len n) < pow2 (bit_len n) * pow2 (53 - bit_len n)" using bit_len_bounds [OF assms(1)] by simp
  also have "\<dots> = 9007199254740992" using b pow2_add [of "bit_len n" "53 - bit_len n"] by (simp add: pow2_53)
  finally have lt: "int_quot n < 9007199254740992" using q(2) by simp
  have mag: "dmag (d_of_int n) = (bit_len n + 1022) * 4503599627370496 + (int_quot n - 4503599627370496)"
    using d_of_int_mag(1) [OF i] round_mag_int [OF assms(1)] round_mag_int_finite [of n] assms by (simp add: min_def split: if_splits)
  moreover define q where "q = int_quot n - 4503599627370496"
  ultimately have mag': "dmag (d_of_int n) = q + (bit_len n + 1022) * 4503599627370496" "0 \<le> q" "q < 4503599627370496"
    using q(1) lt by simp_all
  have m: "dmag (d_of_int n) mod 4503599627370496 = int_quot n - 4503599627370496"
    "dmag (d_of_int n) div 4503599627370496 = bit_len n + 1022"
    unfolding mag'(1) using mag'(2,3)
    by (simp_all only: mod_mult_self1 div_mult_self1 mod_pos_pos_trivial div_pos_pos_trivial) (simp_all add: q_def)
  have "1023 * 4503599627370496 \<le> (bit_len n + 1022) * 4503599627370496" using b by (intro mult_right_mono) simp_all
  then have "4503599627370496 \<le> dmag (d_of_int n)" using mag'(1,2) by simp
  then show "dmant (d_of_int n) = n * pow2 (53 - bit_len n)" using m(1) q(2) by (simp add: dmant_def)
  show "dexp (d_of_int n) = bit_len n - 53" using m(2) b by (simp add: dexp_def)
qed

lemma d_trunc_of_int: "0 < n \<Longrightarrow> n < 9007199254740992 \<Longrightarrow> d_trunc (d_of_int n) = n"
  using d_of_int_fields [of n] less_imp_neq [OF pow2_pos [of "53 - bit_len n"]] by (cases "bit_len n = 53") (simp_all add: d_trunc_pos)

lemma d_to_size_of_int: "0 < n \<Longrightarrow> n < 9007199254740992 \<Longrightarrow> d_to_size (d_of_int n) = n"
  using d_of_int_fields(6) [of n] by (simp add: d_to_size_def d_trunc_of_int)

section \<open>The product of a fraction and a count\<close>

text \<open>A rounded magnitude is at most two binades above the exact one.\<close>

lemma round_mag_coarse:
  assumes "0 < n" "n < pow2 b" "0 \<le> b"
  shows "round_mag n 1 e \<le> (max (- 1074) (b + e - 54) + 1079) * 4503599627370496"
proof -
  define k where "k = round_exp n 1 e"
  have len: "bit_len n \<le> b" "1 \<le> bit_len n" using assms bit_len_le bit_len_pos by simp_all
  have k: "max (- 1074) (bit_len n + e - 54) \<le> k" "k \<le> max (- 1074) (bit_len n + e - 54) + 1"
    by (auto simp: k_def round_exp_def Let_def)
  have "n * pow2 (e - k) \<le> pow2 54 * pow2 (k - e)"
  proof (cases "e \<le> k")
    case True
    have "n \<le> pow2 (bit_len n)" using bit_len_bounds [OF assms(1)] by simp
    also have "\<dots> \<le> pow2 (54 + (k - e))" using k(1) by (intro pow2_mono) simp
    also have "\<dots> = pow2 54 * pow2 (k - e)" using True by (simp add: pow2_add)
    finally show ?thesis using True by simp
  next
    case False
    have "n * pow2 (e - k) \<le> pow2 (bit_len n) * pow2 (e - k)" using bit_len_bounds [OF assms(1)] by simp
    also have "\<dots> = pow2 (bit_len n + (e - k))" using False len by (simp add: pow2_add)
    also have "\<dots> \<le> pow2 54" using k(1) by (intro pow2_mono) simp
    finally show ?thesis using False by simp
  qed
  then have "rne (n * pow2 (e - k)) (pow2 (k - e)) \<le> pow2 54"
    using rne_mono [of "pow2 (k - e)" "n * pow2 (e - k)" "pow2 54 * pow2 (k - e)"] by simp
  then have "round_mag n 1 e \<le> (k + 1074) * 4503599627370496 + 18014398509481984"
    using assms(1) by (simp add: round_mag_def Let_def k_def pow2_def)
  also have "\<dots> \<le> (max (- 1074) (b + e - 54) + 1079) * 4503599627370496" using k(2) len(1) by (simp add: max_def split: if_splits)
  finally show ?thesis .
qed

lemma rne_nonneg: "0 \<le> n \<Longrightarrow> 0 < d \<Longrightarrow> 0 \<le> rne n d"
  by (simp add: rne_def Let_def pos_imp_zdiv_nonneg_iff)

lemma round_mag_range: "0 \<le> n \<Longrightarrow> 0 < d \<Longrightarrow> 0 \<le> round_mag n d e \<and> round_mag n d e \<le> inf_mag"
proof -
  assume n: "0 \<le> n" "0 < d"
  have k: "- 1074 \<le> round_exp n d e" by (auto simp: round_exp_def Let_def max_def)
  have "0 \<le> rne (n * pow2 (e - round_exp n d e)) (d * pow2 (round_exp n d e - e))"
    using n pow2_pos by (intro rne_nonneg) (simp_all add: less_imp_le)
  then show ?thesis using k inf_mag_bounds(1) by (simp add: round_mag_def Let_def less_imp_le)
qed

lemma one_double: "dec 1 1 = d_of_int 1" "dkey (dec 1 1) = 4607182418800017408" "\<not> is_nan (dec 1 1)" "dkey dzero = 0" "\<not> is_nan dzero"
  by code_simp+

lemma product_fields:
  assumes "dlt dzero p" "dle p (dec 1 1)" "0 < n" "n \<le> 4503599627370496"
  defines "y \<equiv> dmul p (d_of_int n)"
  shows "is_finite y" "\<not> dsign y" "dexp y \<le> 6"
proof -
  have n: "n < 9007199254740992" "0 < n" using assms by simp_all
  note int = d_of_int_fields [OF n(2,1)]
  have p: "\<not> is_nan p" "\<not> dsign p" "dmag p \<le> 4607182418800017408"
    using assms(1,2) one_double(2-5) dmag_bounds(1) [of p] not_less [of "dmag p" 0]
    by (simp_all add: dlt_def dle_def dkey_def [of p] split: if_splits)
  then have fin: "\<not> is_inf p" "\<not> is_inf (d_of_int n)" "\<not> is_nan (d_of_int n)"
    using int(6) by (auto simp: is_inf_def inf_mag_def is_finite_def is_nan_def)
  have ex: "dexp p \<le> - 52" "dexp (d_of_int n) \<le> 0" using dexp_le [of 1023 p] p(3) int(2,3) by simp_all
  let ?m = "dmant p * dmant (d_of_int n)" and ?e = "dexp p + dexp (d_of_int n)"
  have y: "y = mk_double False (round_mag ?m 1 ?e)" using p int(5) fin by (simp add: y_def dmul_def)
  have "?m \<le> 9007199254740991 * 9007199254740991"
    using dmant_bounds [of p] dmant_bounds [of "d_of_int n"] by (intro mult_mono) simp_all
  then have "?m < pow2 106" by (simp add: pow2_def)
  then have "0 \<le> round_mag ?m 1 ?e \<and> round_mag ?m 1 ?e \<le> 1079 * 4503599627370496"
    using round_mag_coarse [of ?m 106 ?e] round_mag_range [of ?m 1 ?e] ex dmant_bounds(1) [of p] dmant_bounds(1) [of "d_of_int n"]
    by (cases "?m = 0") (auto simp: max_def less_le split: if_splits)
  then show "is_finite y" "\<not> dsign y" "dexp y \<le> 6"
    using dexp_le [of 1079 y] by (simp_all add: y is_finite_def inf_mag_def)
qed

text \<open>The rank as the code computes it, from the product of the clamped fraction and the count.\<close>

lemma ceil_rank:
  assumes "is_finite y" "\<not> dsign y" "dexp y \<le> 6"
  shows "d_to_size (if dlt (dceil y) (dec 1 1) then dec 1 1 else dceil y) = max 1 (d_ceiling y)"
proof (cases "0 \<le> dexp y")
  case True
  have big: "4503599627370496 * 1075 \<le> dmag y"
    using True pos_mod_sign [of 4503599627370496 "dmag y"] div_mult_mod_eq [of "dmag y" 4503599627370496]
    by (auto simp: dexp_def max_def split: if_splits)
  then have m: "4503599627370496 \<le> dmant y" by (auto simp: dmant_def)
  have "dmant y * pow2 (dexp y) \<le> 9007199254740992 * pow2 6"
    using dmant_bounds [of y] pow2_mono [OF assms(3)] by (intro mult_mono) (simp_all add: less_imp_le)
  moreover have "1 * 1 \<le> dmant y * pow2 (dexp y)" using m by (intro mult_mono) (simp_all add: int_one_le_iff_zero_less)
  moreover have "d_ceiling y = dmant y * pow2 (dexp y)" using True by (simp add: d_ceiling_def)
  moreover have "\<not> dlt y (dec 1 1)" using big assms(2) one_double(2) by (simp add: dlt_def dkey_def [of y])
  ultimately show ?thesis
    using True assms(1,2) by (simp add: dceil_def d_to_size_def d_trunc_pos pow2_def max_def)
next
  case False
  have c: "d_ceiling y \<le> 4503599627370496"
  proof -
    have "dmant y \<le> 4503599627370496 * pow2 1" using dmant_bounds [of y] by (simp add: pow2_def)
    also have "\<dots> \<le> 4503599627370496 * pow2 (- dexp y)" using False by (intro mult_left_mono pow2_mono) simp_all
    finally show ?thesis using False by (simp add: d_ceiling_least)
  qed
  have "\<not> dmant y \<le> - pow2 (- dexp y)" using dmant_bounds(1) [of y] pow2_pos [of "- dexp y"] by linarith
  then have c0: "\<not> d_ceiling y \<le> - 1" using False by (simp add: d_ceiling_least)
  have ceil: "dceil y = (if d_ceiling y = 0 then mk_double False 0 else d_of_int (d_ceiling y))"
    using False assms(1,2) by (simp add: dceil_def d_ceiling_def)
  show ?thesis
  proof (cases "d_ceiling y = 0")
    case True
    have "dlt (mk_double False 0) (dec 1 1)" "d_to_size (dec 1 1) = 1" by code_simp+
    then show ?thesis using True by (simp add: ceil)
  next
    case nz: False
    have "\<not> dlt (d_of_int (d_ceiling y)) (d_of_int 1)" using c c0 nz by (subst d_of_int_order_exact) auto
    then show ?thesis using c c0 nz d_to_size_of_int [of "d_ceiling y"] by (simp add: ceil one_double(1))
  qed
qed

end
