(* ===== verification/Windows.thy ===== *)
theory Windows
  imports Objectives Ceilings
begin

text \<open>
  Sample windows (\<^verbatim>\<open>sample_window.hpp\<close>) and the bounded quantile store (\<^verbatim>\<open>quantile.hpp\<close>): ordered
  ingestion, eviction by age, count and bucket, and the nearest-rank quantile.  The invariant
  \<open>window_inv\<close> says what a window keeps between calls; \<open>window_run\<close> replays a sequence of calls.
\<close>

section \<open>Quantile store\<close>

record QuantileStore =
  qs_capacity :: int
  qs_samples :: "double list"

definition quantile_store :: "int \<Rightarrow> QuantileStore" where
  "quantile_store capacity = \<lparr> qs_capacity = (if capacity = 0 then 1 else capacity), qs_samples = [] \<rparr>"

definition qs_add :: "QuantileStore \<Rightarrow> double \<Rightarrow> bool \<times> QuantileStore" where
  "qs_add q v = (if qs_capacity q \<le> int (length (qs_samples q)) then (False, q)
                 else (True, q\<lparr> qs_samples := qs_samples q @ [v] \<rparr>))"

definition qs_sufficient :: "QuantileStore \<Rightarrow> double \<Rightarrow> bool" where
  "qs_sufficient q p =
     (if qs_samples q = [] then False
      else let rank = dceil (dmul p (d_of_int (int (length (qs_samples q)))))
           in dge rank (dec 1 1) \<and> d_to_size rank \<le> int (length (qs_samples q)))"

text \<open>The index computation that \<^verbatim>\<open>QuantileStore::quantile\<close> and \<^verbatim>\<open>SampleWindow::quantile\<close> share.\<close>

definition nearest_rank_index :: "double \<Rightarrow> int \<Rightarrow> int" where
  "nearest_rank_index p0 n =
     (let p = dclamp p0 dzero (dec 1 1)
      in if dle p dzero then 0
         else let r0 = dceil (dmul p (d_of_int n));
                  rank = (if dlt r0 (dec 1 1) then dec 1 1 else r0);
                  idx = (d_to_size rank - 1) mod 18446744073709551616
              in if n \<le> idx then n - 1 else idx)"

definition nearest_rank :: "double list \<Rightarrow> double \<Rightarrow> double" where
  "nearest_rank xs p =
     (let s = sort_key dkey xs
      in if s = [] then dzero else s ! nat (nearest_rank_index p (int (length s))))"

definition qs_quantile :: "QuantileStore \<Rightarrow> double \<Rightarrow> double" where
  "qs_quantile q p = nearest_rank (qs_samples q) p"

definition qs_sorted :: "QuantileStore \<Rightarrow> double list" where
  "qs_sorted q = sort_key dkey (qs_samples q)"

definition qs_clear :: "QuantileStore \<Rightarrow> QuantileStore" where
  "qs_clear q = q\<lparr> qs_samples := [] \<rparr>"

fun evict_oldest :: "QuantileStore \<Rightarrow> nat \<Rightarrow> QuantileStore" where
  "evict_oldest q 0 = q"
| "evict_oldest q (Suc n) =
     (if qs_samples q = [] then q else evict_oldest (q\<lparr> qs_samples := butlast (qs_samples q) \<rparr>) n)"

section \<open>Sample window\<close>

datatype IngestStatus = IS_Accepted | IS_Duplicate | IS_Rollback | IS_Late | IS_Closed | IS_Invalid

fun ingest_status_name :: "IngestStatus \<Rightarrow> string" where
  "ingest_status_name IS_Accepted = ''accepted''"
| "ingest_status_name IS_Duplicate = ''duplicate''"
| "ingest_status_name IS_Rollback = ''rollback''"
| "ingest_status_name IS_Late = ''late''"
| "ingest_status_name IS_Closed = ''closed''"
| "ingest_status_name IS_Invalid = ''invalid''"

datatype WindowSample = WindowSample (ws_time: Duration) (ws_value: double) (ws_seq: u64)

record SampleWindow =
  sw_type :: WindowType
  sw_interval :: Duration
  sw_capacity :: int
  sw_samples :: "WindowSample list"
  sw_quantile :: QuantileStore
  sw_last_time :: Duration
  sw_last_seq :: u64
  sw_bucket_start :: Duration
  sw_has_bucket :: bool

definition sample_window :: "WindowType \<Rightarrow> Duration \<Rightarrow> int \<Rightarrow> SampleWindow" where
  "sample_window ty d capacity =
     (let cap = (if capacity = 0 then 1 else capacity)
      in \<lparr> sw_type = ty, sw_interval = d, sw_capacity = cap, sw_samples = [],
           sw_quantile = quantile_store cap, sw_last_time = Duration 0, sw_last_seq = 0,
           sw_bucket_start = Duration 0, sw_has_bucket = False \<rparr>)"

definition window_reset :: "SampleWindow \<Rightarrow> SampleWindow" where
  "window_reset w = w\<lparr> sw_samples := [], sw_quantile := qs_clear (sw_quantile w), sw_last_time := Duration 0,
     sw_last_seq := 0, sw_bucket_start := Duration 0, sw_has_bucket := False \<rparr>"

definition window_clear :: "SampleWindow \<Rightarrow> SampleWindow" where
  "window_clear w = w\<lparr> sw_samples := [], sw_quantile := qs_clear (sw_quantile w) \<rparr>"

definition window_push :: "Duration \<Rightarrow> double \<Rightarrow> u64 \<Rightarrow> SampleWindow \<Rightarrow> SampleWindow" where
  "window_push t v s w =
     w\<lparr> sw_samples := sw_samples w @ [WindowSample t v s], sw_quantile := snd (qs_add (sw_quantile w) v) \<rparr>"

definition evict_by_age :: "Duration \<Rightarrow> SampleWindow \<Rightarrow> SampleWindow" where
  "evict_by_age now w =
     (let ns = as_ns (sw_interval w)
      in if ns \<le> 0 then w
         else w\<lparr> sw_samples := dropWhile (\<lambda>x. ns \<le> wrap64 (as_ns now - as_ns (ws_time x))) (sw_samples w) \<rparr>)"

fun evict_excess :: "int \<Rightarrow> 'a list \<Rightarrow> 'a list" where
  "evict_excess cap [] = []"
| "evict_excess cap (x # xs) = (if cap < int (length (x # xs)) then evict_excess cap xs else x # xs)"

definition evict_to_capacity :: "SampleWindow \<Rightarrow> SampleWindow" where
  "evict_to_capacity w = w\<lparr> sw_samples := evict_excess (sw_capacity w) (sw_samples w) \<rparr>"

definition max_sample :: double where
  "max_sample = dec (10 ^ 300) 1"

definition window_ingest :: "SampleWindow \<Rightarrow> Duration \<Rightarrow> double \<Rightarrow> u64 \<Rightarrow> IngestStatus \<times> SampleWindow" where
  "window_ingest w time value seq =
     (if \<not> deq value value \<or> dgt value max_sample then (IS_Invalid, w)
      else if seq \<le> sw_last_seq w then (IS_Duplicate, w)
      else if \<not> sw_has_bucket w then
        (IS_Accepted, window_push time value seq
           (w\<lparr> sw_last_time := time, sw_last_seq := seq, sw_bucket_start := time, sw_has_bucket := True \<rparr>))
      else if time < sw_last_time w then (IS_Rollback, w)
      else let w = w\<lparr> sw_last_seq := seq \<rparr> in
        case sw_type w of
          WT_Instantaneous \<Rightarrow>
            (IS_Accepted, (window_push time value seq (window_clear w))\<lparr> sw_last_time := time \<rparr>)
        | WT_Sliding \<Rightarrow>
            (IS_Accepted,
             (evict_to_capacity (evict_by_age time (window_push time value seq w)))\<lparr> sw_last_time := time \<rparr>)
        | WT_RollingCount \<Rightarrow>
            (IS_Accepted, (evict_to_capacity (window_push time value seq w))\<lparr> sw_last_time := time \<rparr>)
        | _ \<Rightarrow>
            (if as_ns (sw_interval w) \<le> 0 then (IS_Invalid, w)
             else let bucket = as_ns time sdiv as_ns (sw_interval w);
                      start_bucket = as_ns (sw_bucket_start w) sdiv as_ns (sw_interval w)
                  in if bucket < start_bucket then (IS_Late, w\<lparr> sw_last_time := time \<rparr>)
                     else let w = (if start_bucket < bucket
                                   then (window_clear w)\<lparr> sw_bucket_start :=
                                          Duration (wrap64 (bucket * as_ns (sw_interval w))) \<rparr>
                                   else w)
                          in (IS_Accepted, (window_push time value seq w)\<lparr> sw_last_time := time \<rparr>)))"

definition window_size :: "SampleWindow \<Rightarrow> int" where
  "window_size w = int (length (sw_samples w))"

definition window_empty :: "SampleWindow \<Rightarrow> bool" where
  "window_empty w \<longleftrightarrow> sw_samples w = []"

definition sample_values :: "SampleWindow \<Rightarrow> double list" where
  "sample_values w = map ws_value (sw_samples w)"

definition window_sum :: "SampleWindow \<Rightarrow> double" where
  "window_sum w = dsum (sample_values w)"

definition window_mean :: "SampleWindow \<Rightarrow> double" where
  "window_mean w = (if window_empty w then dzero else ddiv (window_sum w) (d_of_int (window_size w)))"

definition window_min :: "SampleWindow \<Rightarrow> double" where
  "window_min w =
     fst (foldl (\<lambda>(m, first) x. if first \<or> dlt x m then (x, False) else (m, first)) (dzero, True) (sample_values w))"

definition window_max :: "SampleWindow \<Rightarrow> double" where
  "window_max w =
     fst (foldl (\<lambda>(m, first) x. if first \<or> dgt x m then (x, False) else (m, first)) (dzero, True) (sample_values w))"

definition last_value :: "SampleWindow \<Rightarrow> double" where
  "last_value w = (if window_empty w then dzero else ws_value (last (sw_samples w)))"

definition window_quantile :: "SampleWindow \<Rightarrow> double \<Rightarrow> double" where
  "window_quantile w p = nearest_rank (sample_values w) p"

definition quantile_sufficient :: "SampleWindow \<Rightarrow> double \<Rightarrow> bool" where
  "quantile_sufficient w p \<longleftrightarrow>
     \<not> window_empty w \<and> dge (dceil (dmul p (d_of_int (window_size w)))) (dec 1 1)"

text \<open>A sequence of calls of \<^verbatim>\<open>ingest\<close>, and the statuses they return.\<close>

fun window_run :: "SampleWindow \<Rightarrow> (Duration \<times> double \<times> u64) list \<Rightarrow> IngestStatus list \<times> SampleWindow" where
  "window_run w [] = ([], w)"
| "window_run w ((t, v, s) # xs) =
     (let (st, w') = window_ingest w t v s; (sts, w'') = window_run w' xs in (st # sts, w''))"

section \<open>Invariant\<close>

definition bucket_of :: "SampleWindow \<Rightarrow> Duration \<Rightarrow> int" where
  "bucket_of w t = as_ns t sdiv as_ns (sw_interval w)"

definition samples_ok :: "Duration \<Rightarrow> u64 \<Rightarrow> WindowSample list \<Rightarrow> bool" where
  "samples_ok lt ls xs \<longleftrightarrow>
     sorted (map ws_time xs) \<and> sorted_wrt (<) (map ws_seq xs) \<and>
     (\<forall>x \<in> set xs. ws_time x \<le> lt \<and> ws_seq x \<le> ls \<and> \<not> is_nan (ws_value x) \<and> dle (ws_value x) max_sample)"

definition bucketed :: "SampleWindow \<Rightarrow> bool" where
  "bucketed w \<longleftrightarrow> sw_type w = WT_Tumbling \<or> sw_type w = WT_FixedInterval"

definition window_inv :: "SampleWindow \<Rightarrow> bool" where
  "window_inv w \<longleftrightarrow>
     1 \<le> sw_capacity w \<and>
     (\<not> sw_has_bucket w \<longrightarrow> sw_samples w = []) \<and>
     samples_ok (sw_last_time w) (sw_last_seq w) (sw_samples w) \<and>
     (sw_type w = WT_Instantaneous \<longrightarrow> length (sw_samples w) \<le> 1) \<and>
     (sw_type w = WT_Sliding \<or> sw_type w = WT_RollingCount \<longrightarrow> window_size w \<le> sw_capacity w) \<and>
     (bucketed w \<and> sw_has_bucket w \<and> 0 < as_ns (sw_interval w) \<longrightarrow>
        bucket_of w (sw_bucket_start w) \<le> bucket_of w (sw_last_time w) \<and>
        (\<forall>x \<in> set (sw_samples w). bucket_of w (ws_time x) = bucket_of w (sw_bucket_start w)))"

section \<open>Facts\<close>

lemmas window_ops =
  window_push_def window_clear_def evict_by_age_def evict_to_capacity_def qs_clear_def

lemma evict_excess_drop: "evict_excess cap xs = drop (length xs - nat cap) xs"
  by (induction xs) (auto simp: Suc_diff_le)

lemma length_evict_excess: "0 \<le> cap \<Longrightarrow> int (length (evict_excess cap xs)) \<le> cap"
  by (simp add: evict_excess_drop)

lemma samples_ok_Nil [simp]: "samples_ok lt ls []"
  by (simp add: samples_ok_def)

lemma samples_ok_mono: "samples_ok lt ls xs \<Longrightarrow> lt \<le> lt' \<Longrightarrow> ls \<le> ls' \<Longrightarrow> samples_ok lt' ls' xs"
  unfolding samples_ok_def by (blast intro: order_trans)

lemma samples_ok_drop: "samples_ok lt ls xs \<Longrightarrow> samples_ok lt ls (drop n xs)"
  by (auto simp: samples_ok_def drop_map [symmetric] sorted_wrt_drop dest: in_set_dropD)

lemma samples_ok_dropWhile: "samples_ok lt ls xs \<Longrightarrow> samples_ok lt ls (dropWhile P xs)"
  by (simp add: dropWhile_eq_drop samples_ok_drop)

lemma samples_ok_evict: "samples_ok lt ls xs \<Longrightarrow> samples_ok lt ls (evict_excess cap xs)"
  by (simp add: evict_excess_drop samples_ok_drop)

lemma samples_ok_snoc:
  assumes "samples_ok lt ls xs" "lt \<le> t" "ls < s" "\<not> is_nan v" "dle v max_sample"
  shows "samples_ok t s (xs @ [WindowSample t v s])"
  using assms unfolding samples_ok_def
  by (auto simp: sorted_append sorted_wrt_append intro: order_trans less_imp_le order_le_less_trans)

text \<open>The validity test at the head of \<^verbatim>\<open>ingest\<close> keeps exactly the numbers up to the bound.\<close>

lemma max_sample_eq [code]: "max_sample = Double 9094988921128908188"
proof -
  have "bit_len (10 ^ 300) = 997" by (rule bit_len_unique) (simp_all add: pow2_def)
  then have "round_exp (10 ^ 300) 1 0 = 944" by (simp add: round_exp_def pow2_def)
  then show ?thesis
    by (simp add: max_sample_def dec_def round_mag_def pow2_def rne_def mk_double_def inf_mag_def)
qed

lemma max_sample_not_nan [simp]: "\<not> is_nan max_sample"
  by (simp add: max_sample_eq is_nan_def dmag_def inf_mag_def)

lemma sample_valid_iff: "\<not> (\<not> deq v v \<or> dgt v max_sample) \<longleftrightarrow> \<not> is_nan v \<and> dle v max_sample"
  by (auto simp: deq_def dlt_def dle_def)

lemma window_inv_new: "0 \<le> capacity \<Longrightarrow> window_inv (sample_window ty d capacity)"
  by (simp add: window_inv_def sample_window_def window_size_def Let_def)

lemma window_inv_reset: "window_inv w \<Longrightarrow> window_inv (window_reset w)"
  by (simp add: window_inv_def window_reset_def window_size_def)

text \<open>
  One lemma per branch of the \<^verbatim>\<open>switch\<close>.  \<open>admissible\<close> collects what the guards before it have established:
  the window is open and the sample is a valid number, newer in sequence and not older in time.
\<close>

definition admissible :: "SampleWindow \<Rightarrow> Duration \<Rightarrow> double \<Rightarrow> u64 \<Rightarrow> bool" where
  "admissible w t v s \<longleftrightarrow>
     sw_has_bucket w \<and> sw_last_time w \<le> t \<and> sw_last_seq w < s \<and> \<not> is_nan v \<and> dle v max_sample"

lemma admissible_samples:
  "window_inv w \<Longrightarrow> admissible w t v s \<Longrightarrow> samples_ok t s (sw_samples w @ [WindowSample t v s])"
  by (auto simp: window_inv_def admissible_def intro: samples_ok_snoc)

lemma admissible_single: "admissible w t v s \<Longrightarrow> samples_ok t s [WindowSample t v s]"
  by (simp add: admissible_def samples_ok_def)

lemma first_sample_inv:
  assumes "window_inv w" "\<not> sw_has_bucket w" "\<not> is_nan v" "dle v max_sample"
  shows "window_inv (window_push t v s
           (w\<lparr> sw_last_time := t, sw_last_seq := s, sw_bucket_start := t, sw_has_bucket := True \<rparr>))"
  using assms by (simp add: window_inv_def window_push_def samples_ok_def window_size_def bucket_of_def bucketed_def)

lemma instantaneous_inv:
  assumes "window_inv w" "admissible w t v s" "sw_type w = WT_Instantaneous"
  shows "window_inv ((window_push t v s (window_clear (w\<lparr> sw_last_seq := s \<rparr>)))\<lparr> sw_last_time := t \<rparr>)"
  using assms admissible_single [OF assms(2)]
  by (simp add: window_inv_def window_ops window_size_def bucketed_def admissible_def)

lemma sliding_inv:
  assumes "window_inv w" "admissible w t v s" "sw_type w = WT_Sliding"
  shows "window_inv ((evict_to_capacity (evict_by_age t (window_push t v s (w\<lparr> sw_last_seq := s \<rparr>))))\<lparr> sw_last_time := t \<rparr>)"
  using assms admissible_samples [OF assms(1,2)]
  by (simp add: window_inv_def window_ops window_size_def bucketed_def admissible_def Let_def
      length_evict_excess samples_ok_evict samples_ok_dropWhile)

lemma rolling_inv:
  assumes "window_inv w" "admissible w t v s" "sw_type w = WT_RollingCount"
  shows "window_inv ((evict_to_capacity (window_push t v s (w\<lparr> sw_last_seq := s \<rparr>)))\<lparr> sw_last_time := t \<rparr>)"
  using assms admissible_samples [OF assms(1,2)]
  by (simp add: window_inv_def window_ops window_size_def bucketed_def admissible_def
      length_evict_excess samples_ok_evict)

lemma same_bucket_inv:
  assumes "window_inv w" "admissible w t v s" "bucketed w"
    "bucket_of w t = bucket_of w (sw_bucket_start w)"
  shows "window_inv ((window_push t v s (w\<lparr> sw_last_seq := s \<rparr>))\<lparr> sw_last_time := t \<rparr>)"
  using assms admissible_samples [OF assms(1,2)]
  by (auto simp: window_inv_def window_ops window_size_def bucketed_def admissible_def bucket_of_def)

lemma new_bucket_start:
  assumes "in_i64 (as_ns t)" "0 < as_ns (sw_interval w)"
  shows "wrap64 (bucket_of w t * as_ns (sw_interval w)) sdiv as_ns (sw_interval w) = bucket_of w t"
  using assms by (simp add: bucket_of_def wrap64_id sdiv_mult_in_i64 sdiv_mult_exact)

lemma new_bucket_inv:
  assumes "window_inv w" "admissible w t v s" "bucketed w" "in_i64 (as_ns t)" "0 < as_ns (sw_interval w)"
  shows "window_inv ((window_push t v s ((window_clear (w\<lparr> sw_last_seq := s \<rparr>))
           \<lparr> sw_bucket_start := Duration (wrap64 (bucket_of w t * as_ns (sw_interval w))) \<rparr>))\<lparr> sw_last_time := t \<rparr>)"
  using assms admissible_single [OF assms(2)] new_bucket_start [OF assms(4,5)]
  by (auto simp: window_inv_def window_ops window_size_def bucketed_def admissible_def bucket_of_def)

lemma rejected_seq_inv: "window_inv w \<Longrightarrow> sw_last_seq w < s \<Longrightarrow> window_inv (w\<lparr> sw_last_seq := s \<rparr>)"
  by (auto simp: window_inv_def window_size_def bucketed_def bucket_of_def
      intro: samples_ok_mono less_imp_le)

text \<open>A bucketed window never sees a bucket before its own: the time test has already refused it.\<close>

lemma bucket_not_late:
  assumes "window_inv w" "admissible w t v s" "bucketed w" "0 < as_ns (sw_interval w)"
  shows "bucket_of w (sw_bucket_start w) \<le> bucket_of w t"
proof -
  have "bucket_of w (sw_last_time w) \<le> bucket_of w t"
    using assms(2,4) by (auto simp: bucket_of_def admissible_def less_eq_Duration_def intro: sdiv_mono)
  moreover have "bucket_of w (sw_bucket_start w) \<le> bucket_of w (sw_last_time w)"
    using assms by (simp add: window_inv_def admissible_def)
  ultimately show ?thesis by simp
qed

lemmas ingest_branch_inv =
  first_sample_inv instantaneous_inv sliding_inv rolling_inv same_bucket_inv new_bucket_inv rejected_seq_inv

lemma window_ingest_cases:
  assumes "window_inv w"
  obtains (invalid) "is_nan v \<or> \<not> dle v max_sample" "window_ingest w t v s = (IS_Invalid, w)"
  | (duplicate) "s \<le> sw_last_seq w" "window_ingest w t v s = (IS_Duplicate, w)"
  | (first) "\<not> sw_has_bucket w" "\<not> is_nan v" "dle v max_sample" "sw_last_seq w < s"
      "window_ingest w t v s = (IS_Accepted, window_push t v s
         (w\<lparr> sw_last_time := t, sw_last_seq := s, sw_bucket_start := t, sw_has_bucket := True \<rparr>))"
  | (rollback) "sw_has_bucket w" "t < sw_last_time w" "window_ingest w t v s = (IS_Rollback, w)"
  | (inst) "admissible w t v s" "sw_type w = WT_Instantaneous"
      "window_ingest w t v s =
         (IS_Accepted, (window_push t v s (window_clear (w\<lparr> sw_last_seq := s \<rparr>)))\<lparr> sw_last_time := t \<rparr>)"
  | (sliding) "admissible w t v s" "sw_type w = WT_Sliding"
      "window_ingest w t v s =
         (IS_Accepted, (evict_to_capacity (evict_by_age t (window_push t v s (w\<lparr> sw_last_seq := s \<rparr>))))\<lparr> sw_last_time := t \<rparr>)"
  | (rolling) "admissible w t v s" "sw_type w = WT_RollingCount"
      "window_ingest w t v s =
         (IS_Accepted, (evict_to_capacity (window_push t v s (w\<lparr> sw_last_seq := s \<rparr>)))\<lparr> sw_last_time := t \<rparr>)"
  | (no_interval) "admissible w t v s" "bucketed w" "as_ns (sw_interval w) \<le> 0"
      "window_ingest w t v s = (IS_Invalid, w\<lparr> sw_last_seq := s \<rparr>)"
  | (same) "admissible w t v s" "bucketed w" "0 < as_ns (sw_interval w)"
      "bucket_of w t = bucket_of w (sw_bucket_start w)"
      "window_ingest w t v s =
         (IS_Accepted, (window_push t v s (w\<lparr> sw_last_seq := s \<rparr>))\<lparr> sw_last_time := t \<rparr>)"
  | (new) "admissible w t v s" "bucketed w" "0 < as_ns (sw_interval w)"
      "bucket_of w (sw_bucket_start w) < bucket_of w t"
      "window_ingest w t v s =
         (IS_Accepted, (window_push t v s ((window_clear (w\<lparr> sw_last_seq := s \<rparr>))
            \<lparr> sw_bucket_start := Duration (wrap64 (bucket_of w t * as_ns (sw_interval w))) \<rparr>))\<lparr> sw_last_time := t \<rparr>)"
proof (cases "is_nan v \<or> \<not> dle v max_sample")
  case True
  then have "\<not> deq v v \<or> dgt v max_sample" using sample_valid_iff by blast
  with True show ?thesis by (intro invalid) (simp_all add: window_ingest_def)
next
  case valid: False
  then have ok: "\<not> (\<not> deq v v \<or> dgt v max_sample)" using sample_valid_iff by blast
  consider "s \<le> sw_last_seq w" | "sw_last_seq w < s" "\<not> sw_has_bucket w"
    | "sw_last_seq w < s" "sw_has_bucket w" "t < sw_last_time w"
    | "sw_last_seq w < s" "sw_has_bucket w" "sw_last_time w \<le> t"
    by fastforce
  then show ?thesis
  proof cases
    case 1
    then show ?thesis using ok by (intro duplicate) (simp_all add: window_ingest_def)
  next
    case 2
    then show ?thesis using ok valid by (intro first) (simp_all add: window_ingest_def)
  next
    case 3
    then show ?thesis using ok by (intro rollback) (simp_all add: window_ingest_def)
  next
    case 4
    with valid have adm: "admissible w t v s" by (simp add: admissible_def)
    from 4 have newer: "\<not> s \<le> sw_last_seq w" "\<not> t < sw_last_time w" by simp_all
    have step: "window_ingest w t v s = (let w = w\<lparr> sw_last_seq := s \<rparr> in
        case sw_type w of
          WT_Instantaneous \<Rightarrow> (IS_Accepted, (window_push t v s (window_clear w))\<lparr> sw_last_time := t \<rparr>)
        | WT_Sliding \<Rightarrow>
            (IS_Accepted, (evict_to_capacity (evict_by_age t (window_push t v s w)))\<lparr> sw_last_time := t \<rparr>)
        | WT_RollingCount \<Rightarrow> (IS_Accepted, (evict_to_capacity (window_push t v s w))\<lparr> sw_last_time := t \<rparr>)
        | _ \<Rightarrow>
            (if as_ns (sw_interval w) \<le> 0 then (IS_Invalid, w)
             else if bucket_of w t < bucket_of w (sw_bucket_start w) then (IS_Late, w\<lparr> sw_last_time := t \<rparr>)
             else let w = (if bucket_of w (sw_bucket_start w) < bucket_of w t
                           then (window_clear w)\<lparr> sw_bucket_start :=
                                  Duration (wrap64 (bucket_of w t * as_ns (sw_interval w))) \<rparr>
                           else w)
                  in (IS_Accepted, (window_push t v s w)\<lparr> sw_last_time := t \<rparr>)))"
      using ok by (simp add: window_ingest_def newer 4(2) bucket_of_def Let_def split: WindowType.split)
    note late = bucket_not_late [OF assms adm]
    show ?thesis
    proof (cases "bucketed w")
      case True
      with step late adm show ?thesis
        using no_interval same new
        by (cases "as_ns (sw_interval w) \<le> 0"; cases "bucket_of w (sw_bucket_start w) < bucket_of w t")
           (auto simp: bucketed_def bucket_of_def)
    next
      case False
      with step adm show ?thesis
        using inst sliding rolling by (cases "sw_type w") (auto simp: bucketed_def)
    qed
  qed
qed

lemma window_ingest_inv:
  assumes "window_inv w" "in_i64 (as_ns t)"
  shows "window_inv (snd (window_ingest w t v s))"
  using assms(1)
proof (cases rule: window_ingest_cases [where w = w and v = v and t = t and s = s])
  case no_interval
  with assms show ?thesis by (simp add: rejected_seq_inv admissible_def)
qed (use assms in \<open>simp_all add: ingest_branch_inv\<close>)

lemma window_ingest_not_late: "window_inv w \<Longrightarrow> fst (window_ingest w t v s) \<noteq> IS_Late"
  by (cases rule: window_ingest_cases [where w = w and v = v and t = t and s = s]) simp_all

lemma sample_window_fields [simp]:
  "sw_samples (sample_window ty d cap) = []" "sw_has_bucket (sample_window ty d cap) = False"
  "sw_type (sample_window ty d cap) = ty" "sw_interval (sample_window ty d cap) = d"
  "sw_last_seq (sample_window ty d cap) = 0"
  by (simp_all add: sample_window_def Let_def)

lemma window_run_Cons:
  "window_run w ((t, v, s) # cs) =
     (fst (window_ingest w t v s) # fst (window_run (snd (window_ingest w t v s)) cs),
      snd (window_run (snd (window_ingest w t v s)) cs))"
  by (simp add: split_beta Let_def)

text \<open>The type, interval and capacity of a window are fixed at construction.\<close>

lemma window_ingest_config:
  "sw_type (snd (window_ingest w t v s)) = sw_type w \<and> sw_interval (snd (window_ingest w t v s)) = sw_interval w \<and>
   sw_capacity (snd (window_ingest w t v s)) = sw_capacity w"
  by (simp add: window_ingest_def window_ops Let_def split: WindowType.split)

lemma window_run_config:
  "sw_type (snd (window_run w cs)) = sw_type w \<and> sw_interval (snd (window_run w cs)) = sw_interval w \<and>
   sw_capacity (snd (window_run w cs)) = sw_capacity w"
proof (induction cs arbitrary: w)
  case (Cons c cs)
  then show ?case by (cases c) (simp add: window_run_Cons window_ingest_config del: window_run.simps)
qed simp

lemma window_run_inv:
  "window_inv w \<Longrightarrow> \<forall>(t, v, s) \<in> set cs. in_i64 (as_ns t) \<Longrightarrow> window_inv (snd (window_run w cs))"
proof (induction cs arbitrary: w)
  case (Cons c cs)
  then show ?case by (cases c) (simp add: window_run_Cons window_ingest_inv del: window_run.simps)
qed simp

lemma window_run_not_late:
  "window_inv w \<Longrightarrow> \<forall>(t, v, s) \<in> set cs. in_i64 (as_ns t) \<Longrightarrow> IS_Late \<notin> set (fst (window_run w cs))"
proof (induction cs arbitrary: w)
  case (Cons c cs)
  then show ?case
    by (cases c) (simp add: window_run_Cons window_ingest_inv window_ingest_not_late [THEN not_sym] del: window_run.simps)
qed simp

subsection \<open>Aggregates\<close>

lemma values_not_nan: "window_inv w \<Longrightarrow> x \<in> set (sample_values w) \<Longrightarrow> \<not> is_nan x"
  by (auto simp: window_inv_def samples_ok_def sample_values_def)

text \<open>The running extremum of a fold that starts empty, for a strict order on the listed elements.\<close>

definition extremum :: "(double \<Rightarrow> double \<Rightarrow> bool) \<Rightarrow> double list \<Rightarrow> double \<times> bool" where
  "extremum lt xs = foldl (\<lambda>(m, first) x. if first \<or> lt x m then (x, False) else (m, first)) (dzero, True) xs"

lemma extremum_snoc:
  "extremum lt (xs @ [x]) =
     (if snd (extremum lt xs) \<or> lt x (fst (extremum lt xs)) then (x, False) else extremum lt xs)"
  by (cases "extremum lt xs") (simp add: extremum_def)

lemma extremum_first: "snd (extremum lt xs) \<longleftrightarrow> xs = []"
  by (induction xs rule: rev_induct) (auto simp: extremum_snoc, simp_all add: extremum_def)

lemma window_min_extremum: "window_min w = fst (extremum dlt (sample_values w))"
  by (simp add: window_min_def extremum_def)

lemma window_max_extremum: "window_max w = fst (extremum dgt (sample_values w))"
  by (simp add: window_max_def extremum_def)

lemma extremum_dlt:
  "xs \<noteq> [] \<Longrightarrow> \<forall>x \<in> set xs. \<not> is_nan x \<Longrightarrow>
     fst (extremum dlt xs) \<in> set xs \<and> (\<forall>x \<in> set xs. dle (fst (extremum dlt xs)) x)"
proof (induction xs rule: rev_induct)
  case (snoc x xs)
  then show ?case
    by (cases "xs = []") (auto simp: extremum_snoc extremum_first not_dlt dlt_imp_dle intro: dle_trans dlt_imp_dle,
        simp_all add: extremum_def)
qed simp

lemma extremum_dgt:
  "xs \<noteq> [] \<Longrightarrow> \<forall>x \<in> set xs. \<not> is_nan x \<Longrightarrow>
     fst (extremum dgt xs) \<in> set xs \<and> (\<forall>x \<in> set xs. dle x (fst (extremum dgt xs)))"
proof (induction xs rule: rev_induct)
  case (snoc x xs)
  then show ?case
    by (cases "xs = []") (auto simp: extremum_snoc extremum_first not_dlt dlt_imp_dle intro: dle_trans dlt_imp_dle,
        simp_all add: extremum_def)
qed simp

lemma nearest_rank_index_bounds:
  "1 \<le> n \<Longrightarrow> 0 \<le> nearest_rank_index p n \<and> nearest_rank_index p n < n"
  by (simp add: nearest_rank_index_def Let_def)

text \<open>The index is that of the nearest rank: the least whole number not below the product of the clamped fraction and the count.\<close>

lemma clamped: "\<not> is_nan p \<Longrightarrow> dle (dclamp p dzero (dec 1 1)) (dec 1 1)"
  using one_double(2-5) by (auto simp: dclamp_def dle_def dlt_def)

lemma nearest_rank_index_exact:
  assumes "1 \<le> n" "n \<le> 4503599627370496" "\<not> is_nan p"
  shows "nearest_rank_index p n =
    (if dle p dzero then 0
     else min (n - 1) (max 1 (d_ceiling (dmul (dclamp p dzero (dec 1 1)) (d_of_int n))) - 1))"
proof -
  let ?c = "dclamp p dzero (dec 1 1)"
  have low: "dle ?c dzero \<longleftrightarrow> dle p dzero" using one_double(2-5) by (auto simp: dclamp_def dle_def dlt_def)
  show ?thesis
  proof (cases "dle p dzero")
    case True
    then show ?thesis using low by (simp add: nearest_rank_index_def)
  next
    case False
    have "dlt dzero ?c" using False one_double(2-5) assms(3) by (auto simp: dclamp_def dle_def dlt_def)
    note y = product_fields [OF this clamped [OF assms(3)] _ assms(2)]
    define d where "d = d_ceiling (dmul ?c (d_of_int n))"
    have idx: "d_to_size (if dlt (dceil (dmul ?c (d_of_int n))) (dec 1 1) then dec 1 1 else dceil (dmul ?c (d_of_int n))) = max 1 d"
      unfolding d_def using y assms(1) by (intro ceil_rank) simp_all
    have "max 1 d < 18446744073709551616"
      using idx by (simp add: d_to_size_def split: if_splits)
    then show ?thesis
      using idx False low assms(1) by (simp add: nearest_rank_index_def Let_def d_def [symmetric] mod_pos_pos_trivial min_def)
  qed
qed

text \<open>The element at a position of a sorted list splits it: everything before is no larger, everything after no smaller.\<close>

lemma sorted_rank:
  fixes f :: "'a \<Rightarrow> int"
  assumes "sorted (map f xs)" "k < length xs"
  shows "k < length (filter (\<lambda>x. f x \<le> f (xs ! k)) xs)" "length (filter (\<lambda>x. f x < f (xs ! k)) xs) \<le> k"
proof -
  have split: "xs = take (Suc k) xs @ drop (Suc k) xs" "xs = take k xs @ drop k xs" by simp_all
  have low: "f x \<le> f (xs ! k)" if "x \<in> set (take (Suc k) xs)" for x
    using that assms sorted_iff_nth_mono [of "map f xs"] by (auto simp: in_set_conv_nth)
  have high: "f (xs ! k) \<le> f x" if x: "x \<in> set (drop k xs)" for x
  proof -
    obtain j where "x = xs ! (k + j)" "k + j < length xs" using x by (auto simp: in_set_conv_nth)
    then show ?thesis using assms sorted_iff_nth_mono [of "map f xs"] by simp
  qed
  have "filter (\<lambda>x. f x \<le> f (xs ! k)) (take (Suc k) xs) = take (Suc k) xs" using low by simp
  then show "k < length (filter (\<lambda>x. f x \<le> f (xs ! k)) xs)"
    using assms(2) by (subst split(1)) (simp add: min_def del: append_take_drop_id)
  have "filter (\<lambda>x. f x < f (xs ! k)) (drop k xs) = []" using high by (force simp: filter_empty_conv)
  then show "length (filter (\<lambda>x. f x < f (xs ! k)) xs) \<le> k"
    by (subst split(2)) (auto simp del: append_take_drop_id intro: le_trans [OF length_filter_le])
qed

lemma length_filter_sort_key: "length (filter P (sort_key f xs)) = length (filter P xs)"
  by (metis length_sort sort_key_simps(1) filter_sort)

lemma nearest_rank_statistic:
  fixes p :: double
  assumes "xs \<noteq> []" "\<forall>x \<in> set xs. \<not> is_nan x"
  defines "q \<equiv> nearest_rank xs p" and "k \<equiv> nearest_rank_index p (int (length xs))"
  shows "q \<in> set xs" "k < int (length (filter (\<lambda>x. dle x q) xs))" "int (length (filter (\<lambda>x. dlt x q) xs)) \<le> k"
proof -
  define ys where "ys = sort_key dkey xs"
  have k: "0 \<le> k" "nat k < length ys"
    using nearest_rank_index_bounds [of "int (length xs)" p] assms(1)
    by (auto simp: k_def ys_def Suc_le_eq)
  have "ys \<noteq> []" using k by auto
  then have q: "q = ys ! nat k" by (simp add: q_def nearest_rank_def Let_def ys_def k_def)
  then show qin: "q \<in> set xs" using k by (metis nth_mem set_sort ys_def)
  have "sorted (map dkey ys)" by (simp add: ys_def)
  note rank = sorted_rank [OF this k(2)]
  have le: "filter (\<lambda>x. dle x q) xs = filter (\<lambda>x. dkey x \<le> dkey q) xs"
    "filter (\<lambda>x. dlt x q) xs = filter (\<lambda>x. dkey x < dkey q) xs"
    using assms(2) qin by (auto intro!: filter_cong simp: dle_def dlt_def)
  show "k < int (length (filter (\<lambda>x. dle x q) xs))" "int (length (filter (\<lambda>x. dlt x q) xs)) \<le> k"
    using rank [unfolded ys_def length_filter_sort_key, folded ys_def, folded q] k(1) unfolding le by simp_all
qed

subsection \<open>What a window holds, from the history of accepted samples\<close>

text \<open>
  The specification of the evicting windows: keep the samples of the history that are young enough at the
  time of the last accepted sample, and of those the last \<open>cap\<close>.
\<close>

definition accepted :: "(Duration \<times> double \<times> u64) list \<Rightarrow> IngestStatus list \<Rightarrow> WindowSample list" where
  "accepted cs sts = map (\<lambda>((t, v, s), _). WindowSample t v s) (filter (\<lambda>(_, st). st = IS_Accepted) (zip cs sts))"

definition young :: "Duration \<Rightarrow> Duration \<Rightarrow> WindowSample \<Rightarrow> bool" where
  "young d now x \<longleftrightarrow> as_ns now - as_ns (ws_time x) < as_ns d"

definition sliding_spec :: "Duration \<Rightarrow> int \<Rightarrow> Duration \<Rightarrow> WindowSample list \<Rightarrow> WindowSample list" where
  "sliding_spec d cap now hist = evict_excess cap (filter (young d now) hist)"

definition sliding_sim :: "WindowSample list \<Rightarrow> SampleWindow \<Rightarrow> bool" where
  "sliding_sim hist w \<longleftrightarrow>
     sw_type w = WT_Sliding \<and> 0 < as_ns (sw_interval w) \<and>
     (hist = [] \<longleftrightarrow> \<not> sw_has_bucket w) \<and> sorted (map ws_time hist) \<and>
     (\<forall>x \<in> set hist. 0 \<le> as_ns (ws_time x) \<and> ws_time x \<le> sw_last_time w) \<and>
     sw_samples w = sliding_spec (sw_interval w) (sw_capacity w) (sw_last_time w) hist"

lemma evict_excess_suffix: "\<exists>ys. xs = ys @ evict_excess cap xs \<and> (ys \<noteq> [] \<longrightarrow> int (length (evict_excess cap xs)) = max 0 cap)"
proof (cases "int (length xs) \<le> cap")
  case True
  then show ?thesis by (intro exI [of _ "[]"]) (simp add: evict_excess_drop)
next
  case False
  then show ?thesis
    by (intro exI [of _ "take (length xs - nat cap) xs"]) (auto simp: evict_excess_drop)
qed

lemma evict_excess_append: "cap \<le> int (length ys) \<Longrightarrow> evict_excess cap (xs @ ys) = evict_excess cap ys"
  by (simp add: evict_excess_drop)

lemma dropWhile_sorted_filter:
  assumes "sorted (map f xs)" "\<And>a b. f a \<le> f b \<Longrightarrow> P a \<Longrightarrow> P b"
  shows "dropWhile (\<lambda>x. \<not> P x) xs = filter P xs"
  using assms(1)
proof (induction xs)
  case (Cons x xs)
  then have "P x \<Longrightarrow> \<forall>y \<in> set xs. P y" using assms(2) by auto
  with Cons show ?case by (auto simp: filter_id_conv)
qed simp

lemma young_mono: "ws_time a \<le> ws_time b \<Longrightarrow> young d now a \<Longrightarrow> young d now b"
  by (simp add: young_def less_eq_Duration_def)

lemma young_later: "now \<le> now' \<Longrightarrow> young d now' a \<Longrightarrow> young d now a"
  by (simp add: young_def less_eq_Duration_def)

text \<open>Forgetting samples that were already dropped does not change what the next step keeps.\<close>

lemma sliding_spec_step:
  assumes sorted: "sorted (map ws_time hist)" and "now \<le> t" "0 < as_ns d"
  shows "sliding_spec d cap t (sliding_spec d cap now hist @ [WindowSample t v s]) =
         sliding_spec d cap t (hist @ [WindowSample t v s])"
proof -
  define A where "A = filter (young d now) hist"
  obtain B where B: "A = B @ evict_excess cap A"
    and full: "B \<noteq> [] \<longrightarrow> int (length (evict_excess cap A)) = max 0 cap" using evict_excess_suffix by blast
  let ?S = "evict_excess cap A" and ?P = "young d t"
  have "filter ?P hist = filter ?P A" using assms(2) by (auto simp: A_def young_later intro!: filter_cong)
  also have "\<dots> = filter ?P B @ filter ?P ?S" by (subst B) simp
  finally have hist: "filter ?P hist = filter ?P B @ filter ?P ?S" .
  have x: "?P (WindowSample t v s)" using assms(3) by (simp add: young_def)
  have "sorted (map ws_time A)" using sorted by (simp add: A_def sorted_filter)
  then have older: "ws_time a \<le> ws_time b" if "a \<in> set B" "b \<in> set ?S" for a b
    using that by (subst (asm) B) (auto simp: sorted_append)
  have "evict_excess cap (filter ?P B @ filter ?P ?S @ [WindowSample t v s]) =
        evict_excess cap (filter ?P ?S @ [WindowSample t v s])"
  proof (cases "filter ?P B = []")
    case False
    then obtain a where a: "a \<in> set B" "?P a" by (auto simp: filter_empty_conv)
    then have "filter ?P ?S = ?S" using older young_mono by (metis filter_True)
    moreover have "int (length ?S) = max 0 cap" using full a by auto
    ultimately show ?thesis by (simp add: evict_excess_append)
  qed simp
  then show ?thesis using x by (simp add: sliding_spec_def A_def [symmetric] hist)
qed

lemma sliding_sim_new: "0 < as_ns d \<Longrightarrow> sliding_sim [] (sample_window WT_Sliding d cap)"
  by (simp add: sliding_sim_def sliding_spec_def)

lemma sliding_sim_ingest:
  assumes sim: "sliding_sim hist w" and inv: "window_inv w" and t: "0 \<le> as_ns t" "in_i64 (as_ns t)"
  shows "sliding_sim (hist @ (if fst (window_ingest w t v s) = IS_Accepted then [WindowSample t v s] else []))
           (snd (window_ingest w t v s))"
  using inv
proof (cases rule: window_ingest_cases [where w = w and v = v and t = t and s = s])
  case first
  with sim have "hist = []" by (simp add: sliding_sim_def)
  moreover have "evict_excess (sw_capacity w) [WindowSample t v s] = [WindowSample t v s]"
    using inv by (simp add: window_inv_def)
  moreover have "sw_samples w = []" using inv first by (simp add: window_inv_def)
  ultimately show ?thesis
    using first sim t by (simp add: sliding_sim_def sliding_spec_def window_push_def young_def)
next
  case sliding
  let ?x = "WindowSample t v s"
  from sim sliding have S: "sorted (map ws_time hist)" "sw_last_time w \<le> t" "0 < as_ns (sw_interval w)"
    "sw_samples w = sliding_spec (sw_interval w) (sw_capacity w) (sw_last_time w) hist"
    "\<forall>y \<in> set hist. 0 \<le> as_ns (ws_time y) \<and> ws_time y \<le> sw_last_time w" "sw_has_bucket w"
    by (auto simp: sliding_sim_def admissible_def)
  have sub: "set (sw_samples w) \<subseteq> set hist"
    using S(4) by (auto simp: sliding_spec_def evict_excess_drop dest: in_set_dropD)
  have age: "as_ns (sw_interval w) \<le> wrap64 (as_ns t - as_ns (ws_time y)) \<longleftrightarrow> \<not> young (sw_interval w) t y"
    if "y \<in> set (sw_samples w @ [?x])" for y
  proof -
    have "0 \<le> as_ns (ws_time y)" "as_ns (ws_time y) \<le> as_ns t"
      using that sub S(2,5) t(1) by (auto simp: less_eq_Duration_def intro: order_trans)
    then have "in_i64 (as_ns t - as_ns (ws_time y))" using t by (auto simp: in_i64_def i64_min_def)
    then show ?thesis by (auto simp: wrap64_id young_def)
  qed
  have "sorted (map ws_time (sw_samples w @ [?x]))"
    using admissible_samples [OF inv sliding(1)] by (simp add: samples_ok_def)
  then have "dropWhile (\<lambda>y. \<not> young (sw_interval w) t y) (sw_samples w @ [?x]) =
      filter (young (sw_interval w) t) (sw_samples w @ [?x])"
    by (rule dropWhile_sorted_filter) (rule young_mono)
  then have "dropWhile (\<lambda>y. as_ns (sw_interval w) \<le> wrap64 (as_ns t - as_ns (ws_time y))) (sw_samples w @ [?x]) =
      filter (young (sw_interval w) t) (sw_samples w @ [?x])"
    by (subst dropWhile_cong [OF refl age]) simp_all
  then have "sw_samples (snd (window_ingest w t v s)) =
      sliding_spec (sw_interval w) (sw_capacity w) t (sw_samples w @ [?x])"
    using sliding S(3) by (simp add: window_ops sliding_spec_def Let_def)
  also have "\<dots> = sliding_spec (sw_interval w) (sw_capacity w) t (hist @ [?x])"
    unfolding S(4) using S(1-3) by (rule sliding_spec_step)
  finally have "sw_samples (snd (window_ingest w t v s)) =
      sliding_spec (sw_interval w) (sw_capacity w) t (hist @ [?x])" .
  moreover have "sorted (map ws_time (hist @ [?x]))" using S(1,2,5) by (auto simp: sorted_append)
  moreover have "\<forall>y \<in> set (hist @ [?x]). 0 \<le> as_ns (ws_time y) \<and> ws_time y \<le> t" using S(2,5) t(1) by auto
  ultimately show ?thesis using sliding S(3,6) by (simp add: sliding_sim_def window_ops Let_def)
qed (use sim in \<open>simp_all add: sliding_sim_def bucketed_def\<close>)

lemma sliding_sim_run:
  "sliding_sim hist w \<Longrightarrow> window_inv w \<Longrightarrow> \<forall>(t, v, s) \<in> set cs. 0 \<le> as_ns t \<and> in_i64 (as_ns t) \<Longrightarrow>
     sliding_sim (hist @ accepted cs (fst (window_run w cs))) (snd (window_run w cs))"
proof (induction cs arbitrary: hist w)
  case (Cons c cs)
  obtain t v s where c: "c = (t, v, s)" by (cases c)
  with Cons.prems have t: "0 \<le> as_ns t" "in_i64 (as_ns t)" by auto
  note step = sliding_sim_ingest [OF Cons.prems(1,2) t, of v s]
  have "window_inv (snd (window_ingest w t v s))" using Cons.prems(2) t(2) by (rule window_ingest_inv)
  from Cons.IH [OF step this] Cons.prems(3) show ?case
    by (simp add: c window_run_Cons accepted_def del: window_run.simps split: if_splits)
qed (simp add: accepted_def)

section \<open>Properties\<close>

text \<open>
  Property C32.  Whatever sequence of samples is offered to a new window of any type, the window it ends in
  satisfies \<open>window_inv\<close>: at least one slot of capacity, samples in time order with strictly increasing sequence
  numbers, no NaN and nothing above the bound, at most one sample in an instantaneous window, at most \<open>capacity\<close>
  samples in a sliding or rolling window, and all samples of a bucketed window in the current bucket.  No call
  returns \<^verbatim>\<open>Late\<close>.
\<close>

theorem window_history_sound:
  assumes "0 \<le> capacity" "\<forall>(t, v, s) \<in> set cs. in_i64 (as_ns t)"
  shows "window_inv (snd (window_run (sample_window ty d capacity) cs)) \<and>
         IS_Late \<notin> set (fst (window_run (sample_window ty d capacity) cs))"
  using window_run_inv [OF window_inv_new] window_run_not_late [OF window_inv_new] assms by blast

theorem window_history_sound_witness:
  "window_inv (snd (window_run (sample_window WT_Tumbling (Duration 10) 4)
      [(Duration 3, Double 0, 1), (Duration 8, Double 1, 2), (Duration 25, Double 2, 3)]))"
  using window_history_sound [of 4 "[(Duration 3, Double 0, 1), (Duration 8, Double 1, 2), (Duration 25, Double 2, 3)]"
      WT_Tumbling "Duration 10"]
  by (simp add: in_i64_def i64_min_def i64_max_def)

text \<open>
  Property C33.  A sliding window refines its specification: after any sequence of calls it holds exactly the
  accepted samples that are younger than the interval at the time of the last accepted sample, and of those the
  latest \<open>capacity\<close>, in order of arrival.
\<close>

theorem sliding_window_refines:
  assumes "0 < as_ns d" "1 \<le> capacity" "\<forall>(t, v, s) \<in> set cs. 0 \<le> as_ns t \<and> in_i64 (as_ns t)"
  defines "r \<equiv> window_run (sample_window WT_Sliding d capacity) cs"
  shows "sw_samples (snd r) = sliding_spec d capacity (sw_last_time (snd r)) (accepted cs (fst r))"
proof -
  have "0 \<le> capacity" using assms by simp
  note sim = sliding_sim_run [OF sliding_sim_new [OF assms(1)] window_inv_new [OF this] assms(3)]
  then show ?thesis
    using assms(2) window_run_config [of "sample_window WT_Sliding d capacity" cs]
    by (simp add: sliding_sim_def r_def sample_window_def Let_def)
qed

theorem sliding_window_refines_witness:
  "sw_samples (snd (window_run (sample_window WT_Sliding (Duration 10) 2)
      [(Duration 3, Double 0, 1), (Duration 8, Double 1, 2), (Duration 14, Double 2, 3)])) =
   [WindowSample (Duration 8) (Double 1) 2, WindowSample (Duration 14) (Double 2) 3]"
proof -
  let ?cs = "[(Duration 3, Double 0, 1), (Duration 8, Double 1, 2), (Duration 14, Double 2, 3)]"
  let ?r = "window_run (sample_window WT_Sliding (Duration 10) 2) ?cs"
  have "sliding_spec (Duration 10) 2 (sw_last_time (snd ?r)) (accepted ?cs (fst ?r)) =
      [WindowSample (Duration 8) (Double 1) 2, WindowSample (Duration 14) (Double 2) 3]"
    by code_simp
  moreover have "0 < as_ns (Duration 10)" "\<forall>(t, v, s) \<in> set ?cs. 0 \<le> as_ns t \<and> in_i64 (as_ns t)"
    by (simp_all add: in_i64_def i64_min_def i64_max_def)
  ultimately show ?thesis using sliding_window_refines [of "Duration 10" 2 ?cs] by simp
qed

text \<open>
  Property C34.  The quantile of a window is the nearest-rank order statistic of its samples: with \<open>r\<close> the product of the
  fraction, clamped to the unit interval, and the number of samples, rounded up to a whole number (1 at least, the number
  of samples at most), the value is one of the samples, at least \<open>r\<close> samples are at most that value, and fewer than \<open>r\<close>
  are smaller.
\<close>

theorem window_quantile_order_statistic:
  fixes p :: double
  assumes "window_inv w" "\<not> window_empty w" "\<not> is_nan p" "window_size w \<le> 4503599627370496"
  defines "q \<equiv> window_quantile w p"
    and "r \<equiv> min (window_size w) (if dle p dzero then 1 else max 1 (d_ceiling (dmul (dclamp p dzero (dec 1 1)) (d_of_int (window_size w)))))"
  shows "q \<in> set (sample_values w) \<and>
    r \<le> int (length (filter (\<lambda>x. dle x q) (sample_values w))) \<and>
    int (length (filter (\<lambda>x. dlt x q) (sample_values w))) < r"
proof -
  have ne: "sample_values w \<noteq> []" using assms(2) by (simp add: sample_values_def window_empty_def)
  have len: "window_size w = int (length (sample_values w))" by (simp add: window_size_def sample_values_def)
  then have n: "1 \<le> window_size w" using ne by (cases "sample_values w") simp_all
  have "r = nearest_rank_index p (window_size w) + 1"
    using nearest_rank_index_exact [OF n assms(4,3)] n by (simp add: r_def min_def)
  then show ?thesis
    using nearest_rank_statistic [OF ne, of p] values_not_nan [OF assms(1)] by (simp add: q_def window_quantile_def len)
qed

theorem window_quantile_order_statistic_witness:
  "int (length (filter (\<lambda>x. dle x (window_quantile (snd (window_run (sample_window WT_RollingCount (Duration 0) 3)
      [(Duration 1, d_of_int 5, 1), (Duration 2, d_of_int 9, 2), (Duration 3, d_of_int 7, 3)])) (dec 1 2)))
      [d_of_int 5, d_of_int 9, d_of_int 7])) \<ge> 2"
proof -
  let ?w = "snd (window_run (sample_window WT_RollingCount (Duration 0) 3)
      [(Duration 1, d_of_int 5, 1), (Duration 2, d_of_int 9, 2), (Duration 3, d_of_int 7, 3)])"
  have "window_inv ?w" by (rule window_run_inv [OF window_inv_new]) (simp_all add: in_i64_def i64_min_def i64_max_def)
  moreover have "\<not> window_empty ?w" "window_size ?w = 3" "sample_values ?w = [d_of_int 5, d_of_int 9, d_of_int 7]" by code_simp+
  moreover have "\<not> is_nan (dec 1 2)" "\<not> dle (dec 1 2) dzero" "d_ceiling (dmul (dclamp (dec 1 2) dzero (dec 1 1)) (d_of_int 3)) = 2"
    by code_simp+
  ultimately show ?thesis using window_quantile_order_statistic [of ?w "dec 1 2"] by simp
qed

end
