(* ===== verification/Budget.thy ===== *)
theory Budget
  imports Units
begin

text \<open>
  Error budgets (\<^verbatim>\<open>budget.hpp\<close>) and the deterministic clock (\<^verbatim>\<open>clock.hpp\<close>): consumption of an integer allowance
  over a window, the state and the burn rate derived from it, and the invariant that what is left never exceeds
  what was granted.  Subtractions of \<^verbatim>\<open>int64_t\<close> that the code leaves unchecked wrap in the model.
\<close>

section \<open>Error budget\<close>

datatype BudgetState = BS_Healthy | BS_NearLimit | BS_Exhausted

fun budget_state_name :: "BudgetState \<Rightarrow> string" where
  "budget_state_name BS_Healthy = ''healthy''"
| "budget_state_name BS_NearLimit = ''near_limit''"
| "budget_state_name BS_Exhausted = ''exhausted''"

datatype BurnRate = BR_Normal | BR_Elevated | BR_Critical

fun burn_rate_name :: "BurnRate \<Rightarrow> string" where
  "burn_rate_name BR_Normal = ''normal''"
| "burn_rate_name BR_Elevated = ''elevated''"
| "burn_rate_name BR_Critical = ''critical''"

record ErrorBudget =
  b_total :: Count
  b_consumed :: Count
  b_window :: Duration
  b_window_start :: Duration

definition error_budget :: "Count \<Rightarrow> Duration \<Rightarrow> ErrorBudget" where
  "error_budget tot window =
     \<lparr> b_total = tot, b_consumed = Count 0,
       b_window = (if as_ns window < 0 then Duration 0 else window), b_window_start = Duration 0 \<rparr>"

definition budget_remaining :: "ErrorBudget \<Rightarrow> Count" where
  "budget_remaining b =
     (let rem = wrap64 (count_value (b_total b) - count_value (b_consumed b))
      in Count (if rem < 0 then 0 else rem))"

definition budget_overrun :: "ErrorBudget \<Rightarrow> Count" where
  "budget_overrun b =
     (let ov = wrap64 (count_value (b_consumed b) - count_value (b_total b)) in Count (if ov < 0 then 0 else ov))"

definition budget_state :: "ErrorBudget \<Rightarrow> BudgetState" where
  "budget_state b =
     (let tot = count_value (b_total b)
      in if tot = 0 then BS_Exhausted
         else let rem = wrap64 (tot - count_value (b_consumed b))
              in if rem \<le> 0 then BS_Exhausted
                 else if dle (d_of_int rem) (dmul (d_of_int tot) (dec 10 100)) then BS_NearLimit
                 else BS_Healthy)"

definition consume :: "ErrorBudget \<Rightarrow> BudgetState \<times> ErrorBudget" where
  "consume b =
     (let c = count_value (b_consumed b);
          b' = (if c < i64_max then b\<lparr> b_consumed := Count (c + 1) \<rparr> else b)
      in (budget_state b', b'))"

definition consume_count :: "Count \<Rightarrow> ErrorBudget \<Rightarrow> BudgetState \<times> ErrorBudget" where
  "consume_count amount b =
     (let c = count_value (b_consumed b);
          a = count_value amount;
          c' = (if 0 < a \<and> c \<le> i64_max - a then c + a else c);
          b' = b\<lparr> b_consumed := Count c' \<rparr>
      in (budget_state b', b'))"

definition fraction_elapsed :: "ErrorBudget \<Rightarrow> Duration \<Rightarrow> double" where
  "fraction_elapsed b now =
     (let w = as_ns (b_window b)
      in if w \<le> 0 then dec 1 1
         else let e0 = wrap64 (as_ns now - as_ns (b_window_start b));
                  e = (if e0 < 0 then 0 else e0);
                  f = ddiv (d_of_int e) (d_of_int w)
              in if dgt f (dec 1 1) then dec 1 1 else f)"

definition burn_rate :: "ErrorBudget \<Rightarrow> Duration \<Rightarrow> double" where
  "burn_rate b now =
     (let tot = count_value (b_total b)
      in if tot \<le> 0 then dzero
         else let frac = fraction_elapsed b now
              in if dle frac dzero then dzero
                 else ddiv (ddiv (d_of_int (count_value (b_consumed b))) (d_of_int tot)) frac)"

definition classify_burn :: "ErrorBudget \<Rightarrow> Duration \<Rightarrow> BurnRate" where
  "classify_burn b now =
     (let r = burn_rate b now
      in if dgt r (dec 2 1) then BR_Critical else if dgt r (dec 1 1) then BR_Elevated else BR_Normal)"

definition reset_window :: "Duration \<Rightarrow> ErrorBudget \<Rightarrow> ErrorBudget" where
  "reset_window now b = b\<lparr> b_consumed := Count 0, b_window_start := now \<rparr>"

definition window_rolled :: "ErrorBudget \<Rightarrow> Duration \<Rightarrow> bool" where
  "window_rolled b now \<longleftrightarrow>
     0 < as_ns (b_window b) \<and> as_ns (b_window b) \<le> wrap64 (as_ns now - as_ns (b_window_start b))"

definition set_window_start :: "Duration \<Rightarrow> ErrorBudget \<Rightarrow> ErrorBudget" where
  "set_window_start now b = b\<lparr> b_window_start := now \<rparr>"

section \<open>Manual clock\<close>

record ManualClock =
  mc_now :: Duration
  mc_wall :: i64

definition manual_clock :: "Duration \<Rightarrow> ManualClock" where
  "manual_clock initial = \<lparr> mc_now = initial, mc_wall = as_ns initial \<rparr>"

definition set_now :: "Duration \<Rightarrow> ManualClock \<Rightarrow> ManualClock" where
  "set_now d c = c\<lparr> mc_now := d \<rparr>"

definition detail_checked_add :: "int \<Rightarrow> int \<Rightarrow> int option" where
  "detail_checked_add a b =
     (if (if 0 \<le> b then a \<le> i64_max - b else i64_min - b \<le> a) then Some (a + b) else None)"

definition advance :: "Duration \<Rightarrow> ManualClock \<Rightarrow> ManualClock" where
  "advance d c =
     (case detail_checked_add (as_ns (mc_now c)) (as_ns d) of None \<Rightarrow> c | Some r \<Rightarrow> c\<lparr> mc_now := Duration r \<rparr>)"

definition rollback :: "Duration \<Rightarrow> ManualClock \<Rightarrow> ManualClock" where
  "rollback d c = c\<lparr> mc_now := d \<rparr>"

definition set_wall :: "int \<Rightarrow> ManualClock \<Rightarrow> ManualClock" where
  "set_wall w c = c\<lparr> mc_wall := w \<rparr>"

section \<open>Facts\<close>

definition budget_inv :: "ErrorBudget \<Rightarrow> bool" where
  "budget_inv b \<longleftrightarrow>
     0 \<le> count_value (b_total b) \<and> in_i64 (count_value (b_total b)) \<and>
     0 \<le> count_value (b_consumed b) \<and> in_i64 (count_value (b_consumed b)) \<and> 0 \<le> as_ns (b_window b)"

lemma budget_inv_new: "0 \<le> t \<Longrightarrow> in_i64 t \<Longrightarrow> budget_inv (error_budget (Count t) w)"
  by (simp add: budget_inv_def error_budget_def in_i64_def i64_min_def i64_max_def)

lemma consume_inv: "budget_inv b \<Longrightarrow> budget_inv (snd (consume b))"
  by (auto simp: budget_inv_def consume_def Let_def in_i64_def)

lemma consume_count_inv: "budget_inv b \<Longrightarrow> budget_inv (snd (consume_count a b))"
  by (auto simp: budget_inv_def consume_count_def Let_def in_i64_def)

lemma reset_window_inv: "budget_inv b \<Longrightarrow> budget_inv (reset_window now b)"
  by (simp add: budget_inv_def reset_window_def in_i64_def i64_min_def i64_max_def)

lemma set_window_start_inv: "budget_inv b \<Longrightarrow> budget_inv (set_window_start now b)"
  by (simp add: budget_inv_def set_window_start_def)

lemmas budget_inv_intros = budget_inv_new consume_inv consume_count_inv reset_window_inv set_window_start_inv

text \<open>Under the invariant the unchecked subtractions do not wrap.\<close>

lemma budget_remaining_eq:
  "budget_inv b \<Longrightarrow> budget_remaining b = Count (max 0 (count_value (b_total b) - count_value (b_consumed b)))"
  by (simp add: budget_inv_def budget_remaining_def Let_def max_def wrap64_id in_i64_def i64_min_def i64_max_def)

lemma budget_overrun_eq:
  "budget_inv b \<Longrightarrow> budget_overrun b = Count (max 0 (count_value (b_consumed b) - count_value (b_total b)))"
  by (simp add: budget_inv_def budget_overrun_def Let_def max_def wrap64_id in_i64_def i64_min_def i64_max_def)

lemma budget_state_exhausted_iff:
  "budget_inv b \<Longrightarrow> budget_state b = BS_Exhausted \<longleftrightarrow> count_value (budget_remaining b) = 0"
  by (auto simp: budget_remaining_eq budget_inv_def budget_state_def Let_def max_def wrap64_id in_i64_def
      i64_min_def i64_max_def)

text \<open>Calls on a budget, as a sequence of operations.\<close>

datatype BudgetOp = BO_Consume | BO_ConsumeCount Count | BO_Reset Duration | BO_SetStart Duration

fun budget_op :: "BudgetOp \<Rightarrow> ErrorBudget \<Rightarrow> ErrorBudget" where
  "budget_op BO_Consume b = snd (consume b)"
| "budget_op (BO_ConsumeCount a) b = snd (consume_count a b)"
| "budget_op (BO_Reset now) b = reset_window now b"
| "budget_op (BO_SetStart now) b = set_window_start now b"

lemma budget_op_inv: "budget_inv b \<Longrightarrow> budget_inv (budget_op x b)"
  by (cases x) (simp_all add: budget_inv_intros)

lemma budget_ops_inv: "budget_inv b \<Longrightarrow> budget_inv (fold budget_op xs b)"
  by (induction xs arbitrary: b) (simp_all add: budget_op_inv)

lemma budget_op_total: "b_total (budget_op x b) = b_total b"
  by (cases x) (simp_all add: consume_def consume_count_def reset_window_def set_window_start_def Let_def)

lemma budget_ops_total: "b_total (fold budget_op xs b) = b_total b"
  by (induction xs arbitrary: b) (simp_all add: budget_op_total)

definition no_reset :: "BudgetOp \<Rightarrow> bool" where
  "no_reset x \<longleftrightarrow> (case x of BO_Reset _ \<Rightarrow> False | _ \<Rightarrow> True)"

lemma budget_op_consumed_mono:
  "no_reset x \<Longrightarrow> count_value (b_consumed b) \<le> count_value (b_consumed (budget_op x b))"
  by (cases x) (simp_all add: no_reset_def consume_def consume_count_def set_window_start_def Let_def)

lemma budget_ops_consumed_mono:
  "\<forall>x \<in> set xs. no_reset x \<Longrightarrow> count_value (b_consumed b) \<le> count_value (b_consumed (fold budget_op xs b))"
proof (induction xs arbitrary: b)
  case (Cons x xs)
  then have "count_value (b_consumed (budget_op x b)) \<le> count_value (b_consumed (fold budget_op (x # xs) b))" by simp
  moreover have "count_value (b_consumed b) \<le> count_value (b_consumed (budget_op x b))"
    using Cons.prems by (intro budget_op_consumed_mono) simp
  ultimately show ?case by linarith
qed simp

section \<open>Properties\<close>

text \<open>
  Property C35.  Budget accounting: whatever sequence of operations runs on a budget granted a non-negative total,
  the total is unchanged, what remains is between zero and the total, total, consumption and overrun balance, and
  the state is \<^verbatim>\<open>Exhausted\<close> exactly when nothing remains.
\<close>

theorem budget_accounting:
  fixes xs :: "BudgetOp list" and w :: Duration
  assumes "0 \<le> t" "in_i64 t"
  defines "b \<equiv> fold budget_op xs (error_budget (Count t) w)"
  shows "b_total b = Count t \<and> 0 \<le> count_value (budget_remaining b) \<and> count_value (budget_remaining b) \<le> t \<and>
    count_value (budget_remaining b) - count_value (budget_overrun b) = t - count_value (b_consumed b) \<and>
    (budget_state b = BS_Exhausted \<longleftrightarrow> count_value (budget_remaining b) = 0)"
proof -
  have inv: "budget_inv b" unfolding b_def using assms(1,2) by (intro budget_ops_inv budget_inv_new)
  moreover have "b_total b = Count t" by (simp add: b_def budget_ops_total error_budget_def)
  ultimately show ?thesis
    using budget_state_exhausted_iff [OF inv]
    by (auto simp: budget_remaining_eq budget_overrun_eq budget_inv_def max_def)
qed

theorem budget_accounting_witness:
  "budget_state (fold budget_op [BO_Consume, BO_ConsumeCount (Count 9), BO_Consume] (error_budget (Count 10) (Duration 5)))
     = BS_Exhausted"
  using budget_accounting [of 10 "[BO_Consume, BO_ConsumeCount (Count 9), BO_Consume]" "Duration 5"]
  by (simp add: in_i64_def i64_min_def i64_max_def consume_def consume_count_def error_budget_def budget_remaining_def
      wrap64_def Let_def)

text \<open>
  Exhaustion is final within a window: once a budget is exhausted, no sequence of operations that
  does not reset the window makes it healthy again.
\<close>

theorem budget_exhaustion_final:
  assumes "budget_inv b" "budget_state b = BS_Exhausted" "\<forall>x \<in> set xs. no_reset x"
  shows "budget_state (fold budget_op xs b) = BS_Exhausted"
proof -
  have inv: "budget_inv (fold budget_op xs b)" using assms(1) by (rule budget_ops_inv)
  have "count_value (budget_remaining b) = 0" using assms(2) budget_state_exhausted_iff [OF assms(1)] by simp
  then have "count_value (budget_remaining (fold budget_op xs b)) = 0"
    using budget_ops_consumed_mono [OF assms(3), of b]
    by (auto simp: budget_remaining_eq [OF inv] budget_remaining_eq [OF assms(1)] budget_ops_total max_def split: if_splits)
  then show ?thesis by (simp add: budget_state_exhausted_iff [OF inv])
qed

theorem budget_exhaustion_final_witness:
  "budget_state (fold budget_op [BO_Consume, BO_SetStart (Duration 7)] (snd (consume (error_budget (Count 1) (Duration 5)))))
     = BS_Exhausted"
proof (rule budget_exhaustion_final)
  show "budget_inv (snd (consume (error_budget (Count 1) (Duration 5))))"
    by (intro consume_inv budget_inv_new) (simp_all add: in_i64_def i64_min_def i64_max_def)
  show "budget_state (snd (consume (error_budget (Count 1) (Duration 5)))) = BS_Exhausted" by code_simp
  show "\<forall>x \<in> set [BO_Consume, BO_SetStart (Duration 7)]. no_reset x" by (simp add: no_reset_def)
qed

end
