(* ===== verification/Accumulator.thy ===== *)
theory Accumulator
  imports Windows Budget
begin

text \<open>
  The per-objective accumulator of \<^verbatim>\<open>fabric.cpp\<close>: availability account, cost window, recovery tracker, sample window,
  budget and the ring of recently seen evidence, with the routing of an objective to the part that measures it, the
  reset at a new objective generation, the freshness of the evidence and the measured value.
\<close>

section \<open>Parts\<close>

record AvailabilityAccount =
  av_mode :: AvailabilityMode
  av_eligible_time :: Duration
  av_serving_time :: Duration
  av_eligible :: Count
  av_successful :: Count

definition new_availability :: AvailabilityAccount where
  "new_availability = \<lparr> av_mode = AM_Time, av_eligible_time = Duration 0, av_serving_time = Duration 0,
     av_eligible = Count 0, av_successful = Count 0 \<rparr>"

definition has_denominator :: "AvailabilityAccount \<Rightarrow> bool" where
  "has_denominator a =
     (if av_mode a = AM_Time then 0 < as_ns (av_eligible_time a) else 0 < count_value (av_eligible a))"

definition avail_ratio :: "AvailabilityAccount \<Rightarrow> double" where
  "avail_ratio a =
     (if av_mode a = AM_Time
      then if as_ns (av_eligible_time a) \<le> 0 then dzero
           else ddiv (d_of_int (as_ns (av_serving_time a))) (d_of_int (as_ns (av_eligible_time a)))
      else if count_value (av_eligible a) \<le> 0 then dzero
           else ddiv (d_of_int (count_value (av_successful a))) (d_of_int (count_value (av_eligible a))))"

record CostWindow =
  cw_items :: "(Duration \<times> double) list"
  cw_cap :: int
  cw_cap_ns :: int

definition new_cost_window :: CostWindow where
  "new_cost_window = \<lparr> cw_items = [], cw_cap = 4096, cw_cap_ns = 0 \<rparr>"

definition cost_evict :: "Duration \<Rightarrow> CostWindow \<Rightarrow> CostWindow" where
  "cost_evict now c =
     c\<lparr> cw_items := evict_excess (cw_cap c)
          (dropWhile (\<lambda>(t, _). 0 < cw_cap_ns c \<and> cw_cap_ns c < wrap64 (as_ns now - as_ns t)) (cw_items c)) \<rparr>"

definition cost_window_add :: "Duration \<Rightarrow> double \<Rightarrow> int \<Rightarrow> CostWindow \<Rightarrow> CostWindow" where
  "cost_window_add t cost window_ns c =
     cost_evict t (c\<lparr> cw_cap_ns := window_ns, cw_items := cw_items c @ [(t, cost)] \<rparr>)"

definition cost_sum :: "CostWindow \<Rightarrow> double" where
  "cost_sum c = dsum (map snd (cw_items c))"

definition cost_size :: "CostWindow \<Rightarrow> int" where
  "cost_size c = int (length (cw_items c))"

record RecoveryTracker =
  rt_observed :: bool
  rt_authoritative :: bool
  rt_initiated :: bool
  rt_restored :: bool
  rt_verified :: bool
  rt_authoritative_at :: Duration
  rt_restored_at :: Duration
  rt_verified_at :: Duration

definition new_recovery :: RecoveryTracker where
  "new_recovery = \<lparr> rt_observed = False, rt_authoritative = False, rt_initiated = False, rt_restored = False,
     rt_verified = False, rt_authoritative_at = Duration 0, rt_restored_at = Duration 0, rt_verified_at = Duration 0 \<rparr>"

definition recovery_active :: "RecoveryTracker \<Rightarrow> bool" where
  "recovery_active t \<longleftrightarrow> rt_authoritative t \<and> \<not> rt_verified t"

definition current_recovery_duration :: "Duration \<Rightarrow> RecoveryTracker \<Rightarrow> Duration" where
  "current_recovery_duration now t =
     (if \<not> rt_authoritative t then Duration 0
      else let end = (if rt_verified t then rt_verified_at t else if rt_restored t then rt_restored_at t else now)
           in Duration (wrap64 (as_ns end - as_ns (rt_authoritative_at t))))"

section \<open>Accumulator\<close>

record ObjectiveAccumulator =
  a_def :: Objective
  a_window :: SampleWindow
  a_uses_window :: bool
  a_uses_availability :: bool
  a_uses_cost :: bool
  a_uses_recovery :: bool
  a_avail :: AvailabilityAccount
  a_cost :: CostWindow
  a_recovery :: RecoveryTracker
  a_has_budget :: bool
  a_budget :: ErrorBudget
  a_last_state :: ComplianceState
  a_last_state_time :: Duration
  a_cooldown_until :: Duration
  a_recent :: "EvidenceId list"
  a_recent_set :: "EvidenceId set"
  a_dedup_cap :: int
  a_next_seq :: u64

definition acc_seen :: "EvidenceId \<Rightarrow> ObjectiveAccumulator \<Rightarrow> bool" where
  "acc_seen i a \<longleftrightarrow> i \<in> a_recent_set a"

definition remember :: "EvidenceId \<Rightarrow> ObjectiveAccumulator \<Rightarrow> ObjectiveAccumulator" where
  "remember i a =
     (let a = (if a_dedup_cap a \<le> int (length (a_recent a))
               then a\<lparr> a_recent := tl (a_recent a), a_recent_set := a_recent_set a - {hd (a_recent a)} \<rparr>
               else a)
      in a\<lparr> a_recent := a_recent a @ [i], a_recent_set := insert i (a_recent_set a) \<rparr>)"

text \<open>\<^verbatim>\<open>rebuild_window\<close> keeps every declared window type; its fallback covers bytes outside the enumeration.\<close>

definition rebuild_window :: "Objective \<Rightarrow> ObjectiveAccumulator \<Rightarrow> ObjectiveAccumulator" where
  "rebuild_window ob a =
     a\<lparr> a_window := sample_window (o_window_type ob) (o_window_duration ob) (max 1 (count_value (o_window_count ob))) \<rparr>"

definition route_for :: "Objective \<Rightarrow> ObjectiveAccumulator \<Rightarrow> ObjectiveAccumulator" where
  "route_for ob a =
     (let a = a\<lparr> a_uses_window := False, a_uses_availability := False, a_uses_cost := False, a_uses_recovery := False \<rparr>;
          a = (case o_dim ob of
                 Dim_Availability \<Rightarrow> a\<lparr> a_uses_availability := True \<rparr>
               | Dim_Cost \<Rightarrow> a\<lparr> a_uses_cost := True \<rparr>
               | Dim_RecoveryTime \<Rightarrow> a\<lparr> a_uses_recovery := True \<rparr>
               | _ \<Rightarrow> a\<lparr> a_uses_window := True \<rparr>);
          a = a\<lparr> a_avail := (a_avail a)\<lparr> av_mode := o_availability_mode ob \<rparr> \<rparr>
      in rebuild_window ob a)"

definition new_accumulator :: "Objective \<Rightarrow> ObjectiveAccumulator" where
  "new_accumulator ob = route_for ob
     \<lparr> a_def = ob, a_window = sample_window WT_Sliding (Duration 0) 64, a_uses_window = False,
       a_uses_availability = False, a_uses_cost = False, a_uses_recovery = False, a_avail = new_availability,
       a_cost = new_cost_window, a_recovery = new_recovery, a_has_budget = False,
       a_budget = error_budget (Count 0) (Duration 0), a_last_state = CS_InsufficientEvidence,
       a_last_state_time = Duration 0, a_cooldown_until = Duration 0, a_recent = [], a_recent_set = {},
       a_dedup_cap = 4096, a_next_seq = 1 \<rparr>"

definition reset_for_new_gen :: "Objective \<Rightarrow> ObjectiveAccumulator \<Rightarrow> ObjectiveAccumulator" where
  "reset_for_new_gen ob a = route_for ob
     (a\<lparr> a_window := window_reset (a_window a), a_avail := new_availability, a_cost := new_cost_window,
        a_recovery := new_recovery, a_last_state := CS_InsufficientEvidence, a_last_state_time := Duration 0,
        a_cooldown_until := Duration 0, a_recent := [], a_recent_set := {}, a_next_seq := 1, a_def := ob \<rparr>)"

section \<open>Freshness and measurement\<close>

definition evaluate_freshness :: "ObjectiveAccumulator \<Rightarrow> Duration \<Rightarrow> Freshness" where
  "evaluate_freshness a now =
     (let ob = a_def a in
      if a_uses_availability a then (if \<not> has_denominator (a_avail a) then FR_Expired else FR_Current)
      else if a_uses_recovery a then FR_Current
      else if a_uses_cost a then (if cw_items (a_cost a) = [] then FR_Expired else FR_Current)
      else if window_empty (a_window a) then FR_Expired
      else let latest = ws_time (last (sw_samples (a_window a)));
               age = wrap64 (as_ns now - as_ns latest);
               ttl = as_ns (o_freshness_ttl ob)
           in if age < 0 then FR_Stale
              else if ttl \<le> 0 then
                (let w = as_ns (o_window_duration ob)
                 in if 0 < w \<and> w \<le> age then FR_Stale else if w \<le> 0 then FR_Current else FR_Current)
              else if ttl < age then FR_Stale
              else FR_Current)"

record Measurement =
  ms_got :: bool
  ms_value :: double
  ms_unit :: UnitKind
  ms_sufficient :: bool
  ms_samples :: Count
  ms_detail :: string

definition measured :: "UnitKind \<Rightarrow> double \<Rightarrow> bool \<Rightarrow> int \<Rightarrow> string \<Rightarrow> Measurement" where
  "measured u v suf n detail = \<lparr> ms_got = True, ms_value = v, ms_unit = u, ms_sufficient = suf, ms_samples = Count n,
     ms_detail = detail \<rparr>"

definition not_measured :: "UnitKind \<Rightarrow> int \<Rightarrow> string \<Rightarrow> Measurement" where
  "not_measured u n detail = \<lparr> ms_got = False, ms_value = dzero, ms_unit = u, ms_sufficient = False,
     ms_samples = Count n, ms_detail = detail \<rparr>"

definition compute_measured :: "ObjectiveAccumulator \<Rightarrow> Duration \<Rightarrow> Measurement" where
  "compute_measured a now =
     (let ob = a_def a; u = expected_unit_for (o_dim ob); w = a_window a in
      if o_dim ob = Dim_Availability then
        (if \<not> has_denominator (a_avail a) then not_measured u 0 ''no eligible denominator''
         else measured UK_BasisPoints (dmul (avail_ratio (a_avail a)) (dec 10000 1)) (has_denominator (a_avail a))
                (if av_mode (a_avail a) = AM_Time then 1 else count_value (av_eligible (a_avail a))) [])
      else if o_dim ob = Dim_RecoveryTime then
        (if \<not> rt_authoritative (a_recovery a) then measured u dzero True 0 ''no recovery in progress''
         else measured u (d_of_int (as_ns (current_recovery_duration now (a_recovery a)))) True 1 [])
      else if o_dim ob = Dim_Cost then
        (if o_kind ob = K_CostWindowBudget then
           (if cw_items (a_cost a) = [] then not_measured u 0 ''no cost evidence''
            else measured u (cost_sum (a_cost a)) (1 \<le> cost_size (a_cost a)) (cost_size (a_cost a)) [])
         else if window_empty w then not_measured u 0 ''no cost evidence''
         else measured u (window_mean w)
                (count_value (o_min_evidence ob) mod 18446744073709551616 \<le> window_size w) (window_size w) [])
      else if window_empty w then not_measured u 0 ''no evidence''
      else if window_size w < max 1 (count_value (o_min_evidence ob))
      then not_measured u (window_size w) ''insufficient samples''
      else if o_dim ob = Dim_Latency \<and> o_kind ob = K_LatencyPercentile \<and> \<not> quantile_sufficient w (o_percentile_rank ob)
      then not_measured u (window_size w) ''insufficient percentile evidence''
      else measured u
        (case o_dim ob of
           Dim_Latency \<Rightarrow>
             (if o_kind ob = K_LatencyPercentile then window_quantile w (o_percentile_rank ob)
              else if o_kind ob = K_LatencyMean then window_mean w
              else window_max w)
         | Dim_Throughput \<Rightarrow> window_mean w
         | Dim_MemoryPressure \<Rightarrow> (if o_kind ob = K_MemoryMinHeadroom then window_min w else window_max w)
         | _ \<Rightarrow> window_mean w)
        True (window_size w) [])"

section \<open>Invariant\<close>

definition ring_inv :: "int \<Rightarrow> 'a list \<Rightarrow> 'a set \<Rightarrow> bool" where
  "ring_inv cap ring ids \<longleftrightarrow> ids = set ring \<and> distinct ring \<and> int (length ring) \<le> cap"

text \<open>The states an evaluation or a restart assigns.\<close>

definition assigned_states :: "ComplianceState set" where
  "assigned_states = {CS_Compliant, CS_NearLimit, CS_Violating, CS_InsufficientEvidence, CS_RevalidationRequired}"

definition acc_inv :: "ObjectiveAccumulator \<Rightarrow> bool" where
  "acc_inv a \<longleftrightarrow>
     window_inv (a_window a) \<and> budget_inv (a_budget a) \<and>
     a_dedup_cap a = 4096 \<and> ring_inv 4096 (a_recent a) (a_recent_set a) \<and>
     cw_cap (a_cost a) = 4096 \<and> cost_size (a_cost a) \<le> 4096 \<and>
     av_mode (a_avail a) = o_availability_mode (a_def a) \<and>
     a_last_state a \<in> assigned_states \<and>
     (a_uses_availability a \<longleftrightarrow> o_dim (a_def a) = Dim_Availability) \<and>
     (a_uses_cost a \<longleftrightarrow> o_dim (a_def a) = Dim_Cost) \<and>
     (a_uses_recovery a \<longleftrightarrow> o_dim (a_def a) = Dim_RecoveryTime) \<and>
     (a_uses_window a \<longleftrightarrow> o_dim (a_def a) \<in> {Dim_Latency, Dim_Throughput, Dim_MemoryPressure})"

section \<open>Facts\<close>

lemma ring_inv_push:
  assumes "ring_inv cap ring ids" "i \<notin> ids" "0 < cap"
  defines "ring' \<equiv> (if cap \<le> int (length ring) then tl ring else ring)"
    and "ids' \<equiv> (if cap \<le> int (length ring) then ids - {hd ring} else ids)"
  shows "ring_inv cap (ring' @ [i]) (insert i ids')"
proof (cases "cap \<le> int (length ring)")
  case True
  then obtain x xs where ring: "ring = x # xs" using assms(3) by (cases ring) auto
  with assms True show ?thesis by (auto simp: ring_inv_def)
next
  case False
  with assms show ?thesis by (auto simp: ring_inv_def)
qed

lemma remember_inv: "acc_inv a \<Longrightarrow> \<not> acc_seen i a \<Longrightarrow> acc_inv (remember i a)"
  using ring_inv_push [of 4096 "a_recent a" "a_recent_set a" i]
  by (auto simp: acc_inv_def acc_seen_def remember_def Let_def split: if_splits)

lemma remember_seen: "acc_seen i (remember i a)"
  by (simp add: acc_seen_def remember_def Let_def)

lemma rebuild_window_inv: "window_inv (a_window (rebuild_window ob a))"
  by (simp add: rebuild_window_def window_inv_new)

lemma route_for_fields [simp]:
  "a_def (route_for ob a) = a_def a" "a_budget (route_for ob a) = a_budget a"
  "a_has_budget (route_for ob a) = a_has_budget a" "a_cost (route_for ob a) = a_cost a"
  "a_recovery (route_for ob a) = a_recovery a" "a_recent (route_for ob a) = a_recent a"
  "a_recent_set (route_for ob a) = a_recent_set a" "a_dedup_cap (route_for ob a) = a_dedup_cap a"
  "a_next_seq (route_for ob a) = a_next_seq a" "a_last_state (route_for ob a) = a_last_state a"
  "a_last_state_time (route_for ob a) = a_last_state_time a" "a_cooldown_until (route_for ob a) = a_cooldown_until a"
  "a_avail (route_for ob a) = (a_avail a)\<lparr> av_mode := o_availability_mode ob \<rparr>"
  "a_window (route_for ob a) = sample_window (o_window_type ob) (o_window_duration ob) (max 1 (count_value (o_window_count ob)))"
  "a_uses_availability (route_for ob a) \<longleftrightarrow> o_dim ob = Dim_Availability"
  "a_uses_cost (route_for ob a) \<longleftrightarrow> o_dim ob = Dim_Cost"
  "a_uses_recovery (route_for ob a) \<longleftrightarrow> o_dim ob = Dim_RecoveryTime"
  "a_uses_window (route_for ob a) \<longleftrightarrow> o_dim ob \<in> {Dim_Latency, Dim_Throughput, Dim_MemoryPressure}"
  by (cases "o_dim ob"; simp add: route_for_def rebuild_window_def Let_def)+

lemma route_for_idem: "route_for ob (route_for ob a) = route_for ob a"
  by (cases "o_dim ob") (simp_all add: route_for_def rebuild_window_def Let_def)

lemma empty_ring [simp]: "ring_inv cap [] {} \<longleftrightarrow> 0 \<le> cap"
  by (simp add: ring_inv_def)

lemma new_accumulator_inv: "acc_inv (new_accumulator ob)"
  by (simp add: acc_inv_def new_accumulator_def window_inv_new budget_inv_new new_cost_window_def cost_size_def
      assigned_states_def in_i64_def i64_min_def i64_max_def)

lemma reset_for_new_gen_inv: "acc_inv a \<Longrightarrow> acc_inv (reset_for_new_gen ob a)"
  by (simp add: acc_inv_def reset_for_new_gen_def window_inv_new new_cost_window_def cost_size_def assigned_states_def)

lemma a_def_new [simp]: "a_def (new_accumulator ob) = ob" "a_def (reset_for_new_gen ob a) = ob"
  by (simp_all add: new_accumulator_def reset_for_new_gen_def)

lemma acc_inv_window: "acc_inv a \<Longrightarrow> window_inv w \<Longrightarrow> acc_inv (a\<lparr> a_window := w, a_next_seq := n \<rparr>)"
  by (simp add: acc_inv_def)

lemma acc_inv_budget: "acc_inv a \<Longrightarrow> budget_inv b \<Longrightarrow> acc_inv (a\<lparr> a_has_budget := h, a_budget := b \<rparr>)"
  by (simp add: acc_inv_def)

lemma acc_inv_recovery: "acc_inv a \<Longrightarrow> acc_inv (a\<lparr> a_recovery := r \<rparr>)"
  by (simp add: acc_inv_def)

lemma acc_inv_state: "acc_inv a \<Longrightarrow> s \<in> assigned_states \<Longrightarrow> acc_inv (a\<lparr> a_last_state := s, a_last_state_time := t \<rparr>)"
  by (simp add: acc_inv_def)

lemma acc_inv_cooldown: "acc_inv a \<Longrightarrow> acc_inv (a\<lparr> a_cooldown_until := t \<rparr>)"
  by (simp add: acc_inv_def)

lemma acc_inv_avail:
  "acc_inv a \<Longrightarrow> av_mode v = av_mode (a_avail a) \<Longrightarrow> acc_inv (a\<lparr> a_avail := v \<rparr>)"
  by (simp add: acc_inv_def)

lemma acc_inv_cost_add:
  "acc_inv a \<Longrightarrow> acc_inv (a\<lparr> a_cost := cost_window_add t c ns (a_cost a) \<rparr>)"
  by (simp add: acc_inv_def cost_window_add_def cost_evict_def cost_size_def evict_excess_drop)

lemmas acc_inv_intros = new_accumulator_inv reset_for_new_gen_inv remember_inv acc_inv_window acc_inv_budget
  acc_inv_recovery acc_inv_state acc_inv_cooldown acc_inv_avail acc_inv_cost_add

text \<open>
  What is measured has evidence: an accumulator that yields a sufficient measurement has a denominator, cost items
  or enough samples, except for a recovery objective, which is satisfied while no failure is in progress.
\<close>

lemma measurement_backed:
  assumes "ms_got (compute_measured a now)" "ms_sufficient (compute_measured a now)"
  shows "case o_dim (a_def a) of
      Dim_Availability \<Rightarrow> has_denominator (a_avail a)
    | Dim_RecoveryTime \<Rightarrow> True
    | Dim_Cost \<Rightarrow> (if o_kind (a_def a) = K_CostWindowBudget then cw_items (a_cost a) \<noteq> [] else \<not> window_empty (a_window a))
    | _ \<Rightarrow> \<not> window_empty (a_window a) \<and> count_value (o_min_evidence (a_def a)) \<le> window_size (a_window a)"
  using assms
  by (cases "o_dim (a_def a)") (auto simp: compute_measured_def Let_def measured_def not_measured_def split: if_splits)

end
