(* ===== verification/Enforcement.thy ===== *)
theory Enforcement
  imports Objectives
begin

text \<open>
  Enforcement actions, their lifecycle, intents and receipts (\<^verbatim>\<open>enforcement.hpp\<close>).  \<^verbatim>\<open>EnforcementAction\<close> has the
  underlying type \<^verbatim>\<open>uint8_t\<close>, so a cast from a byte can produce a value without a name: \<open>EA_unnamed\<close> is that value.
  The lifecycle table is studied as a transition relation \<open>lifecycle_path\<close>.
\<close>

section \<open>Actions\<close>

datatype EnforcementAction =
    EA_NoAction | EA_Admit | EA_Defer | EA_Reject | EA_Throttle | EA_ReserveCapacity | EA_IncreaseCapacity
  | EA_ReduceBatchSize | EA_IncreaseBatchSize | EA_ChangeQueuePriority | EA_PreemptLowerPriority
  | EA_PromoteWarmCapacity | EA_Replicate | EA_Drain | EA_Failover | EA_Recover | EA_ReplanRecovery
  | EA_ReclaimMemory | EA_ReduceResidency | EA_LimitPower | EA_ChangePlacement | EA_Escalate
  | EA_ManualInterventionRequired
  | EA_unnamed u8

fun enforcement_action_name :: "EnforcementAction \<Rightarrow> string" where
  "enforcement_action_name EA_NoAction = ''no_action''"
| "enforcement_action_name EA_Admit = ''admit''"
| "enforcement_action_name EA_Defer = ''defer''"
| "enforcement_action_name EA_Reject = ''reject''"
| "enforcement_action_name EA_Throttle = ''throttle''"
| "enforcement_action_name EA_ReserveCapacity = ''reserve_capacity''"
| "enforcement_action_name EA_IncreaseCapacity = ''increase_capacity''"
| "enforcement_action_name EA_ReduceBatchSize = ''reduce_batch_size''"
| "enforcement_action_name EA_IncreaseBatchSize = ''increase_batch_size''"
| "enforcement_action_name EA_ChangeQueuePriority = ''change_queue_priority''"
| "enforcement_action_name EA_PreemptLowerPriority = ''preempt_lower_priority''"
| "enforcement_action_name EA_PromoteWarmCapacity = ''promote_warm_capacity''"
| "enforcement_action_name EA_Replicate = ''replicate''"
| "enforcement_action_name EA_Drain = ''drain''"
| "enforcement_action_name EA_Failover = ''failover''"
| "enforcement_action_name EA_Recover = ''recover''"
| "enforcement_action_name EA_ReplanRecovery = ''replan_recovery''"
| "enforcement_action_name EA_ReclaimMemory = ''reclaim_memory''"
| "enforcement_action_name EA_ReduceResidency = ''reduce_residency''"
| "enforcement_action_name EA_LimitPower = ''limit_power''"
| "enforcement_action_name EA_ChangePlacement = ''change_placement''"
| "enforcement_action_name EA_Escalate = ''escalate''"
| "enforcement_action_name EA_ManualInterventionRequired = ''manual_intervention_required''"
| "enforcement_action_name (EA_unnamed _) = ''unknown_action''"

section \<open>Lifecycle\<close>

datatype EnforcementLifecycle =
    EL_Proposed | EL_Authorized | EL_Dispatched | EL_Acknowledged | EL_Effective | EL_Failed | EL_Cancelled
  | EL_Superseded | EL_Expired | EL_OutcomeUnknown

fun enforcement_lifecycle_name :: "EnforcementLifecycle \<Rightarrow> string" where
  "enforcement_lifecycle_name EL_Proposed = ''proposed''"
| "enforcement_lifecycle_name EL_Authorized = ''authorized''"
| "enforcement_lifecycle_name EL_Dispatched = ''dispatched''"
| "enforcement_lifecycle_name EL_Acknowledged = ''acknowledged''"
| "enforcement_lifecycle_name EL_Effective = ''effective''"
| "enforcement_lifecycle_name EL_Failed = ''failed''"
| "enforcement_lifecycle_name EL_Cancelled = ''cancelled''"
| "enforcement_lifecycle_name EL_Superseded = ''superseded''"
| "enforcement_lifecycle_name EL_Expired = ''expired''"
| "enforcement_lifecycle_name EL_OutcomeUnknown = ''outcome_unknown''"

fun enforcement_transition_legal :: "EnforcementLifecycle \<Rightarrow> EnforcementLifecycle \<Rightarrow> bool" where
  "enforcement_transition_legal EL_Proposed to \<longleftrightarrow>
     to = EL_Authorized \<or> to = EL_Cancelled \<or> to = EL_Superseded \<or> to = EL_Expired"
| "enforcement_transition_legal EL_Authorized to \<longleftrightarrow>
     to = EL_Dispatched \<or> to = EL_Cancelled \<or> to = EL_Superseded \<or> to = EL_Expired"
| "enforcement_transition_legal EL_Dispatched to \<longleftrightarrow>
     to = EL_Acknowledged \<or> to = EL_Failed \<or> to = EL_Cancelled \<or> to = EL_Superseded \<or>
     to = EL_Expired \<or> to = EL_OutcomeUnknown"
| "enforcement_transition_legal EL_Acknowledged to \<longleftrightarrow>
     to = EL_Effective \<or> to = EL_Failed \<or> to = EL_Cancelled \<or> to = EL_Superseded \<or>
     to = EL_Expired \<or> to = EL_OutcomeUnknown"
| "enforcement_transition_legal EL_Effective to \<longleftrightarrow> to = EL_Expired \<or> to = EL_Superseded"
| "enforcement_transition_legal EL_Failed to \<longleftrightarrow> to = EL_Expired"
| "enforcement_transition_legal EL_Cancelled to \<longleftrightarrow> to = EL_Expired"
| "enforcement_transition_legal EL_Superseded to \<longleftrightarrow> to = EL_Expired"
| "enforcement_transition_legal EL_Expired to \<longleftrightarrow> False"
| "enforcement_transition_legal EL_OutcomeUnknown to \<longleftrightarrow> to = EL_Expired \<or> to = EL_Failed"

section \<open>Intents and receipts\<close>

record EnforcementIntent =
  i_action :: EnforcementAction
  i_cls :: EnforcementClass
  i_dimension :: Dimension
  i_objective_id :: ObjectiveId
  i_objective_gen :: ObjectiveGen
  i_service :: ServiceId
  i_workload :: WorkloadId
  i_epoch :: CoordinatorEpoch
  i_contract_gen :: SloContractGen
  i_policy_gen :: PolicyGen
  i_evidence_gen :: EvidenceGen
  i_evaluation_id :: EvaluationId
  i_evaluation_gen :: EvaluationGen
  i_workload_gen :: WorkloadGen
  i_cooldown :: Duration
  i_reason :: string

record EnforcementReceipt =
  r_id :: EnforcementId
  r_gen :: EnforcementGen
  r_action :: EnforcementAction
  r_lifecycle :: EnforcementLifecycle
  r_epoch :: CoordinatorEpoch
  r_contract_gen :: SloContractGen
  r_policy_gen :: PolicyGen
  r_evaluation_id :: EvaluationId
  r_evaluation_gen :: EvaluationGen
  r_workload_gen :: WorkloadGen
  r_service :: ServiceId
  r_workload :: WorkloadId
  r_objective_id :: ObjectiveId
  r_objective_gen :: ObjectiveGen
  r_reason :: string

definition default_intent :: EnforcementIntent where
  "default_intent =
     \<lparr> i_action = EA_NoAction, i_cls = EC_None, i_dimension = Dim_Latency, i_objective_id = Id 0, i_objective_gen = Gen 0,
       i_service = Id 0, i_workload = Id 0, i_epoch = Gen 0, i_contract_gen = Gen 0, i_policy_gen = Gen 0,
       i_evidence_gen = Gen 0, i_evaluation_id = Id 0, i_evaluation_gen = Gen 0, i_workload_gen = Gen 0,
       i_cooldown = Duration 0, i_reason = [] \<rparr>"

definition default_receipt :: EnforcementReceipt where
  "default_receipt =
     \<lparr> r_id = Id 0, r_gen = Gen 0, r_action = EA_NoAction, r_lifecycle = EL_Proposed, r_epoch = Gen 0,
       r_contract_gen = Gen 0, r_policy_gen = Gen 0, r_evaluation_id = Id 0, r_evaluation_gen = Gen 0,
       r_workload_gen = Gen 0, r_service = Id 0, r_workload = Id 0, r_objective_id = Id 0, r_objective_gen = Gen 0,
       r_reason = [] \<rparr>"

section \<open>Paths through the lifecycle\<close>

inductive lifecycle_path :: "EnforcementLifecycle \<Rightarrow> EnforcementLifecycle list \<Rightarrow> EnforcementLifecycle \<Rightarrow> bool" where
  path_refl: "lifecycle_path l [] l"
| path_step: "enforcement_transition_legal l m \<Longrightarrow> lifecycle_path m ms n \<Longrightarrow> lifecycle_path l (m # ms) n"

inductive_cases lifecycle_path_NilE: "lifecycle_path l [] n"
inductive_cases lifecycle_path_ConsE: "lifecycle_path l (m # ms) n"
inductive_simps lifecycle_path_simps: "lifecycle_path l [] n" "lifecycle_path l (m # ms) n"

text \<open>
  Every transition strictly lowers this rank, so the table has no cycle and a receipt changes state a bounded
  number of times.
\<close>

fun lifecycle_rank :: "EnforcementLifecycle \<Rightarrow> nat" where
  "lifecycle_rank EL_Proposed = 6"
| "lifecycle_rank EL_Authorized = 5"
| "lifecycle_rank EL_Dispatched = 4"
| "lifecycle_rank EL_Acknowledged = 3"
| "lifecycle_rank EL_Effective = 2"
| "lifecycle_rank EL_OutcomeUnknown = 2"
| "lifecycle_rank EL_Failed = 1"
| "lifecycle_rank EL_Cancelled = 1"
| "lifecycle_rank EL_Superseded = 1"
| "lifecycle_rank EL_Expired = 0"

lemma transition_lowers_rank: "enforcement_transition_legal l m \<Longrightarrow> lifecycle_rank m < lifecycle_rank l"
  by (cases l) auto

lemma path_length: "lifecycle_path l ms n \<Longrightarrow> length ms + lifecycle_rank n \<le> lifecycle_rank l"
  by (induction rule: lifecycle_path.induct) (use transition_lowers_rank in fastforce)+

text \<open>The states from which no path leads to \<^verbatim>\<open>Effective\<close>.\<close>

definition withdrawn :: "EnforcementLifecycle \<Rightarrow> bool" where
  "withdrawn l \<longleftrightarrow> l \<in> {EL_Failed, EL_Cancelled, EL_Superseded, EL_Expired, EL_OutcomeUnknown}"

lemma withdrawn_step: "withdrawn l \<Longrightarrow> enforcement_transition_legal l m \<Longrightarrow> withdrawn m"
  by (cases l) (auto simp: withdrawn_def)

lemma withdrawn_path: "lifecycle_path l ms n \<Longrightarrow> withdrawn l \<Longrightarrow> withdrawn n"
  by (induction rule: lifecycle_path.induct) (auto intro: withdrawn_step)

lemma into_effective: "enforcement_transition_legal l EL_Effective \<longleftrightarrow> l = EL_Acknowledged"
  by (cases l) auto

lemma into_acknowledged: "enforcement_transition_legal l EL_Acknowledged \<longleftrightarrow> l = EL_Dispatched"
  by (cases l) auto

lemma into_dispatched: "enforcement_transition_legal l EL_Dispatched \<longleftrightarrow> l = EL_Authorized"
  by (cases l) auto

lemma into_authorized: "enforcement_transition_legal l EL_Authorized \<longleftrightarrow> l = EL_Proposed"
  by (cases l) auto

lemmas main_line = into_effective into_acknowledged into_dispatched into_authorized

lemma path_snoc: "lifecycle_path l (ms @ [m]) n \<longleftrightarrow> (\<exists>k. lifecycle_path l ms k \<and> enforcement_transition_legal k m \<and> n = m)"
  by (induction ms arbitrary: l) (auto simp: lifecycle_path_simps)

lemma path_back:
  assumes "lifecycle_path l ms m" "\<And>k. enforcement_transition_legal k m \<longleftrightarrow> k = p" "l \<noteq> m"
  shows "\<exists>ks. ms = ks @ [m] \<and> lifecycle_path l ks p"
  using assms by (cases ms rule: rev_cases) (auto simp: path_snoc lifecycle_path_simps)

lemma no_return: "lifecycle_path l ms l \<Longrightarrow> ms = []"
  using path_length by fastforce

lemma main_line_unique:
  assumes "lifecycle_path EL_Proposed ms EL_Effective"
  shows "ms = [EL_Authorized, EL_Dispatched, EL_Acknowledged, EL_Effective]"
proof -
  obtain a where a: "ms = a @ [EL_Effective]" "lifecycle_path EL_Proposed a EL_Acknowledged"
    using path_back [OF assms into_effective] by auto
  obtain b where b: "a = b @ [EL_Acknowledged]" "lifecycle_path EL_Proposed b EL_Dispatched"
    using path_back [OF a(2) into_acknowledged] by auto
  obtain c where c: "b = c @ [EL_Dispatched]" "lifecycle_path EL_Proposed c EL_Authorized"
    using path_back [OF b(2) into_dispatched] by auto
  obtain d where d: "c = d @ [EL_Authorized]" "lifecycle_path EL_Proposed d EL_Proposed"
    using path_back [OF c(2) into_authorized] by auto
  show ?thesis using a(1) b(1) c(1) d(1) no_return [OF d(2)] by simp
qed

section \<open>Properties\<close>

text \<open>
  A withdrawn enforcement never becomes effective: from \<^verbatim>\<open>Cancelled\<close>, \<^verbatim>\<open>Superseded\<close>, \<^verbatim>\<open>Failed\<close>,
  \<^verbatim>\<open>OutcomeUnknown\<close> or \<^verbatim>\<open>Expired\<close> no sequence of legal transitions reaches \<^verbatim>\<open>Effective\<close>; the only sequence
  from \<^verbatim>\<open>Proposed\<close> to \<^verbatim>\<open>Effective\<close> is authorisation, dispatch, acknowledgement, effect; and every sequence of
  legal transitions from any state has at most six steps.
\<close>

theorem effective_only_by_main_line:
  "(\<forall>ms. \<forall>l \<in> {EL_Failed, EL_Cancelled, EL_Superseded, EL_Expired, EL_OutcomeUnknown}.
      \<not> lifecycle_path l ms EL_Effective) \<and>
   (\<forall>ms. lifecycle_path EL_Proposed ms EL_Effective \<longleftrightarrow>
      ms = [EL_Authorized, EL_Dispatched, EL_Acknowledged, EL_Effective]) \<and>
   (\<forall>l ms n. lifecycle_path l ms n \<longrightarrow> length ms \<le> 6)"
proof (intro conjI allI ballI impI)
  fix l ms assume "l \<in> {EL_Failed, EL_Cancelled, EL_Superseded, EL_Expired, EL_OutcomeUnknown}"
  then show "\<not> lifecycle_path l ms EL_Effective" using withdrawn_path [of l ms EL_Effective] by (auto simp: withdrawn_def)
next
  fix ms
  show "lifecycle_path EL_Proposed ms EL_Effective \<longleftrightarrow> ms = [EL_Authorized, EL_Dispatched, EL_Acknowledged, EL_Effective]"
    using main_line_unique by (auto simp: lifecycle_path_simps)
next
  fix l ms n assume "lifecycle_path l ms n"
  moreover have "lifecycle_rank l \<le> 6" by (cases l) simp_all
  ultimately show "length ms \<le> 6" using path_length by fastforce
qed

theorem effective_only_by_main_line_witness:
  "\<not> lifecycle_path EL_Cancelled [EL_Expired, EL_Effective] EL_Effective \<and>
   lifecycle_path EL_Proposed [EL_Authorized, EL_Dispatched, EL_Acknowledged, EL_Effective] EL_Effective"
  using effective_only_by_main_line by blast

end
