(* ===== verification/Crc32.thy ===== *)
theory Crc32
  imports Prelude
begin

text \<open>
  The CRC-32 checksum (\<^verbatim>\<open>crc32.hpp\<close>): the lookup table, the table-driven loop, and what the checksum detects.
  The reference definition is the bit-serial register \<open>crc_register\<close>; the loop equals it, and because a register
  step is a bijection that commutes with exclusive-or, an error burst of at most four bytes always shows.
\<close>

unbundle bit_operations_syntax

section \<open>Table and loop\<close>

definition crc_bit :: "u32 \<Rightarrow> u32" where
  "crc_bit c = (if c AND 1 \<noteq> 0 then 0xEDB88320 XOR drop_bit 1 c else drop_bit 1 c)"

definition crc32_table :: "u32 list" where
  "crc32_table = map (\<lambda>i. (crc_bit ^^ 8) (of_nat i)) [0..<256]"

definition crc32_step :: "u32 \<Rightarrow> u8 \<Rightarrow> u32" where
  "crc32_step c b = (crc32_table ! unat ((c XOR ucast b) AND 0xFF)) XOR drop_bit 8 c"

definition crc32 :: "bytes \<Rightarrow> u32 \<Rightarrow> u32" where
  "crc32 bs seed = foldl crc32_step seed bs XOR 0xFFFFFFFF"

definition crc32_bytes :: "bytes \<Rightarrow> u32" where
  "crc32_bytes bs = crc32 bs 0xFFFFFFFF"

section \<open>Reference register\<close>

text \<open>The register takes the message one bit at a time, least significant bit first.\<close>

definition crc_register :: "u32 \<Rightarrow> u8 \<Rightarrow> u32" where
  "crc_register c b = (crc_bit ^^ 8) (c XOR ucast b)"

section \<open>Facts\<close>

lemma and_1_bit: "c AND 1 \<noteq> 0 \<longleftrightarrow> bit (c :: u32) 0"
  by (simp add: and_one_eq bit_0 odd_iff_mod_2_eq_one)

lemma crc_bit_eq: "crc_bit c = (if bit c 0 then 0xEDB88320 XOR drop_bit 1 c else drop_bit 1 c)"
  by (simp only: crc_bit_def and_1_bit)

lemma xor_cancel [simp]: "x XOR a = x XOR b \<longleftrightarrow> a = b" "a XOR x = b XOR x \<longleftrightarrow> a = (b :: 'n :: len word)"
proof -
  have "x XOR (x XOR c) = c" for c :: "'n word" by (simp add: xor.left_commute)
  then show left: "x XOR a = x XOR b \<longleftrightarrow> a = b" by metis
  then show "a XOR x = b XOR x \<longleftrightarrow> a = b" by (simp add: xor.commute)
qed

lemma crc_bit_xor: "crc_bit (a XOR b) = crc_bit a XOR crc_bit b"
proof -
  have cancel: "x XOR (y XOR (x XOR z)) = y XOR z" for x y z :: u32
    by (simp add: xor.left_commute)
  show ?thesis
    by (simp add: crc_bit_eq bit_xor_iff drop_bit_xor xor.assoc xor.left_commute cancel)
qed

lemma crc_bit_0 [simp]: "crc_bit 0 = 0"
  by (simp add: crc_bit_eq)

lemma crc_pow_xor: "(crc_bit ^^ n) (a XOR b) = (crc_bit ^^ n) a XOR (crc_bit ^^ n) b"
  by (induction n) (simp_all add: crc_bit_xor)

text \<open>While the low bits are clear the register only shifts.\<close>

lemma crc_pow_clear: "(\<And>i. i < n \<Longrightarrow> \<not> bit x i) \<Longrightarrow> (crc_bit ^^ n) x = drop_bit n x"
proof (induction n)
  case (Suc n)
  then have "(crc_bit ^^ n) x = drop_bit n x" "\<not> bit x n" by simp_all
  then show ?case using crc_bit_eq [of "drop_bit n x"] by (simp add: bit_drop_bit_eq drop_bit_drop_bit)
qed simp

lemma ff_mask: "(0xFF :: u32) = mask 8"
  by (simp add: mask_eq_exp_minus_1)

lemma crc32_step_register: "crc32_step c b = crc_register c b"
proof -
  let ?x = "c XOR ucast b"
  have split: "?x = (?x AND mask 8) XOR (?x AND NOT (mask 8))"
    by (auto simp: bit_eq_iff bit_simps)
  have "(crc_bit ^^ 8) (?x AND NOT (mask 8)) = drop_bit 8 (?x AND NOT (mask 8))"
    by (rule crc_pow_clear) (simp add: bit_simps)
  also have "\<dots> = drop_bit 8 c" by (auto simp: bit_eq_iff bit_simps dest: bit_imp_le_length)
  finally have hi: "(crc_bit ^^ 8) (?x AND NOT (mask 8)) = drop_bit 8 c" .
  have "?x AND mask 8 \<le> 0xFF" unfolding ff_mask by (rule word_and_le1)
  then have "unat (?x AND mask 8) < 256" by (simp add: word_le_nat_alt)
  then have "crc32_table ! unat (?x AND mask 8) = (crc_bit ^^ 8) (?x AND mask 8)"
    by (simp add: crc32_table_def)
  moreover have "(crc_bit ^^ 8) ?x = (crc_bit ^^ 8) (?x AND mask 8) XOR drop_bit 8 c"
    by (subst split) (simp add: crc_pow_xor hi)
  ultimately show ?thesis unfolding crc32_step_def crc_register_def ff_mask by simp
qed

text \<open>A register step loses nothing: the top bit of the polynomial tells which branch was taken.\<close>

lemma crc_bit_top: "bit (crc_bit c) 31 \<longleftrightarrow> bit c 0"
  by (auto simp: crc_bit_eq bit_simps dest: bit_imp_le_length)

lemma crc_bit_inj: "inj crc_bit"
proof (rule injI)
  fix a b :: u32 assume eq: "crc_bit a = crc_bit b"
  then have low: "bit a 0 = bit b 0" using crc_bit_top by metis
  with eq have "drop_bit 1 a = drop_bit 1 b"
    by (auto simp: crc_bit_eq split: if_splits)
  then have "bit (drop_bit 1 a) i = bit (drop_bit 1 b) i" for i by simp
  then have "bit a (Suc i) = bit b (Suc i)" for i by (simp add: bit_drop_bit_eq)
  with low have "bit a i = bit b i" for i by (cases i) simp_all
  then show "a = b" by (simp add: bit_eq_iff)
qed

lemma crc_pow_inj: "(crc_bit ^^ n) a = (crc_bit ^^ n) b \<longleftrightarrow> a = b"
  by (induction n) (auto dest: injD [OF crc_bit_inj])

subsection \<open>Short messages enter the register at once\<close>

fun le_word :: "bytes \<Rightarrow> u32" where
  "le_word [] = 0"
| "le_word (b # bs) = ucast b XOR push_bit 8 (le_word bs)"

lemma le_word_high: "length bs \<le> 4 \<Longrightarrow> 8 * length bs \<le> i \<Longrightarrow> \<not> bit (le_word bs) i"
proof (induction bs arbitrary: i)
  case (Cons b bs)
  then show ?case by (auto simp: bit_simps dest: bit_imp_le_length)
qed simp

lemma crc_run_short:
  "length bs \<le> 4 \<Longrightarrow> foldl crc32_step c bs = (crc_bit ^^ (8 * length bs)) (c XOR le_word bs)"
proof (induction bs arbitrary: c)
  case (Cons b bs)
  let ?w = "le_word bs"
  have "bit ?w n \<Longrightarrow> n < 24" for n
    using le_word_high [of bs n] Cons.prems by (cases "n < 24") auto
  then have "drop_bit 8 (push_bit 8 ?w) = ?w" by (auto simp: bit_eq_iff bit_simps)
  moreover have "(crc_bit ^^ 8) (push_bit 8 ?w) = drop_bit 8 (push_bit 8 ?w)"
    by (rule crc_pow_clear) (simp add: bit_simps)
  ultimately have w: "(crc_bit ^^ 8) (push_bit 8 ?w) = ?w" by simp
  have "foldl crc32_step c (b # bs) = (crc_bit ^^ (8 * length bs)) (crc_register c b XOR ?w)"
    using Cons.IH [of "crc_register c b"] Cons.prems by (simp add: crc32_step_register [of c b])
  also have "crc_register c b XOR ?w = (crc_bit ^^ 8) ((c XOR ucast b) XOR push_bit 8 ?w)"
    by (simp only: crc_register_def crc_pow_xor w)
  finally show ?case by (simp add: funpow_add [symmetric, THEN fun_cong, simplified] xor.assoc add.commute)
qed simp

lemma le_word_inj: "length a = length b \<Longrightarrow> length a \<le> 4 \<Longrightarrow> le_word a = le_word b \<Longrightarrow> a = b"
proof (induction a b rule: list_induct2)
  case (Cons x xs y ys)
  have bits: "bit x i = bit y i" for i
  proof (cases "i < 8")
    case True
    have "bit (le_word (x # xs)) i = bit (le_word (y # ys)) i" using Cons.prems by simp
    with True show ?thesis by (simp add: bit_simps)
  qed (auto dest: bit_imp_le_length)
  then have "x = y" by (simp add: bit_eq_iff)
  moreover have "bit (le_word xs) i = bit (le_word ys) i" for i
  proof (cases "i < 24")
    case True
    have "bit (le_word (x # xs)) (8 + i) = bit (le_word (y # ys)) (8 + i)" using Cons.prems by simp
    with True bits show ?thesis by (auto simp: bit_simps)
  next
    case False
    then show ?thesis using le_word_high [of xs i] le_word_high [of ys i] Cons by simp
  qed
  ultimately show ?case using Cons by (simp add: bit_eq_iff)
qed simp

lemma crc_run_inj: "foldl crc32_step c bs = foldl crc32_step c' bs \<longleftrightarrow> c = c'"
proof (induction bs arbitrary: c c')
  case (Cons b bs)
  have "crc32_step c b = crc32_step c' b \<longleftrightarrow> c = c'"
    by (simp add: crc32_step_register crc_register_def crc_pow_inj)
  with Cons show ?case by simp
qed simp

text \<open>The register separates any two messages that differ only in a burst of at most four bytes.\<close>

lemma burst_detected:
  assumes "length v = length v'" "length v \<le> 4" "v \<noteq> v'"
  shows "foldl crc32_step c (u @ v @ w) \<noteq> foldl crc32_step c (u @ v' @ w)"
  using assms le_word_inj [of v v'] by (auto simp: crc_run_inj crc_run_short crc_pow_inj)

subsection \<open>The message as a stream of bits\<close>

text \<open>Division by the reflected polynomial: one shift per message bit, with feedback when the bit leaving the register differs from it.\<close>

definition serial_step :: "u32 \<Rightarrow> bool \<Rightarrow> u32" where
  "serial_step c b = drop_bit 1 c XOR (if bit c 0 \<noteq> b then 0xEDB88320 else 0)"

definition message_bits :: "bytes \<Rightarrow> bool list" where
  "message_bits bs = concat (map (\<lambda>b. map (bit b) [0..<8]) bs)"

lemma register_serial_prefix:
  "(crc_bit ^^ n) (c XOR ucast b) = foldl serial_step c (map (bit (b :: u8)) [0..<n]) XOR drop_bit n (ucast b)"
proof (induction n)
  case (Suc n)
  let ?x = "foldl serial_step c (map (bit b) [0..<n])"
  have low: "bit (?x XOR drop_bit n (ucast b)) 0 \<longleftrightarrow> bit ?x 0 \<noteq> bit b n"
    by (auto simp: bit_simps dest: bit_imp_le_length)
  have "crc_bit (?x XOR drop_bit n (ucast b)) = serial_step ?x (bit b n) XOR drop_bit (Suc n) (ucast b)"
    unfolding crc_bit_eq serial_step_def low
    by (simp add: drop_bit_xor drop_bit_drop_bit xor.assoc xor.commute xor.left_commute)
  then show ?case by (simp add: Suc)
qed simp

lemma register_serial: "crc_register c b = foldl serial_step c (map (bit b) [0..<8])"
proof -
  have "drop_bit 8 (ucast b :: u32) = 0" by (rule bit_word_eqI) (auto simp: bit_simps dest: bit_imp_le_length)
  then show ?thesis using register_serial_prefix [of 8 c b] by (simp add: crc_register_def)
qed

lemma run_serial: "foldl crc32_step c bs = foldl serial_step c (message_bits bs)"
  by (induction bs arbitrary: c) (simp_all add: message_bits_def crc32_step_register register_serial)

section \<open>Properties\<close>

text \<open>
  Property C18.  The table-driven checksum is the textbook one: it equals the bit-serial division of the message, least
  significant bit first, by the reflected polynomial EDB88320, with the final complement; and on the standard test
  message, the digits 1 to 9, it is CBF43926.
\<close>

theorem crc32_is_bit_serial:
  "crc32 bs seed = foldl serial_step seed (message_bits bs) XOR 0xFFFFFFFF \<and>
   crc32_bytes [0x31, 0x32, 0x33, 0x34, 0x35, 0x36, 0x37, 0x38, 0x39] = 0xCBF43926"
proof
  show "crc32 bs seed = foldl serial_step seed (message_bits bs) XOR 0xFFFFFFFF" by (simp add: crc32_def run_serial)
  have "foldl serial_step 0xFFFFFFFF (message_bits [0x31, 0x32, 0x33, 0x34, 0x35, 0x36, 0x37, 0x38, 0x39]) XOR 0xFFFFFFFF = 0xCBF43926"
    by code_simp
  then show "crc32_bytes [0x31, 0x32, 0x33, 0x34, 0x35, 0x36, 0x37, 0x38, 0x39] = 0xCBF43926"
    by (simp only: crc32_bytes_def crc32_def run_serial)
qed

end
