(* ===== verification/Binary.thy ===== *)
theory Binary
  imports Crc32
begin

text \<open>
  The binary format (\<^verbatim>\<open>binary.hpp\<close>).  A \<^verbatim>\<open>ByteWriter\<close> only appends to its buffer, so each of its operations is the
  list of bytes it appends; a \<^verbatim>\<open>ByteReader\<close> is the data with a position, and each of its operations returns the
  value and the advanced reader, or \<open>None\<close> where the code returns \<^verbatim>\<open>false\<close>.  The bounds test \<open>need\<close> keeps the
  64-bit wrap of \<^verbatim>\<open>pos_ + n\<close>.

  The locale \<open>codec\<close> states what a pair of an encoder and a decoder promises: a well-formed value reads back from
  its encoding whatever surrounds it, a decoder stays inside the data, and it returns only well-formed values.
\<close>

section \<open>Writer\<close>

definition write_u8 :: "u8 \<Rightarrow> bytes" where
  "write_u8 v = [v]"

definition write_bool :: "bool \<Rightarrow> bytes" where
  "write_bool v = write_u8 (if v then 1 else 0)"

definition write_u16 :: "u16 \<Rightarrow> bytes" where
  "write_u16 v = [ucast v, ucast (drop_bit 8 v)]"

definition write_u32 :: "u32 \<Rightarrow> bytes" where
  "write_u32 v = map (\<lambda>i. ucast (drop_bit (8 * i) v AND 0xFF)) [0, 1, 2, 3]"

definition write_i32 :: "int \<Rightarrow> bytes" where
  "write_i32 v = write_u32 (word_of_int v)"

definition write_u64 :: "u64 \<Rightarrow> bytes" where
  "write_u64 v = map (\<lambda>i. ucast (drop_bit (8 * i) v AND 0xFF)) [0, 1, 2, 3, 4, 5, 6, 7]"

definition write_i64 :: "int \<Rightarrow> bytes" where
  "write_i64 v = write_u64 (word_of_int v)"

definition write_string :: "string \<Rightarrow> bytes" where
  "write_string s = write_u64 (of_nat (length s)) @ map byte_of_char s"

definition write_raw :: "bytes \<Rightarrow> bytes" where
  "write_raw b = write_u64 (of_nat (length b)) @ b"

section \<open>Reader\<close>

record ByteReader =
  br_data :: bytes
  br_pos :: int

type_synonym 'a read = "ByteReader \<Rightarrow> ('a \<times> ByteReader) option"

definition reader_from :: "bytes \<Rightarrow> ByteReader" where
  "reader_from v = \<lparr> br_data = v, br_pos = 0 \<rparr>"

definition br_size :: "ByteReader \<Rightarrow> int" where
  "br_size r = int (length (br_data r))"

definition need :: "int \<Rightarrow> ByteReader \<Rightarrow> bool" where
  "need n r \<longleftrightarrow> (br_pos r + n) mod 18446744073709551616 \<le> br_size r \<and> br_pos r \<le> br_size r \<and> n \<le> br_size r - br_pos r"

definition remaining :: "ByteReader \<Rightarrow> int" where
  "remaining r = br_size r - br_pos r"

definition exhausted :: "ByteReader \<Rightarrow> bool" where
  "exhausted r \<longleftrightarrow> br_pos r = br_size r"

definition read_bytes :: "int \<Rightarrow> bytes read" where
  "read_bytes n r =
     (if \<not> need n r then None
      else Some (take (nat n) (drop (nat (br_pos r)) (br_data r)), r\<lparr> br_pos := br_pos r + n \<rparr>))"

definition read_u8 :: "u8 read" where
  "read_u8 r =
     (if \<not> need 1 r then None else Some (br_data r ! nat (br_pos r), r\<lparr> br_pos := br_pos r + 1 \<rparr>))"

definition read_bool :: "bool read" where
  "read_bool r = do { (v, r) \<leftarrow> read_u8 r; Some (v \<noteq> 0, r) }"

definition read_u16 :: "u16 read" where
  "read_u16 r = do { (b, r) \<leftarrow> read_bytes 2 r; Some (ucast (b ! 0) OR push_bit 8 (ucast (b ! 1)), r) }"

definition read_u32 :: "u32 read" where
  "read_u32 r = do { (b, r) \<leftarrow> read_bytes 4 r;
     Some (foldl (\<lambda>out i. out OR push_bit (8 * i) (ucast (b ! i))) 0 [0, 1, 2, 3], r) }"

definition read_i32 :: "int read" where
  "read_i32 r = do { (u, r) \<leftarrow> read_u32 r; Some (i32_of_word u, r) }"

definition read_u64 :: "u64 read" where
  "read_u64 r = do { (b, r) \<leftarrow> read_bytes 8 r;
     Some (foldl (\<lambda>out i. out OR push_bit (8 * i) (ucast (b ! i))) 0 [0, 1, 2, 3, 4, 5, 6, 7], r) }"

definition read_i64 :: "int read" where
  "read_i64 r = do { (u, r) \<leftarrow> read_u64 r; Some (i64_of_word u, r) }"

definition read_raw :: "int \<Rightarrow> bytes read" where
  "read_raw max_len r = do { (n, r) \<leftarrow> read_u64 r; if max_len < uint n then None else read_bytes (uint n) r }"

definition read_string :: "int \<Rightarrow> string read" where
  "read_string max_len r = do { (n, r) \<leftarrow> read_u64 r;
     if max_len < uint n then None
     else do { (b, r) \<leftarrow> read_bytes (uint n) r; Some (map char_of_byte b, r) } }"

section \<open>Enumerations\<close>

text \<open>
  \<^verbatim>\<open>static_cast\<close> between a byte and an enumeration, given the enumerators in the order of declaration.
\<close>

definition enum_code :: "'e list \<Rightarrow> 'e \<Rightarrow> u8" where
  "enum_code es e = of_nat (length (takeWhile (\<lambda>x. x \<noteq> e) es))"

definition enum_cast :: "'e list \<Rightarrow> u8 \<Rightarrow> 'e" where
  "enum_cast es b = es ! unat b"

definition read_enum :: "u8 \<Rightarrow> (u8 \<Rightarrow> 'e) \<Rightarrow> 'e read" where
  "read_enum lim cast r = do { (b, r) \<leftarrow> read_u8 r; if lim < b then None else Some (cast b, r) }"

section \<open>Lists\<close>

fun read_items :: "'a read \<Rightarrow> nat \<Rightarrow> 'a list read" where
  "read_items item 0 r = Some ([], r)"
| "read_items item (Suc n) r = do { (x, r) \<leftarrow> item r; (xs, r) \<leftarrow> read_items item n r; Some (x # xs, r) }"

section \<open>Facts\<close>

subsection \<open>Little-endian words\<close>

lemma ff_mask64: "(0xFF :: u64) = mask 8"
  by (simp add: mask_eq_exp_minus_1)

lemma le_byte: "(ucast (drop_bit k v AND mask 8 :: 'n :: len word) :: u8) = ucast (drop_bit k v)"
  by (auto simp: bit_eq_iff bit_simps dest: bit_imp_le_length)

lemma le16: "(ucast (ucast v :: u8) :: u16) OR push_bit 8 (ucast (ucast (drop_bit 8 v) :: u8)) = v"
  by (rule bit_word_eqI) (auto simp: bit_simps)

lemma le_join:
  "push_bit k (ucast (ucast (drop_bit k v) :: u8) :: 'n :: len word) = v AND push_bit k (mask 8)"
  by (rule bit_word_eqI) (auto simp: bit_simps)

lemma le_first: "(ucast (ucast v :: u8) :: 'n :: len word) = v AND mask 8"
  by (rule bit_word_eqI) (auto simp: bit_simps)

lemma le_extend: "v AND mask k OR v AND push_bit k (mask 8) = v AND mask (k + 8)" for v :: "'n :: len word"
  by (rule bit_word_eqI) (auto simp: bit_simps)

lemmas le_extends = le_extend [where k = 8, simplified] le_extend [where k = 16, simplified]
  le_extend [where k = 24, simplified] le_extend [where k = 32, simplified] le_extend [where k = 40, simplified]
  le_extend [where k = 48, simplified] le_extend [where k = 56, simplified]

lemma mask_all: "(v :: u32) AND mask 32 = v" "(w :: u64) AND mask 64 = w"
  by (rule bit_word_eqI, simp add: bit_simps)+

lemma length_writes [simp]:
  "length (write_u8 a) = 1" "length (write_bool b) = 1" "length (write_u16 c) = 2" "length (write_u32 d) = 4"
  "length (write_i32 i) = 4" "length (write_u64 e) = 8" "length (write_i64 j) = 8"
  by (simp_all add: write_u8_def write_bool_def write_u16_def write_u32_def write_i32_def write_u64_def write_i64_def)

lemma join32: "foldl (\<lambda>out i. out OR push_bit (8 * i) (ucast (write_u32 v ! i))) 0 [0, 1, 2, 3] = v"
  by (simp add: write_u32_def ff_mask le_byte le_join) (simp add: le_first le_extends mask_all)

lemma join64: "foldl (\<lambda>out i. out OR push_bit (8 * i) (ucast (write_u64 v ! i))) 0 [0, 1, 2, 3, 4, 5, 6, 7] = v"
  by (simp add: write_u64_def ff_mask64 le_byte le_join) (simp add: le_first le_extends mask_all)

subsection \<open>Readers in the middle of the data\<close>

text \<open>
  \<open>at pre rest\<close> is a reader that has consumed \<open>pre\<close> and has \<open>rest\<close> in front of it; \<open>fits\<close> says that the data is
  shorter than the address space, as every C++ array is.
\<close>

definition at :: "bytes \<Rightarrow> bytes \<Rightarrow> ByteReader" where
  "at pre rest = \<lparr> br_data = pre @ rest, br_pos = int (length pre) \<rparr>"

definition fits :: "bytes \<Rightarrow> bytes \<Rightarrow> bool" where
  "fits pre rest \<longleftrightarrow> int (length (pre @ rest)) < 18446744073709551616"

lemma fits_move [simp]: "fits (pre @ a) rest = fits pre (a @ rest)"
  by (simp add: fits_def)

lemma at_Nil: "reader_from v = at [] v"
  by (simp add: reader_from_def at_def)

lemma need_at [simp]: "fits pre rest \<Longrightarrow> 0 \<le> n \<Longrightarrow> need n (at pre rest) \<longleftrightarrow> n \<le> int (length rest)"
  by (auto simp: need_def at_def fits_def br_size_def mod_pos_pos_trivial)

lemma exhausted_at [simp]: "exhausted (at pre rest) \<longleftrightarrow> rest = []"
  by (simp add: exhausted_def at_def br_size_def)

lemma read_bytes_at:
  "fits pre (b @ rest) \<Longrightarrow> read_bytes (int (length b)) (at pre (b @ rest)) = Some (b, at (pre @ b) rest)"
  by (simp add: read_bytes_def) (simp add: at_def)

lemma read_u8_at [codec_simps]:
  "fits pre (write_u8 v @ rest) \<Longrightarrow> read_u8 (at pre (write_u8 v @ rest)) = Some (v, at (pre @ write_u8 v) rest)"
  by (simp add: read_u8_def) (simp add: at_def write_u8_def)

lemma read_bool_at [codec_simps]:
  "fits pre (write_bool v @ rest) \<Longrightarrow> read_bool (at pre (write_bool v @ rest)) = Some (v, at (pre @ write_bool v) rest)"
  by (simp add: read_bool_def write_bool_def codec_simps)

lemma read_u16_at [codec_simps]:
  "fits pre (write_u16 v @ rest) \<Longrightarrow> read_u16 (at pre (write_u16 v @ rest)) = Some (v, at (pre @ write_u16 v) rest)"
  using read_bytes_at [of pre "write_u16 v" rest] by (simp add: read_u16_def) (simp add: write_u16_def le16)

lemma read_u32_at [codec_simps]:
  "fits pre (write_u32 v @ rest) \<Longrightarrow> read_u32 (at pre (write_u32 v @ rest)) = Some (v, at (pre @ write_u32 v) rest)"
  using read_bytes_at [of pre "write_u32 v" rest] join32 [of v] by (simp add: read_u32_def)

lemma read_u64_at [codec_simps]:
  "fits pre (write_u64 v @ rest) \<Longrightarrow> read_u64 (at pre (write_u64 v @ rest)) = Some (v, at (pre @ write_u64 v) rest)"
  using read_bytes_at [of pre "write_u64 v" rest] join64 [of v] by (simp add: read_u64_def)

lemma read_i32_at [codec_simps]:
  "fits pre (write_i32 v @ rest) \<Longrightarrow> in_i32 v \<Longrightarrow>
     read_i32 (at pre (write_i32 v @ rest)) = Some (v, at (pre @ write_i32 v) rest)"
  by (simp add: read_i32_def write_i32_def codec_simps)

lemma read_i64_at [codec_simps]:
  "fits pre (write_i64 v @ rest) \<Longrightarrow> in_i64 v \<Longrightarrow>
     read_i64 (at pre (write_i64 v @ rest)) = Some (v, at (pre @ write_i64 v) rest)"
  by (simp add: read_i64_def write_i64_def codec_simps)

lemma uint_length: "fits pre (b @ rest) \<Longrightarrow> uint (of_nat (length b) :: u64) = int (length b)"
  by (simp add: fits_def uint_nat unat_of_nat zmod_int)

lemma read_raw_at [codec_simps]:
  "fits pre (write_raw b @ rest) \<Longrightarrow> int (length b) \<le> lim \<Longrightarrow>
     read_raw lim (at pre (write_raw b @ rest)) = Some (b, at (pre @ write_raw b) rest)"
  using uint_length [of "pre @ write_u64 (of_nat (length b))" b rest]
    read_bytes_at [of "pre @ write_u64 (of_nat (length b))" b rest]
  by (simp add: read_raw_def write_raw_def codec_simps)

lemma read_string_at [codec_simps]:
  "fits pre (write_string s @ rest) \<Longrightarrow> int (length s) \<le> lim \<Longrightarrow>
     read_string lim (at pre (write_string s @ rest)) = Some (s, at (pre @ write_string s) rest)"
  using uint_length [of "pre @ write_u64 (of_nat (length s))" "map byte_of_char s" rest]
    read_bytes_at [of "pre @ write_u64 (of_nat (length s))" "map byte_of_char s" rest]
  by (simp add: read_string_def write_string_def codec_simps comp_def)

lemma read_enum_at [codec_simps]:
  "fits pre (write_u8 (code e) @ rest) \<Longrightarrow> cast (code e) = e \<Longrightarrow> code e \<le> lim \<Longrightarrow>
     read_enum lim cast (at pre (write_u8 (code e) @ rest)) = Some (e, at (pre @ write_u8 (code e)) rest)"
  by (simp add: read_enum_def read_u8_at)

lemma enum_code_less:
  assumes "e \<in> set es" "length es \<le> 256"
  shows "unat (enum_code es e) < length es" "es ! unat (enum_code es e) = e"
proof -
  let ?k = "length (takeWhile (\<lambda>x. x \<noteq> e) es)"
  have k: "?k < length es" using assms(1) by (induction es) auto
  then have "unat (of_nat ?k :: u8) = ?k" using assms(2) by (simp add: unat_of_nat)
  with k show "unat (enum_code es e) < length es" "es ! unat (enum_code es e) = e"
    using nth_length_takeWhile [of "\<lambda>x. x \<noteq> e" es] by (simp_all add: enum_code_def)
qed

lemma enum_roundtrip:
  assumes "e \<in> set es" "length es \<le> 256"
  shows "enum_cast es (enum_code es e) = e" "unat (enum_code es e) < length es"
  using enum_code_less [OF assms] by (simp_all add: enum_cast_def)

subsection \<open>Decoders stay in bounds and validate\<close>

definition in_bounds :: "ByteReader \<Rightarrow> bool" where
  "in_bounds r \<longleftrightarrow> 0 \<le> br_pos r \<and> br_pos r \<le> br_size r"

definition forward :: "ByteReader \<Rightarrow> ByteReader \<Rightarrow> bool" where
  "forward r r' \<longleftrightarrow> br_data r' = br_data r \<and> br_pos r \<le> br_pos r' \<and> in_bounds r'"

definition with_suffix :: "bytes \<Rightarrow> ByteReader \<Rightarrow> ByteReader" where
  "with_suffix ext r = r\<lparr> br_data := br_data r @ ext \<rparr>"

text \<open>
  \<open>reads p P\<close>: from a reader in bounds, \<open>p\<close> only moves forward inside the same data, its value satisfies \<open>P\<close>, and
  bytes appended behind the data do not change what it returns.
\<close>

definition stable :: "'a read \<Rightarrow> ByteReader \<Rightarrow> 'a \<Rightarrow> ByteReader \<Rightarrow> bool" where
  "stable p r x r' \<longleftrightarrow>
     (\<forall>ext. br_size (with_suffix ext r) < 18446744073709551616 \<longrightarrow> p (with_suffix ext r) = Some (x, with_suffix ext r'))"

definition reads :: "'a read \<Rightarrow> ('a \<Rightarrow> bool) \<Rightarrow> bool" where
  "reads p P \<longleftrightarrow> (\<forall>r x r'. in_bounds r \<longrightarrow> p r = Some (x, r') \<longrightarrow> P x \<and> forward r r' \<and> stable p r x r')"

named_theorems reads_intros \<open>rules that build the judgement of a decoder from its parts\<close>

lemma readsD: "reads p P \<Longrightarrow> in_bounds r \<Longrightarrow> p r = Some (x, r') \<Longrightarrow> P x \<and> forward r r' \<and> stable p r x r'"
  by (simp add: reads_def)

lemma readsI:
  "(\<And>r x r'. in_bounds r \<Longrightarrow> p r = Some (x, r') \<Longrightarrow> P x \<and> forward r r' \<and> stable p r x r') \<Longrightarrow> reads p P"
  by (simp add: reads_def)

lemma forward_trans: "forward r s \<Longrightarrow> forward s t \<Longrightarrow> forward r t"
  by (auto simp: forward_def)

lemma forward_in_bounds: "forward r s \<Longrightarrow> in_bounds s"
  by (simp add: forward_def)

lemma reads_mono: "reads p P \<Longrightarrow> (\<And>x. P x \<Longrightarrow> Q x) \<Longrightarrow> reads p Q"
  by (rule readsI) (drule (2) readsD, simp)

lemma reads_bind [reads_intros]:
  assumes "reads p Q" "\<And>x. Q x \<Longrightarrow> reads (f x) P"
  shows "reads (\<lambda>r. p r \<bind> (\<lambda>(x, r). f x r)) P"
proof (rule readsI)
  fix r y r'' assume r: "in_bounds r" and y: "p r \<bind> (\<lambda>(x, r). f x r) = Some (y, r'')"
  obtain x r' where 1: "p r = Some (x, r')" "f x r' = Some (y, r'')"
    using y by (cases "p r") auto
  have p: "Q x" "forward r r'" "stable p r x r'" using readsD [OF assms(1) r 1(1)] by simp_all
  have f: "P y" "forward r' r''" "stable (f x) r' y r''"
    using readsD [OF assms(2) forward_in_bounds 1(2)] p by simp_all
  have "br_size (with_suffix ext r') = br_size (with_suffix ext r)" for ext
    using p(2) by (simp add: forward_def br_size_def with_suffix_def)
  then have "stable (\<lambda>r. p r \<bind> (\<lambda>(x, r). f x r)) r y r''" using p(3) f(3) by (simp add: stable_def)
  then show "P y \<and> forward r r'' \<and> stable (\<lambda>r. p r \<bind> (\<lambda>(x, r). f x r)) r y r''"
    using f(1) forward_trans [OF p(2) f(2)] by simp
qed

lemma reads_if [reads_intros]: "(\<not> c \<Longrightarrow> reads p P) \<Longrightarrow> reads (\<lambda>r. if c then None else p r) P"
  by (simp add: reads_def stable_def)

lemma reads_if_else [reads_intros]:
  "(c \<Longrightarrow> reads p P) \<Longrightarrow> (\<not> c \<Longrightarrow> reads q P) \<Longrightarrow> reads (\<lambda>r. if c then p r else q r) P"
  by (simp add: reads_def stable_def)

lemma reads_return [reads_intros]: "P x \<Longrightarrow> reads (\<lambda>r. Some (x, r)) P"
  by (simp add: reads_def forward_def stable_def)

lemma reads_None [reads_intros]: "reads (\<lambda>r. None) P"
  by (simp add: reads_def)

lemma need_suffix:
  "in_bounds r \<Longrightarrow> need n r \<Longrightarrow> br_size (with_suffix ext r) < 18446744073709551616 \<Longrightarrow> 0 \<le> n \<Longrightarrow> need n (with_suffix ext r)"
  by (auto simp: need_def in_bounds_def with_suffix_def br_size_def mod_pos_pos_trivial)

lemma need_bounds: "in_bounds r \<Longrightarrow> need n r \<Longrightarrow> 0 \<le> n \<Longrightarrow> nat (br_pos r) + nat n \<le> length (br_data r)"
  unfolding need_def in_bounds_def br_size_def by linarith

lemma reads_bytes [reads_intros]: "0 \<le> n \<Longrightarrow> reads (read_bytes n) (\<lambda>b. int (length b) = n)"
proof (rule readsI)
  fix r x r' assume n: "0 \<le> n" and r: "in_bounds r" and x: "read_bytes n r = Some (x, r')"
  then have need: "need n r" by (simp add: read_bytes_def split: if_splits)
  have "int (length x) = n \<and> forward r r'"
    using n r x need by (auto simp: read_bytes_def need_def in_bounds_def forward_def br_size_def split: if_splits)
  moreover have "stable (read_bytes n) r x r'"
    using n r x need need_bounds [OF r need n] need_suffix [OF r need]
    by (auto simp: stable_def read_bytes_def) (simp_all add: with_suffix_def)
  ultimately show "int (length x) = n \<and> forward r r' \<and> stable (read_bytes n) r x r'" by simp
qed

lemma reads_u8 [reads_intros]: "reads read_u8 (\<lambda>_. True)"
proof (rule readsI)
  fix r x r' assume r: "in_bounds r" and x: "read_u8 r = Some (x, r')"
  then have need: "need 1 r" by (simp add: read_u8_def split: if_splits)
  have "forward r r'"
    using r x need by (auto simp: read_u8_def need_def in_bounds_def forward_def br_size_def split: if_splits)
  moreover have "stable read_u8 r x r'"
    using r x need need_bounds [OF r need] need_suffix [OF r need]
    by (auto simp: stable_def read_u8_def) (simp_all add: with_suffix_def nth_append)
  ultimately show "True \<and> forward r r' \<and> stable read_u8 r x r'" by simp
qed

lemma reads_bool [reads_intros]: "reads read_bool (\<lambda>_. True)"
  unfolding read_bool_def by (rule reads_intros | simp)+

lemma reads_u16 [reads_intros]: "reads read_u16 (\<lambda>_. True)"
  unfolding read_u16_def by (rule reads_intros | simp)+

lemma reads_u32 [reads_intros]: "reads read_u32 (\<lambda>_. True)"
  unfolding read_u32_def by (rule reads_intros | simp)+

lemma reads_u64 [reads_intros]: "reads read_u64 (\<lambda>_. True)"
  unfolding read_u64_def by (rule reads_intros | simp)+

lemma reads_i64 [reads_intros]: "reads read_i64 in_i64"
  unfolding read_i64_def by (rule reads_intros | simp)+

lemma in_i32_of_word: "in_i32 (i32_of_word w)"
proof -
  have "uint w < 4294967296" "0 \<le> uint w" using uint_bounded [of w] by simp_all
  then show ?thesis unfolding in_i32_def i32_of_word_def by arith
qed

lemma reads_i32 [reads_intros]: "reads read_i32 in_i32"
  unfolding read_i32_def by (rule reads_intros | simp add: in_i32_of_word)+

lemma reads_raw [reads_intros]: "reads (read_raw lim) (\<lambda>b. int (length b) \<le> lim)"
  unfolding read_raw_def
  by (rule reads_bind [OF reads_u64] reads_if reads_mono [OF reads_bytes] | simp)+

lemma reads_string [reads_intros]: "reads (read_string lim) (\<lambda>s. int (length s) \<le> lim)"
  unfolding read_string_def by (rule reads_intros | simp)+

lemma reads_enum [reads_intros]: "reads (read_enum lim cast) (\<lambda>e. \<exists>b \<le> lim. e = cast b)"
  unfolding read_enum_def by (rule reads_intros | auto simp: not_less)+

lemma reads_items: "reads item P \<Longrightarrow> reads (read_items item n) (\<lambda>xs. length xs = n \<and> (\<forall>x \<in> set xs. P x))"
proof (induction n)
  case 0
  show ?case by (simp add: reads_def forward_def stable_def)
next
  case (Suc n)
  note IH = Suc.IH [OF Suc.prems]
  show ?case unfolding read_items.simps
    by (rule reads_bind [OF Suc.prems] reads_bind [OF IH] reads_return | simp)+
qed

section \<open>The contract of a codec\<close>

locale codec =
  fixes enc :: "'a \<Rightarrow> bytes" and dec :: "'a read" and wf :: "'a \<Rightarrow> bool"
  assumes decode_encode:
      "wf x \<Longrightarrow> fits pre (enc x @ rest) \<Longrightarrow> dec (at pre (enc x @ rest)) = Some (x, at (pre @ enc x) rest)"
    and decode_reads: "reads dec wf"
begin

lemma encode_prefix_free:
  assumes "wf x" "wf y" "enc x @ a = enc y @ b" "fits [] (enc x @ a)"
  shows "x = y \<and> a = b"
proof -
  have "dec (at [] (enc x @ a)) = Some (x, at (enc x) a)" "dec (at [] (enc y @ b)) = Some (y, at (enc y) b)"
    using decode_encode [of x "[]" a] decode_encode [of y "[]" b] assms by simp_all
  with assms(3) show ?thesis by simp
qed

lemma items_decode:
  "\<forall>x \<in> set xs. wf x \<Longrightarrow> fits pre (concat (map enc xs) @ rest) \<Longrightarrow>
     read_items dec (length xs) (at pre (concat (map enc xs) @ rest)) = Some (xs, at (pre @ concat (map enc xs)) rest)"
proof (induction xs arbitrary: pre)
  case (Cons x xs)
  then show ?case using decode_encode [of x pre "concat (map enc xs) @ rest"] by simp
qed simp

lemma items_reads: "reads (read_items dec n) (\<lambda>xs. length xs = n \<and> (\<forall>x \<in> set xs. wf x))"
  using decode_reads by (rule reads_items)

end

interpretation u64: codec write_u64 read_u64 "\<lambda>_. True"
  by unfold_locales (simp_all add: codec_simps reads_intros)

interpretation i64: codec write_i64 read_i64 in_i64
  by unfold_locales (simp_all add: codec_simps reads_intros)

interpretation str: codec write_string "read_string lim" "\<lambda>s. int (length s) \<le> lim" for lim
  by unfold_locales (simp_all add: codec_simps reads_intros)

interpretation raw: codec write_raw "read_raw lim" "\<lambda>b. int (length b) \<le> lim" for lim
  by unfold_locales (simp_all add: codec_simps reads_intros)

end
