(* ===== verification/Codecs.thy ===== *)
theory Codecs
  imports Enforcement Binary
begin

text \<open>
  The record codecs of \<^verbatim>\<open>persistence.cpp\<close>: one encoder and one decoder per persisted type, the well-formedness
  that the decoder checks, and the interpretation of the \<open>codec\<close> contract on each pair.  \<^verbatim>\<open>write_pod\<close> of a \<^verbatim>\<open>double\<close>
  copies its object representation; the model is the little-endian one of the supported targets.
\<close>

section \<open>Enumerators in the order of declaration\<close>

definition dimensions :: "Dimension list" where
  "dimensions = [Dim_Latency, Dim_Availability, Dim_Throughput, Dim_RecoveryTime, Dim_MemoryPressure, Dim_Cost]"

definition objective_kinds :: "ObjectiveKind list" where
  "objective_kinds = [K_LatencyMean, K_LatencyPercentile, K_LatencyMaxDeadline, K_AvailabilityTime, K_AvailabilityRequest, K_ThroughputRate,
     K_RecoveryMaxDuration, K_MemoryPressureMax, K_MemoryMinHeadroom, K_CostPerRequest, K_CostPerToken, K_CostWindowBudget]"

definition comparisons :: "Comparison list" where
  "comparisons = [AtMost, AtLeast]"

definition hardsofts :: "HardSoft list" where
  "hardsofts = [Hard, Soft]"

definition enforcement_classes :: "EnforcementClass list" where
  "enforcement_classes = [EC_None, EC_Advisory, EC_Authorized, EC_Mandatory]"

definition window_types :: "WindowType list" where
  "window_types = [WT_Instantaneous, WT_Sliding, WT_Tumbling, WT_FixedInterval, WT_RollingCount]"

definition availability_modes :: "AvailabilityMode list" where
  "availability_modes = [AM_Time, AM_Requests]"

definition rate_tags :: "RateTag list" where
  "rate_tags = [RT_Requests, RT_Tokens, RT_Bytes, RT_Operations]"

definition contract_lifecycles :: "ContractLifecycle list" where
  "contract_lifecycles = [CL_Draft, CL_Active, CL_Superseded, CL_Suspended, CL_Expired, CL_Retired]"

definition policy_modes :: "PolicyMode list" where
  "policy_modes = [PM_Lexicographic, PM_HardThenSoft]"

definition tie_breaks :: "TieBreak list" where
  "tie_breaks = [TB_ByPriority, TB_ByName, TB_ByObjectiveId]"

definition compliance_states :: "ComplianceState list" where
  "compliance_states = [CS_Compliant, CS_NearLimit, CS_AtRisk, CS_Violating,
     CS_Recovering, CS_InsufficientEvidence, CS_RevalidationRequired, CS_Suspended]"

definition enforcement_lifecycles :: "EnforcementLifecycle list" where
  "enforcement_lifecycles = [EL_Proposed, EL_Authorized, EL_Dispatched, EL_Acknowledged, EL_Effective,
     EL_Failed, EL_Cancelled, EL_Superseded, EL_Expired, EL_OutcomeUnknown]"

definition enforcement_actions :: "EnforcementAction list" where
  "enforcement_actions = [EA_NoAction, EA_Admit, EA_Defer, EA_Reject, EA_Throttle,
     EA_ReserveCapacity, EA_IncreaseCapacity, EA_ReduceBatchSize, EA_IncreaseBatchSize, EA_ChangeQueuePriority,
     EA_PreemptLowerPriority, EA_PromoteWarmCapacity, EA_Replicate, EA_Drain, EA_Failover,
     EA_Recover, EA_ReplanRecovery, EA_ReclaimMemory, EA_ReduceResidency, EA_LimitPower,
     EA_ChangePlacement, EA_Escalate, EA_ManualInterventionRequired]"

definition action_code :: "EnforcementAction \<Rightarrow> u8" where
  "action_code a = (case a of EA_unnamed b \<Rightarrow> b | _ \<Rightarrow> enum_code enforcement_actions a)"

definition action_cast :: "u8 \<Rightarrow> EnforcementAction" where
  "action_cast b = (if unat b < 23 then enforcement_actions ! unat b else EA_unnamed b)"

definition write_enum :: "'e list \<Rightarrow> 'e \<Rightarrow> bytes" where
  "write_enum es e = write_u8 (enum_code es e)"

definition write_action :: "EnforcementAction \<Rightarrow> bytes" where
  "write_action a = write_u8 (action_code a)"

section \<open>Limits\<close>

definition kMaxPersistenceBytes :: int where
  "kMaxPersistenceBytes = 268435456"

definition kMaxCollectionItems :: int where
  "kMaxCollectionItems = 1048576"

section \<open>Values\<close>

definition write_double :: "double \<Rightarrow> bytes" where
  "write_double d = write_u64 (double_bits d)"

definition read_double :: "double read" where
  "read_double r = do { (w, r) \<leftarrow> read_u64 r; Some (Double w, r) }"

fun write_value :: "ObjectiveValue \<Rightarrow> bytes" where
  "write_value (VDuration d) = write_u8 0 @ write_i64 (as_ns d)"
| "write_value (VByteCount b) = write_u8 1 @ write_i64 (as_bytes b)"
| "write_value (VCount c) = write_u8 2 @ write_i64 (count_value c)"
| "write_value (VBasisPoints bp) = write_u8 3 @ write_i64 (bp_value bp)"
| "write_value (VPercentage p) = write_u8 4 @ write_double (percentage_value p)"
| "write_value (VPressureRatio p) = write_u8 5 @ write_double (pressure_value p)"
| "write_value (VRequestsPerSecond q) = write_u8 6 @ write_double (rate_value q)"
| "write_value (VTokensPerSecond q) = write_u8 7 @ write_double (rate_value q)"
| "write_value (VBytesPerSecond q) = write_u8 8 @ write_double (rate_value q)"
| "write_value (VOperationsPerSecond q) = write_u8 9 @ write_double (rate_value q)"
| "write_value (VCostMicros c) = write_u8 10 @ write_i64 (as_micros c)"
| "write_value (VEnergyJoules e) = write_u8 11 @ write_i64 (joules_value e)"

definition read_value :: "ObjectiveValue read" where
  "read_value r = do { (tag, r) \<leftarrow> read_u8 r;
     (if tag = 0 then do { (i, r) \<leftarrow> read_i64 r; Some (VDuration (Duration i), r) }
      else if tag = 1 then do { (i, r) \<leftarrow> read_i64 r; Some (VByteCount (ByteCount i), r) }
      else if tag = 2 then do { (i, r) \<leftarrow> read_i64 r; Some (VCount (Count i), r) }
      else if tag = 3 then do { (i, r) \<leftarrow> read_i64 r; Some (VBasisPoints (BasisPoints i), r) }
      else if tag = 4 then do { (d, r) \<leftarrow> read_double r;
        if \<not> percentage_valid (Percentage d) then None else Some (VPercentage (Percentage d), r) }
      else if tag = 5 then do { (d, r) \<leftarrow> read_double r;
        if \<not> pressure_valid (PressureRatio d) then None else Some (VPressureRatio (PressureRatio d), r) }
      else if tag = 6 then do { (d, r) \<leftarrow> read_double r;
        if \<not> rate_valid (Rate d :: RequestsPerSecond) then None else Some (VRequestsPerSecond (Rate d), r) }
      else if tag = 7 then do { (d, r) \<leftarrow> read_double r;
        if \<not> rate_valid (Rate d :: TokensPerSecond) then None else Some (VTokensPerSecond (Rate d), r) }
      else if tag = 8 then do { (d, r) \<leftarrow> read_double r;
        if \<not> rate_valid (Rate d :: BytesPerSecond) then None else Some (VBytesPerSecond (Rate d), r) }
      else if tag = 9 then do { (d, r) \<leftarrow> read_double r;
        if \<not> rate_valid (Rate d :: OperationsPerSecond) then None else Some (VOperationsPerSecond (Rate d), r) }
      else if tag = 10 then do { (i, r) \<leftarrow> read_i64 r; if i < 0 then None else Some (VCostMicros (CostMicros i), r) }
      else if tag = 11 then do { (i, r) \<leftarrow> read_i64 r; if i < 0 then None else Some (VEnergyJoules (EnergyJoules i), r) }
      else None) }"

fun value_wf :: "ObjectiveValue \<Rightarrow> bool" where
  "value_wf (VDuration d) \<longleftrightarrow> in_i64 (as_ns d)"
| "value_wf (VByteCount b) \<longleftrightarrow> in_i64 (as_bytes b)"
| "value_wf (VCount c) \<longleftrightarrow> in_i64 (count_value c)"
| "value_wf (VBasisPoints bp) \<longleftrightarrow> in_i64 (bp_value bp)"
| "value_wf (VPercentage p) \<longleftrightarrow> percentage_valid p"
| "value_wf (VPressureRatio p) \<longleftrightarrow> pressure_valid p"
| "value_wf (VRequestsPerSecond q) \<longleftrightarrow> rate_valid q"
| "value_wf (VTokensPerSecond q) \<longleftrightarrow> rate_valid q"
| "value_wf (VBytesPerSecond q) \<longleftrightarrow> rate_valid q"
| "value_wf (VOperationsPerSecond q) \<longleftrightarrow> rate_valid q"
| "value_wf (VCostMicros c) \<longleftrightarrow> in_i64 (as_micros c) \<and> 0 \<le> as_micros c"
| "value_wf (VEnergyJoules e) \<longleftrightarrow> in_i64 (joules_value e) \<and> 0 \<le> joules_value e"

text \<open>An optional field: a flag, then the value when the flag is set.\<close>

definition write_optional :: "('a \<Rightarrow> bytes) \<Rightarrow> 'a option \<Rightarrow> bytes" where
  "write_optional w x = write_bool (x \<noteq> None) @ (case x of None \<Rightarrow> [] | Some v \<Rightarrow> w v)"

definition read_optional :: "'a read \<Rightarrow> 'a option read" where
  "read_optional p r = do { (has, r) \<leftarrow> read_bool r; if has then do { (v, r) \<leftarrow> p r; Some (Some v, r) } else Some (None, r) }"

definition write_id :: "'tag Id \<Rightarrow> bytes" where
  "write_id i = write_u64 (id_value i)"

definition read_id :: "'tag Id read" where
  "read_id r = do { (v, r) \<leftarrow> read_u64 r; Some (Id v, r) }"

definition write_gen :: "'tag Gen \<Rightarrow> bytes" where
  "write_gen g = write_u64 (gen_value g)"

definition read_gen :: "'tag Gen read" where
  "read_gen r = do { (v, r) \<leftarrow> read_u64 r; Some (Gen v, r) }"

definition read_pstring :: "string read" where
  "read_pstring = read_string kMaxPersistenceBytes"

section \<open>Records\<close>

definition encode_objective :: "Objective \<Rightarrow> bytes" where
  "encode_objective ob =
     write_id (o_id ob) @ write_gen (o_gen ob) @ write_string (o_name ob) @
     write_enum dimensions (o_dim ob) @ write_enum objective_kinds (o_kind ob) @
     write_enum comparisons (o_comparison ob) @ write_enum hardsofts (o_hard ob) @
     write_enum enforcement_classes (o_enforcement ob) @ write_value (o_target ob) @
     write_optional write_value (o_breach_threshold ob) @ write_optional write_value (o_recovery_threshold ob) @
     write_i64 (count_value (o_min_evidence ob)) @ write_double (o_allowed_uncertainty ob) @
     write_i64 (as_ns (o_freshness_ttl ob)) @ write_i64 (as_ns (o_grace_period ob)) @
     write_enum window_types (o_window_type ob) @ write_i64 (as_ns (o_window_duration ob)) @
     write_i64 (count_value (o_window_count ob)) @ write_i32 (priority_value (o_priority ob)) @
     write_double (o_percentile_rank ob) @ write_enum availability_modes (o_availability_mode ob) @
     write_enum rate_tags (o_rate_tag ob)"

definition decode_objective :: "Objective read" where
  "decode_objective r = do {
     (oid, r) \<leftarrow> read_id r;
     (ogen, r) \<leftarrow> read_gen r;
     (name, r) \<leftarrow> read_pstring r;
     (dim, r) \<leftarrow> read_enum 5 (enum_cast dimensions) r;
     (kind, r) \<leftarrow> read_enum 11 (enum_cast objective_kinds) r;
     (cmp, r) \<leftarrow> read_enum 1 (enum_cast comparisons) r;
     (hard, r) \<leftarrow> read_enum 1 (enum_cast hardsofts) r;
     (enf, r) \<leftarrow> read_enum 3 (enum_cast enforcement_classes) r;
     (tgt, r) \<leftarrow> read_value r;
     (breach, r) \<leftarrow> read_optional read_value r;
     (recov, r) \<leftarrow> read_optional read_value r;
     (mine, r) \<leftarrow> read_i64 r;
     if mine < 0 then None else do {
     (unc, r) \<leftarrow> read_double r;
     if dlt unc dzero \<or> dgt unc (dec 1 1) then None else do {
     (ttl, r) \<leftarrow> read_i64 r;
     if ttl < 0 then None else do {
     (grace, r) \<leftarrow> read_i64 r;
     (wt, r) \<leftarrow> read_enum 4 (enum_cast window_types) r;
     (wd, r) \<leftarrow> read_i64 r;
     (wc, r) \<leftarrow> read_i64 r;
     if wc \<le> 0 then None else do {
     (prio, r) \<leftarrow> read_i32 r;
     (rank, r) \<leftarrow> read_double r;
     if dlt rank dzero \<or> dgt rank (dec 1 1) then None else do {
     (am, r) \<leftarrow> read_enum 1 (enum_cast availability_modes) r;
     (rt, r) \<leftarrow> read_enum 3 (enum_cast rate_tags) r;
     let ob = \<lparr> o_id = oid, o_gen = ogen, o_name = name, o_dim = dim, o_kind = kind, o_comparison = cmp, o_hard = hard,
       o_enforcement = enf, o_target = tgt, o_breach_threshold = breach, o_recovery_threshold = recov,
       o_min_evidence = Count mine, o_allowed_uncertainty = unc, o_freshness_ttl = Duration ttl,
       o_grace_period = Duration grace, o_window_type = wt, o_window_duration = Duration wd, o_window_count = Count wc,
       o_priority = Priority prio, o_percentile_rank = rank, o_availability_mode = am, o_rate_tag = rt \<rparr> in
     if \<not> target_unit_matches_dimension ob then None else Some (ob, r) }}}}}}"

definition encode_contract :: "SloContract \<Rightarrow> bytes" where
  "encode_contract c =
     write_id (c_id c) @ write_gen (c_gen c) @ write_id (c_service c) @ write_id (c_workload c) @ write_id (c_tenant c) @
     write_u64 (of_nat (length (c_objectives c))) @ concat (map encode_objective (c_objectives c)) @
     write_id (c_policy_id c) @ write_gen (c_policy_gen c) @ write_i64 (as_ns (c_effective_from c)) @
     write_optional (\<lambda>d. write_i64 (as_ns d)) (c_expiration c) @ write_gen (c_epoch c) @
     write_enum contract_lifecycles (c_lifecycle c) @ write_string (c_name c) @ write_string (c_provenance c)"

definition read_duration :: "Duration read" where
  "read_duration r = do { (i, r) \<leftarrow> read_i64 r; Some (Duration i, r) }"

definition decode_contract :: "SloContract read" where
  "decode_contract r = do {
     (cid, r) \<leftarrow> read_id r;
     (cgen, r) \<leftarrow> read_gen r;
     (svc, r) \<leftarrow> read_id r;
     (wl, r) \<leftarrow> read_id r;
     (ten, r) \<leftarrow> read_id r;
     (n, r) \<leftarrow> read_u64 r;
     if kMaxCollectionItems < uint n then None else do {
     (objs, r) \<leftarrow> read_items decode_objective (unat n) r;
     (pid, r) \<leftarrow> read_id r;
     (pgen, r) \<leftarrow> read_gen r;
     (ef, r) \<leftarrow> read_duration r;
     (ex, r) \<leftarrow> read_optional read_duration r;
     (ep, r) \<leftarrow> read_gen r;
     (lc, r) \<leftarrow> read_enum 5 (enum_cast contract_lifecycles) r;
     (name, r) \<leftarrow> read_pstring r;
     (prov, r) \<leftarrow> read_pstring r;
     Some (\<lparr> c_id = cid, c_gen = cgen, c_service = svc, c_workload = wl, c_tenant = ten, c_objectives = objs,
       c_policy_id = pid, c_policy_gen = pgen, c_effective_from = ef, c_expiration = ex, c_epoch = ep,
       c_lifecycle = lc, c_name = name, c_provenance = prov \<rparr>, r) }}"

definition encode_policy :: "SloPolicy \<Rightarrow> bytes" where
  "encode_policy p = write_id (p_id p) @ write_gen (p_gen p) @ write_enum policy_modes (p_mode p) @
     write_enum tie_breaks (p_tie_break p) @ write_string (p_name p) @ write_string (p_description p)"

definition decode_policy :: "SloPolicy read" where
  "decode_policy r = do {
     (pid, r) \<leftarrow> read_id r;
     (pgen, r) \<leftarrow> read_gen r;
     (mode, r) \<leftarrow> read_enum 1 (enum_cast policy_modes) r;
     (tie, r) \<leftarrow> read_enum 2 (enum_cast tie_breaks) r;
     (name, r) \<leftarrow> read_pstring r;
     (desc, r) \<leftarrow> read_pstring r;
     Some (\<lparr> p_id = pid, p_gen = pgen, p_mode = mode, p_tie_break = tie, p_name = name, p_description = desc \<rparr>, r) }"

definition encode_receipt :: "EnforcementReceipt \<Rightarrow> bytes" where
  "encode_receipt rc =
     write_id (r_id rc) @ write_gen (r_gen rc) @ write_action (r_action rc) @
     write_enum enforcement_lifecycles (r_lifecycle rc) @ write_gen (r_epoch rc) @ write_gen (r_contract_gen rc) @
     write_gen (r_policy_gen rc) @ write_id (r_evaluation_id rc) @ write_gen (r_evaluation_gen rc) @
     write_gen (r_workload_gen rc) @ write_id (r_service rc) @ write_id (r_workload rc) @
     write_id (r_objective_id rc) @ write_gen (r_objective_gen rc) @ write_string (r_reason rc)"

definition decode_receipt :: "EnforcementReceipt read" where
  "decode_receipt r = do {
     (rid, r) \<leftarrow> read_id r;
     (rgen, r) \<leftarrow> read_gen r;
     (act, r) \<leftarrow> read_enum 23 action_cast r;
     (lc, r) \<leftarrow> read_enum 9 (enum_cast enforcement_lifecycles) r;
     (ep, r) \<leftarrow> read_gen r;
     (cg, r) \<leftarrow> read_gen r;
     (pg, r) \<leftarrow> read_gen r;
     (ei, r) \<leftarrow> read_id r;
     (eg, r) \<leftarrow> read_gen r;
     (wg, r) \<leftarrow> read_gen r;
     (svc, r) \<leftarrow> read_id r;
     (wl, r) \<leftarrow> read_id r;
     (oi, r) \<leftarrow> read_id r;
     (og, r) \<leftarrow> read_gen r;
     (rsn, r) \<leftarrow> read_pstring r;
     Some (\<lparr> r_id = rid, r_gen = rgen, r_action = act, r_lifecycle = lc, r_epoch = ep, r_contract_gen = cg,
       r_policy_gen = pg, r_evaluation_id = ei, r_evaluation_gen = eg, r_workload_gen = wg, r_service = svc,
       r_workload = wl, r_objective_id = oi, r_objective_gen = og, r_reason = rsn \<rparr>, r) }"

record PersistedObjectiveState =
  ps_objective_id :: ObjectiveId
  ps_objective_gen :: ObjectiveGen
  ps_budget_total :: Count
  ps_budget_consumed :: Count
  ps_budget_window :: Duration
  ps_budget_window_start :: Duration
  ps_last_state :: ComplianceState
  ps_last_state_time :: Duration
  ps_cooldown_until :: Duration

record EvaluationRecord =
  ev_evaluation_id :: EvaluationId
  ev_evaluation_gen :: EvaluationGen
  ev_contract_gen :: SloContractGen
  ev_policy_gen :: PolicyGen
  ev_evidence_gen :: EvidenceGen
  ev_epoch :: CoordinatorEpoch
  ev_time :: Duration
  ev_compliance :: ComplianceState
  ev_binding_dimension :: Dimension
  ev_binding_objective :: ObjectiveId
  ev_selected_action :: EnforcementAction
  ev_digest :: u64

definition encode_objstate :: "PersistedObjectiveState \<Rightarrow> bytes" where
  "encode_objstate s =
     write_id (ps_objective_id s) @ write_gen (ps_objective_gen s) @
     write_i64 (count_value (ps_budget_total s)) @ write_i64 (count_value (ps_budget_consumed s)) @
     write_i64 (as_ns (ps_budget_window s)) @ write_i64 (as_ns (ps_budget_window_start s)) @
     write_enum compliance_states (ps_last_state s) @ write_i64 (as_ns (ps_last_state_time s)) @
     write_i64 (as_ns (ps_cooldown_until s))"

definition decode_objstate :: "PersistedObjectiveState read" where
  "decode_objstate r = do {
     (oi, r) \<leftarrow> read_id r;
     (og, r) \<leftarrow> read_gen r;
     (tot, r) \<leftarrow> read_i64 r;
     if tot < 0 then None else do {
     (con, r) \<leftarrow> read_i64 r;
     if con < 0 then None else do {
     (win, r) \<leftarrow> read_duration r;
     (start, r) \<leftarrow> read_duration r;
     (st, r) \<leftarrow> read_enum 7 (enum_cast compliance_states) r;
     (stt, r) \<leftarrow> read_duration r;
     (cool, r) \<leftarrow> read_duration r;
     Some (\<lparr> ps_objective_id = oi, ps_objective_gen = og, ps_budget_total = Count tot, ps_budget_consumed = Count con,
       ps_budget_window = win, ps_budget_window_start = start, ps_last_state = st, ps_last_state_time = stt,
       ps_cooldown_until = cool \<rparr>, r) }}}"

definition encode_eval :: "EvaluationRecord \<Rightarrow> bytes" where
  "encode_eval e =
     write_id (ev_evaluation_id e) @ write_gen (ev_evaluation_gen e) @ write_gen (ev_contract_gen e) @
     write_gen (ev_policy_gen e) @ write_gen (ev_evidence_gen e) @ write_gen (ev_epoch e) @
     write_i64 (as_ns (ev_time e)) @ write_enum compliance_states (ev_compliance e) @
     write_enum dimensions (ev_binding_dimension e) @ write_id (ev_binding_objective e) @
     write_action (ev_selected_action e) @ write_u64 (ev_digest e)"

definition decode_eval :: "EvaluationRecord read" where
  "decode_eval r = do {
     (ei, r) \<leftarrow> read_id r;
     (eg, r) \<leftarrow> read_gen r;
     (cg, r) \<leftarrow> read_gen r;
     (pg, r) \<leftarrow> read_gen r;
     (vg, r) \<leftarrow> read_gen r;
     (ep, r) \<leftarrow> read_gen r;
     (t, r) \<leftarrow> read_duration r;
     (cs, r) \<leftarrow> read_enum 7 (enum_cast compliance_states) r;
     (dim, r) \<leftarrow> read_enum 5 (enum_cast dimensions) r;
     (oi, r) \<leftarrow> read_id r;
     (act, r) \<leftarrow> read_enum 23 action_cast r;
     (dg, r) \<leftarrow> read_u64 r;
     Some (\<lparr> ev_evaluation_id = ei, ev_evaluation_gen = eg, ev_contract_gen = cg, ev_policy_gen = pg,
       ev_evidence_gen = vg, ev_epoch = ep, ev_time = t, ev_compliance = cs, ev_binding_dimension = dim,
       ev_binding_objective = oi, ev_selected_action = act, ev_digest = dg \<rparr>, r) }"

section \<open>Facts\<close>

lemma in_dimensions [simp]: "e \<in> set dimensions" and length_dimensions [simp]: "length dimensions = 6"
  by (cases e, simp_all add: dimensions_def)

lemma in_objective_kinds [simp]: "e \<in> set objective_kinds" and length_objective_kinds [simp]: "length objective_kinds = 12"
  by (cases e, simp_all add: objective_kinds_def)

lemma in_comparisons [simp]: "e \<in> set comparisons" and length_comparisons [simp]: "length comparisons = 2"
  by (cases e, simp_all add: comparisons_def)

lemma in_hardsofts [simp]: "e \<in> set hardsofts" and length_hardsofts [simp]: "length hardsofts = 2"
  by (cases e, simp_all add: hardsofts_def)

lemma in_enforcement_classes [simp]: "e \<in> set enforcement_classes" and length_enforcement_classes [simp]: "length enforcement_classes = 4"
  by (cases e, simp_all add: enforcement_classes_def)

lemma in_window_types [simp]: "e \<in> set window_types" and length_window_types [simp]: "length window_types = 5"
  by (cases e, simp_all add: window_types_def)

lemma in_availability_modes [simp]: "e \<in> set availability_modes" and length_availability_modes [simp]: "length availability_modes = 2"
  by (cases e, simp_all add: availability_modes_def)

lemma in_rate_tags [simp]: "e \<in> set rate_tags" and length_rate_tags [simp]: "length rate_tags = 4"
  by (cases e, simp_all add: rate_tags_def)

lemma in_contract_lifecycles [simp]: "e \<in> set contract_lifecycles" and length_contract_lifecycles [simp]: "length contract_lifecycles = 6"
  by (cases e, simp_all add: contract_lifecycles_def)

lemma in_policy_modes [simp]: "e \<in> set policy_modes" and length_policy_modes [simp]: "length policy_modes = 2"
  by (cases e, simp_all add: policy_modes_def)

lemma in_tie_breaks [simp]: "e \<in> set tie_breaks" and length_tie_breaks [simp]: "length tie_breaks = 3"
  by (cases e, simp_all add: tie_breaks_def)

lemma in_compliance_states [simp]: "e \<in> set compliance_states" and length_compliance_states [simp]: "length compliance_states = 8"
  by (cases e, simp_all add: compliance_states_def)

lemma in_enforcement_lifecycles [simp]: "e \<in> set enforcement_lifecycles" and length_enforcement_lifecycles [simp]: "length enforcement_lifecycles = 10"
  by (cases e, simp_all add: enforcement_lifecycles_def)

lemma read_enum_cast_at [codec_simps]:
  assumes "fits pre (write_enum es e @ rest)" "e \<in> set es" "length es \<le> Suc (unat lim)"
  shows "read_enum lim (enum_cast es) (at pre (write_enum es e @ rest)) = Some (e, at (pre @ write_enum es e) rest)"
proof -
  have "unat lim < 256" using unsigned_less [of lim, where 'a = nat] by simp
  then have "length es \<le> 256" using assms(3) by simp
  note code = enum_roundtrip [OF assms(2) this]
  have "enum_code es e \<le> lim" using code(2) assms(3) by (simp add: word_le_nat_alt)
  then show ?thesis
    using assms(1) code(1) read_enum_at [of pre "enum_code es" e rest] by (simp add: write_enum_def)
qed

definition action_wf :: "EnforcementAction \<Rightarrow> bool" where
  "action_wf a \<longleftrightarrow> (case a of EA_unnamed b \<Rightarrow> b = 23 | _ \<Rightarrow> True)"

lemma named_action: "(\<forall>b. a \<noteq> EA_unnamed b) \<longleftrightarrow> a \<in> set enforcement_actions"
  by (cases a) (simp_all add: enforcement_actions_def)

lemma length_enforcement_actions [simp]: "length enforcement_actions = 23"
  by (simp add: enforcement_actions_def)

lemma action_roundtrip: "action_wf a \<Longrightarrow> action_cast (action_code a) = a \<and> action_code a \<le> 23"
proof (cases "a \<in> set enforcement_actions")
  case True
  then have "action_code a = enum_code enforcement_actions a"
    unfolding named_action [symmetric] by (cases a) (simp_all add: action_code_def)
  with enum_roundtrip [OF True] show ?thesis
    by (simp add: action_cast_def enum_cast_def word_le_nat_alt)
next
  case False
  moreover assume "action_wf a"
  ultimately show ?thesis
    unfolding named_action [symmetric] by (auto simp: action_code_def action_cast_def action_wf_def)
qed

lemma action_cast_wf: "b \<le> 23 \<Longrightarrow> action_wf (action_cast b)"
proof (cases "unat b < 23")
  case True
  then have "action_cast b \<in> set enforcement_actions" by (simp add: action_cast_def)
  then show ?thesis unfolding named_action [symmetric] by (auto simp: action_wf_def split: EnforcementAction.split)
next
  case False
  moreover assume "b \<le> 23"
  ultimately have "b = 23" by (simp add: word_le_nat_alt word_unat_eq_iff)
  then show ?thesis by (simp add: action_cast_def action_wf_def)
qed

lemma read_action_at [codec_simps]:
  "fits pre (write_action a @ rest) \<Longrightarrow> action_wf a \<Longrightarrow>
     read_enum 23 action_cast (at pre (write_action a @ rest)) = Some (a, at (pre @ write_action a) rest)"
  using action_roundtrip [of a] read_enum_at [of pre action_code a rest] by (simp add: write_action_def)

lemma reads_action [reads_intros]: "reads (read_enum 23 action_cast) action_wf"
  by (rule reads_mono [OF reads_enum]) (auto simp: action_cast_wf)

lemma read_double_at [codec_simps]:
  "fits pre (write_double d @ rest) \<Longrightarrow> read_double (at pre (write_double d @ rest)) = Some (d, at (pre @ write_double d) rest)"
  by (simp add: read_double_def write_double_def codec_simps)

lemma read_id_at [codec_simps]:
  "fits pre (write_id i @ rest) \<Longrightarrow> read_id (at pre (write_id i @ rest)) = Some (i, at (pre @ write_id i) rest)"
  by (simp add: read_id_def write_id_def codec_simps)

lemma read_gen_at [codec_simps]:
  "fits pre (write_gen g @ rest) \<Longrightarrow> read_gen (at pre (write_gen g @ rest)) = Some (g, at (pre @ write_gen g) rest)"
  by (simp add: read_gen_def write_gen_def codec_simps)

lemma read_duration_at [codec_simps]:
  "fits pre (write_i64 (as_ns d) @ rest) \<Longrightarrow> in_i64 (as_ns d) \<Longrightarrow>
     read_duration (at pre (write_i64 (as_ns d) @ rest)) = Some (d, at (pre @ write_i64 (as_ns d)) rest)"
  by (simp add: read_duration_def codec_simps)

lemma read_pstring_at [codec_simps]:
  "fits pre (write_string s @ rest) \<Longrightarrow> int (length s) \<le> kMaxPersistenceBytes \<Longrightarrow>
     read_pstring (at pre (write_string s @ rest)) = Some (s, at (pre @ write_string s) rest)"
  by (simp add: read_pstring_def codec_simps)

lemma read_optional_at:
  assumes "fits pre (write_optional w x @ rest)"
    "\<And>v pre rest. x = Some v \<Longrightarrow> fits pre (w v @ rest) \<Longrightarrow> p (at pre (w v @ rest)) = Some (v, at (pre @ w v) rest)"
  shows "read_optional p (at pre (write_optional w x @ rest)) = Some (x, at (pre @ write_optional w x) rest)"
  using assms by (cases x) (simp_all add: read_optional_def write_optional_def codec_simps)

lemma reads_double [reads_intros]: "reads read_double (\<lambda>_. True)"
  unfolding read_double_def by (rule reads_intros | simp)+

lemma reads_id [reads_intros]: "reads read_id (\<lambda>_. True)"
  unfolding read_id_def by (rule reads_intros | simp)+

lemma reads_gen [reads_intros]: "reads read_gen (\<lambda>_. True)"
  unfolding read_gen_def by (rule reads_intros | simp)+

lemma reads_duration [reads_intros]: "reads read_duration (\<lambda>d. in_i64 (as_ns d))"
  unfolding read_duration_def by (rule reads_intros | simp)+

lemma reads_pstring [reads_intros]: "reads read_pstring (\<lambda>s. int (length s) \<le> kMaxPersistenceBytes)"
  unfolding read_pstring_def by (rule reads_string)

definition optional_wf :: "('a \<Rightarrow> bool) \<Rightarrow> 'a option \<Rightarrow> bool" where
  "optional_wf P x \<longleftrightarrow> (case x of None \<Rightarrow> True | Some v \<Rightarrow> P v)"

lemma optional_wf_simps [simp]: "optional_wf P None" "optional_wf P (Some v) \<longleftrightarrow> P v"
  by (simp_all add: optional_wf_def)

lemma reads_optional: "reads p P \<Longrightarrow> reads (read_optional p) (optional_wf P)"
  unfolding read_optional_def by (rule reads_intros | assumption | simp)+

subsection \<open>Values\<close>

interpretation val: codec write_value read_value value_wf
proof
  fix v pre rest assume "value_wf v" "fits pre (write_value v @ rest)"
  then show "read_value (at pre (write_value v @ rest)) = Some (v, at (pre @ write_value v) rest)"
    by (cases v) (simp_all add: read_value_def codec_simps)
next
  show "reads read_value value_wf"
    unfolding read_value_def by (rule reads_intros | simp)+
qed

lemma read_opt_value_at [codec_simps]:
  "fits pre (write_optional write_value x @ rest) \<Longrightarrow> optional_wf value_wf x \<Longrightarrow>
     read_optional read_value (at pre (write_optional write_value x @ rest)) =
       Some (x, at (pre @ write_optional write_value x) rest)"
  by (rule read_optional_at) (simp_all add: val.decode_encode)

lemma read_opt_duration_at [codec_simps]:
  "fits pre (write_optional (\<lambda>d. write_i64 (as_ns d)) x @ rest) \<Longrightarrow> optional_wf (\<lambda>d. in_i64 (as_ns d)) x \<Longrightarrow>
     read_optional read_duration (at pre (write_optional (\<lambda>d. write_i64 (as_ns d)) x @ rest)) =
       Some (x, at (pre @ write_optional (\<lambda>d. write_i64 (as_ns d)) x) rest)"
  by (rule read_optional_at) (simp_all add: codec_simps)

lemmas reads_opt_value [reads_intros] = reads_optional [OF val.decode_reads]
lemmas reads_opt_duration [reads_intros] = reads_optional [OF reads_duration]
lemmas reads_value [reads_intros] = val.decode_reads
lemmas read_value_at [codec_simps] = val.decode_encode

subsection \<open>Objectives\<close>

definition unit_interval :: "double \<Rightarrow> bool" where
  "unit_interval d \<longleftrightarrow> \<not> (dlt d dzero \<or> dgt d (dec 1 1))"

definition objective_wf :: "Objective \<Rightarrow> bool" where
  "objective_wf ob \<longleftrightarrow>
     int (length (o_name ob)) \<le> kMaxPersistenceBytes \<and> value_wf (o_target ob) \<and>
     optional_wf value_wf (o_breach_threshold ob) \<and> optional_wf value_wf (o_recovery_threshold ob) \<and>
     in_i64 (count_value (o_min_evidence ob)) \<and> 0 \<le> count_value (o_min_evidence ob) \<and>
     unit_interval (o_allowed_uncertainty ob) \<and>
     in_i64 (as_ns (o_freshness_ttl ob)) \<and> 0 \<le> as_ns (o_freshness_ttl ob) \<and> in_i64 (as_ns (o_grace_period ob)) \<and>
     in_i64 (as_ns (o_window_duration ob)) \<and> in_i64 (count_value (o_window_count ob)) \<and>
     0 < count_value (o_window_count ob) \<and> in_i32 (priority_value (o_priority ob)) \<and>
     unit_interval (o_percentile_rank ob) \<and> target_unit_matches_dimension ob"

interpretation obj: codec encode_objective decode_objective objective_wf
proof
  fix ob pre rest assume "objective_wf ob" "fits pre (encode_objective ob @ rest)"
  then show "decode_objective (at pre (encode_objective ob @ rest)) = Some (ob, at (pre @ encode_objective ob) rest)"
    by (simp add: decode_objective_def encode_objective_def objective_wf_def unit_interval_def codec_simps Let_def
        target_unit_matches_dimension_def)
next
  show "reads decode_objective objective_wf"
    unfolding decode_objective_def Let_def
    by (rule reads_intros | simp add: objective_wf_def unit_interval_def)+
qed

subsection \<open>Contracts\<close>

definition contract_wf :: "SloContract \<Rightarrow> bool" where
  "contract_wf c \<longleftrightarrow>
     int (length (c_objectives c)) \<le> kMaxCollectionItems \<and> (\<forall>ob \<in> set (c_objectives c). objective_wf ob) \<and>
     in_i64 (as_ns (c_effective_from c)) \<and> optional_wf (\<lambda>d. in_i64 (as_ns d)) (c_expiration c) \<and>
     int (length (c_name c)) \<le> kMaxPersistenceBytes \<and> int (length (c_provenance c)) \<le> kMaxPersistenceBytes"

lemma count_small: "int n \<le> kMaxCollectionItems \<Longrightarrow> unat (of_nat n :: u64) = n \<and> uint (of_nat n :: u64) = int n"
proof -
  assume "int n \<le> kMaxCollectionItems"
  then have "unat (of_nat n :: u64) = n" by (simp add: kMaxCollectionItems_def unat_of_nat)
  then show ?thesis by (simp only: uint_nat)
qed

interpretation con: codec encode_contract decode_contract contract_wf
proof
  fix c pre rest assume "contract_wf c" "fits pre (encode_contract c @ rest)"
  then show "decode_contract (at pre (encode_contract c @ rest)) = Some (c, at (pre @ encode_contract c) rest)"
    using count_small [of "length (c_objectives c)"]
    by (simp add: decode_contract_def encode_contract_def contract_wf_def obj.items_decode codec_simps)
next
  show "reads decode_contract contract_wf"
    unfolding decode_contract_def
    by (rule reads_intros obj.items_reads | simp add: contract_wf_def)+
qed

subsection \<open>Policies, receipts, objective states, evaluations\<close>

definition policy_wf :: "SloPolicy \<Rightarrow> bool" where
  "policy_wf p \<longleftrightarrow> int (length (p_name p)) \<le> kMaxPersistenceBytes \<and> int (length (p_description p)) \<le> kMaxPersistenceBytes"

interpretation pol: codec encode_policy decode_policy policy_wf
proof
  fix p pre rest assume "policy_wf p" "fits pre (encode_policy p @ rest)"
  then show "decode_policy (at pre (encode_policy p @ rest)) = Some (p, at (pre @ encode_policy p) rest)"
    by (simp add: decode_policy_def encode_policy_def policy_wf_def codec_simps)
next
  show "reads decode_policy policy_wf"
    unfolding decode_policy_def by (rule reads_intros | simp add: policy_wf_def)+
qed

definition receipt_wf :: "EnforcementReceipt \<Rightarrow> bool" where
  "receipt_wf rc \<longleftrightarrow> action_wf (r_action rc) \<and> int (length (r_reason rc)) \<le> kMaxPersistenceBytes"

interpretation rcp: codec encode_receipt decode_receipt receipt_wf
proof
  fix rc pre rest assume "receipt_wf rc" "fits pre (encode_receipt rc @ rest)"
  then show "decode_receipt (at pre (encode_receipt rc @ rest)) = Some (rc, at (pre @ encode_receipt rc) rest)"
    by (simp add: decode_receipt_def encode_receipt_def receipt_wf_def codec_simps)
next
  show "reads decode_receipt receipt_wf"
    unfolding decode_receipt_def by (rule reads_action reads_intros | simp add: receipt_wf_def)+
qed

definition objstate_wf :: "PersistedObjectiveState \<Rightarrow> bool" where
  "objstate_wf s \<longleftrightarrow>
     in_i64 (count_value (ps_budget_total s)) \<and> 0 \<le> count_value (ps_budget_total s) \<and>
     in_i64 (count_value (ps_budget_consumed s)) \<and> 0 \<le> count_value (ps_budget_consumed s) \<and>
     in_i64 (as_ns (ps_budget_window s)) \<and> in_i64 (as_ns (ps_budget_window_start s)) \<and>
     in_i64 (as_ns (ps_last_state_time s)) \<and> in_i64 (as_ns (ps_cooldown_until s))"

interpretation ost: codec encode_objstate decode_objstate objstate_wf
proof
  fix s pre rest assume "objstate_wf s" "fits pre (encode_objstate s @ rest)"
  then show "decode_objstate (at pre (encode_objstate s @ rest)) = Some (s, at (pre @ encode_objstate s) rest)"
    by (simp add: decode_objstate_def encode_objstate_def objstate_wf_def codec_simps)
next
  show "reads decode_objstate objstate_wf"
    unfolding decode_objstate_def by (rule reads_intros | simp add: objstate_wf_def)+
qed

definition eval_wf :: "EvaluationRecord \<Rightarrow> bool" where
  "eval_wf e \<longleftrightarrow> in_i64 (as_ns (ev_time e)) \<and> action_wf (ev_selected_action e)"

interpretation evl: codec encode_eval decode_eval eval_wf
proof
  fix e pre rest assume "eval_wf e" "fits pre (encode_eval e @ rest)"
  then show "decode_eval (at pre (encode_eval e @ rest)) = Some (e, at (pre @ encode_eval e) rest)"
    by (simp add: decode_eval_def encode_eval_def eval_wf_def codec_simps)
next
  show "reads decode_eval eval_wf"
    unfolding decode_eval_def by (rule reads_action reads_intros | simp add: eval_wf_def)+
qed

end
