(* ===== verification/Evaluation.thy ===== *)
theory Evaluation
  imports Accumulator Codecs "HOL-Library.Product_Lexorder"
begin

text \<open>
  The pure part of an evaluation (\<^verbatim>\<open>fabric.cpp\<close>, \<^verbatim>\<open>explanation.hpp\<close>, \<^verbatim>\<open>what_would_change.hpp\<close>): zones with hysteresis,
  the state step, the trend prediction, the choice of action, severity and the ranking that picks the binding
  objective, and the explanation that is returned.
\<close>

section \<open>Values and zones\<close>

definition kMargin :: double where
  "kMargin = dec 5 100"

definition kEpsilon :: double where
  "kEpsilon = dec 1 1000000000"

fun make_value :: "UnitKind \<Rightarrow> double \<Rightarrow> ObjectiveValue" where
  "make_value UK_Nanoseconds v = VDuration (Duration (d_to_i64 v))"
| "make_value UK_Bytes v = VByteCount (ByteCount (d_to_i64 v))"
| "make_value UK_Count v = VCount (Count (d_to_i64 v))"
| "make_value UK_BasisPoints v = VBasisPoints (BasisPoints (d_to_i64 v))"
| "make_value UK_Percent v = VPercentage (Percentage v)"
| "make_value UK_PressureRatio v = VPressureRatio (PressureRatio v)"
| "make_value UK_RequestsPerSecond v = VRequestsPerSecond (Rate v)"
| "make_value UK_TokensPerSecond v = VTokensPerSecond (Rate v)"
| "make_value UK_BytesPerSecond v = VBytesPerSecond (Rate v)"
| "make_value UK_OperationsPerSecond v = VOperationsPerSecond (Rate v)"
| "make_value UK_CurrencyMicros v = VCostMicros (CostMicros (d_to_i64 v))"
| "make_value UK_EnergyJoules v = VEnergyJoules (EnergyJoules (d_to_i64 v))"
| "make_value UK_Microseconds v = VDuration (Duration (d_to_i64 (dmul v (dec 1000 1))))"
| "make_value UK_Milliseconds v = VDuration (Duration (d_to_i64 (dmul v (dec 1000000 1))))"
| "make_value UK_Seconds v = VDuration (Duration (d_to_i64 (dmul v (dec 1000000000 1))))"
| "make_value UK_KiloBytes v = VByteCount (ByteCount (d_to_i64 (dmul v (dec 1024 1))))"
| "make_value UK_MegaBytes v = VByteCount (ByteCount (d_to_i64 (dmul (dmul v (dec 1024 1)) (dec 1024 1))))"
| "make_value UK_GigaBytes v =
     VByteCount (ByteCount (d_to_i64 (dmul (dmul (dmul v (dec 1024 1)) (dec 1024 1)) (dec 1024 1))))"

datatype Zone = Zone_Violation | Zone_Near | Zone_Compliant

definition numeric_limit :: "Objective \<Rightarrow> bool \<Rightarrow> double" where
  "numeric_limit ob breach =
     (case (breach, o_breach_threshold ob, o_recovery_threshold ob) of
        (True, Some v, _) \<Rightarrow> numeric_of v
      | (False, _, Some v) \<Rightarrow> numeric_of v
      | _ \<Rightarrow> numeric_of (o_target ob))"

definition physical_max :: "UnitKind \<Rightarrow> double" where
  "physical_max u =
     (case u of UK_BasisPoints \<Rightarrow> dec 10000 1 | UK_Percent \<Rightarrow> dec 100 1 | UK_PressureRatio \<Rightarrow> dec 1000000 1 | _ \<Rightarrow> dzero)"

definition classify_zone :: "Objective \<Rightarrow> double \<Rightarrow> Zone" where
  "classify_zone ob m =
     (let breach = numeric_limit ob True;
          recovery = numeric_limit ob False;
          hyst = \<not> deq breach recovery;
          cap = physical_max (unit_kind_of (o_target ob))
      in if o_comparison ob = AtMost then
           (if dgt m (dadd breach kEpsilon) then Zone_Violation
            else if hyst then (if dgt m (dadd recovery kEpsilon) then Zone_Near else Zone_Compliant)
            else if dgt m (dmul breach (dsub (dec 1 1) kMargin)) then Zone_Near
            else Zone_Compliant)
         else if dlt m (dsub breach kEpsilon) then Zone_Violation
         else if hyst then (if dlt m (dsub recovery kEpsilon) then Zone_Near else Zone_Compliant)
         else if dlt m (dmul breach (dadd (dec 1 1) kMargin)) \<and> (dle cap dzero \<or> dlt m cap) then Zone_Near
         else Zone_Compliant)"

definition step_state :: "Objective \<Rightarrow> double \<Rightarrow> ComplianceState \<Rightarrow> ComplianceState" where
  "step_state ob m prev =
     (case classify_zone ob m of
        Zone_Violation \<Rightarrow> CS_Violating
      | Zone_Compliant \<Rightarrow> CS_Compliant
      | Zone_Near \<Rightarrow> (if prev = CS_Violating \<or> prev = CS_Recovering then prev else CS_NearLimit))"

section \<open>Prediction\<close>

datatype PredictedRisk = PR_None | PR_Low | PR_Elevated | PR_High

fun predicted_risk_name :: "PredictedRisk \<Rightarrow> string" where
  "predicted_risk_name PR_None = ''none''"
| "predicted_risk_name PR_Low = ''low''"
| "predicted_risk_name PR_Elevated = ''elevated''"
| "predicted_risk_name PR_High = ''high''"

definition fit_sums :: "WindowSample list \<Rightarrow> double \<Rightarrow> double \<times> double \<times> double \<times> double" where
  "fit_sums snap x0 = foldl (\<lambda>(sx, sy, sxx, sxy) s.
     let x = dsub (d_of_int (as_ns (ws_time s))) x0
     in (dadd sx x, dadd sy (ws_value s), dadd sxx (dmul x x), dadd sxy (dmul x (ws_value s)))) (dzero, dzero, dzero, dzero) snap"

definition predict_risk :: "Objective \<Rightarrow> ObjectiveAccumulator \<Rightarrow> Duration \<Rightarrow> double \<Rightarrow> double \<Rightarrow> PredictedRisk" where
  "predict_risk ob a now m breach =
     (if o_dim ob = Dim_Cost \<and> o_kind ob = K_CostWindowBudget then
        (if cw_items (a_cost a) = [] then PR_None
         else let tgt = numeric_of (o_target ob);
                  first = fst (hd (cw_items (a_cost a)));
                  span = wrap64 (as_ns now - as_ns first);
                  frac0 = (if 0 < span
                           then ddiv (d_of_int (wrap64 (as_ns now - as_ns first)))
                                  (d_of_int (max 1 (as_ns (o_window_duration ob))))
                           else dec 1 1);
                  frac = (if dle frac0 dzero then dec 1 1 else frac0);
                  projected = ddiv (cost_sum (a_cost a)) frac
              in if dgt projected (dmul tgt (dec 15 10)) then PR_High
                 else if dgt projected tgt then PR_Elevated
                 else PR_None)
      else if o_dim ob = Dim_Latency \<or> o_dim ob = Dim_MemoryPressure then
        (if window_size (a_window a) < 4 then PR_None
         else if o_comparison ob \<noteq> AtMost then PR_None
         else let snap = sw_samples (a_window a);
                  n = d_of_int (int (length snap));
                  x0 = d_of_int (as_ns (ws_time (hd snap)));
                  (sx, sy, sxx, sxy) = fit_sums snap x0;
                  denom = dsub (dmul n sxx) (dmul sx sx)
              in if deq denom dzero then PR_None
                 else let slope = ddiv (dsub (dmul n sxy) (dmul sx sy)) denom
                      in if dle slope dzero then PR_None
                         else let horizon = d_of_int (if 0 < as_ns (o_window_duration ob)
                                                      then as_ns (o_window_duration ob) else 60000000000);
                                  projected = dadd m (dmul slope horizon)
                              in if dgt projected (dmul breach (dec 15 10)) then PR_High
                                 else if dgt projected breach then PR_Elevated
                                 else PR_None)
      else PR_None)"

section \<open>Actions and severity\<close>

definition action_for :: "Objective \<Rightarrow> ComplianceState \<Rightarrow> EnforcementAction" where
  "action_for ob st =
     (if st = CS_Violating \<or> st = CS_Recovering then
        (case o_dim ob of
           Dim_Latency \<Rightarrow> EA_IncreaseCapacity
         | Dim_Availability \<Rightarrow> EA_Replicate
         | Dim_Throughput \<Rightarrow> EA_IncreaseCapacity
         | Dim_RecoveryTime \<Rightarrow> EA_Failover
         | Dim_MemoryPressure \<Rightarrow> EA_ReclaimMemory
         | Dim_Cost \<Rightarrow> EA_ManualInterventionRequired)
      else if st = CS_AtRisk \<or> st = CS_NearLimit then
        (case o_dim ob of
           Dim_Latency \<Rightarrow> EA_PromoteWarmCapacity
         | Dim_Availability \<Rightarrow> EA_Replicate
         | Dim_Throughput \<Rightarrow> EA_IncreaseBatchSize
         | Dim_RecoveryTime \<Rightarrow> EA_ReplanRecovery
         | Dim_MemoryPressure \<Rightarrow> EA_ReduceResidency
         | Dim_Cost \<Rightarrow> EA_ManualInterventionRequired)
      else EA_NoAction)"

definition severity_reason :: "ComplianceState \<Rightarrow> string" where
  "severity_reason st =
     (case st of
        CS_Violating \<Rightarrow> ''current violation; enforcement required''
      | CS_Recovering \<Rightarrow> ''violation detected; recovery in flight''
      | CS_AtRisk \<Rightarrow> ''predicted violation; preventive action''
      | CS_NearLimit \<Rightarrow> ''approaching breach threshold''
      | CS_InsufficientEvidence \<Rightarrow> ''insufficient evidence''
      | CS_RevalidationRequired \<Rightarrow> ''evidence requires revalidation''
      | CS_Suspended \<Rightarrow> ''contract suspended''
      | CS_Compliant \<Rightarrow> ''compliant'')"

fun severity_rank_of :: "ComplianceState \<Rightarrow> int" where
  "severity_rank_of CS_Violating = 0"
| "severity_rank_of CS_Recovering = 1"
| "severity_rank_of CS_AtRisk = 2"
| "severity_rank_of CS_NearLimit = 3"
| "severity_rank_of CS_Compliant = 4"
| "severity_rank_of CS_InsufficientEvidence = 5"
| "severity_rank_of CS_RevalidationRequired = 6"
| "severity_rank_of CS_Suspended = 7"

definition severity_magnitude :: "Objective \<Rightarrow> double \<Rightarrow> double" where
  "severity_magnitude ob m =
     (let breach = numeric_limit ob True
      in if dle breach dzero then dzero
         else if o_comparison ob = AtMost then ddiv m breach
         else ddiv breach (if dgt m dzero then m else dec 1 1))"

definition stable_hash :: "string \<Rightarrow> u64" where
  "stable_hash s = foldl (\<lambda>h c. (h XOR ucast (byte_of_char c)) * 1099511628211) 14695981039346656037 s"

section \<open>Explanation\<close>

datatype ChangeReason =
    CR_LatencyBelowRecovery | CR_CapacityBecomesAvailable | CR_WorkloadPriorityChanges | CR_BudgetReplenishes
  | CR_DeadlineRelaxes | CR_MemoryPressureFalls | CR_CostBudgetIncreases | CR_WarmReplicaBecomesReady
  | CR_RecoveryCandidateImproves | CR_ThroughputRises | CR_EvidenceBecomesFresh | CR_PolicyGenerationChanges | CR_ConfigurationChanges

fun change_reason_name :: "ChangeReason \<Rightarrow> string" where
  "change_reason_name CR_LatencyBelowRecovery = ''latency_below_recovery''"
| "change_reason_name CR_CapacityBecomesAvailable = ''capacity_becomes_available''"
| "change_reason_name CR_WorkloadPriorityChanges = ''workload_priority_changes''"
| "change_reason_name CR_BudgetReplenishes = ''budget_replenishes''"
| "change_reason_name CR_DeadlineRelaxes = ''deadline_relaxes''"
| "change_reason_name CR_MemoryPressureFalls = ''memory_pressure_falls''"
| "change_reason_name CR_CostBudgetIncreases = ''cost_budget_increases''"
| "change_reason_name CR_WarmReplicaBecomesReady = ''warm_replica_becomes_ready''"
| "change_reason_name CR_RecoveryCandidateImproves = ''recovery_candidate_improves''"
| "change_reason_name CR_ThroughputRises = ''throughput_rises''"
| "change_reason_name CR_EvidenceBecomesFresh = ''evidence_becomes_fresh''"
| "change_reason_name CR_PolicyGenerationChanges = ''policy_generation_changes''"
| "change_reason_name CR_ConfigurationChanges = ''configuration_changes''"

datatype RequiredChange = RequiredChange (rc_reason: ChangeReason) (rc_description: string)

datatype WhatWouldChange = WhatWouldChange (wwc_reasons: "ChangeReason list") (wwc_required_changes: "RequiredChange list")

record ObjectiveState =
  os_id :: ObjectiveId
  os_gen :: ObjectiveGen
  os_name :: string
  os_dim :: Dimension
  os_kind :: ObjectiveKind
  os_state :: ComplianceState
  os_current_value :: "ObjectiveValue option"
  os_target :: ObjectiveValue
  os_breach_threshold :: "ObjectiveValue option"
  os_recovery_threshold :: "ObjectiveValue option"
  os_comparison :: Comparison
  os_hard :: HardSoft
  os_freshness :: Freshness
  os_provenance :: Provenance
  os_sample_count :: Count
  os_sufficient :: bool
  os_confidence :: "double option"
  os_budget_state :: "BudgetState option"
  os_burn :: "BurnRate option"
  os_predicted :: PredictedRisk
  os_detail :: string

datatype RankedIntent = RankedIntent (ri_action: EnforcementAction) (ri_selected: bool) (ri_rationale: string)

record Explanation =
  ex_contract_id :: SloContractId
  ex_contract_gen :: SloContractGen
  ex_policy_id :: PolicyId
  ex_policy_gen :: PolicyGen
  ex_service :: ServiceId
  ex_workload :: WorkloadId
  ex_epoch :: CoordinatorEpoch
  ex_workload_gen :: WorkloadGen
  ex_evidence_gen :: EvidenceGen
  ex_evaluation_id :: EvaluationId
  ex_evaluation_gen :: EvaluationGen
  ex_objectives :: "ObjectiveState list"
  ex_compliance :: ComplianceState
  ex_binding_dimension :: Dimension
  ex_binding_objective :: ObjectiveId
  ex_secondary_constraints :: "ObjectiveId list"
  ex_predicted_risks :: "PredictedRisk list"
  ex_selected_action :: EnforcementAction
  ex_ranked_intents :: "RankedIntent list"
  ex_policy_rationale :: string
  ex_what_would_change :: WhatWouldChange

record EvaluationResult =
  er_status :: Status
  er_explanation :: Explanation
  er_intent :: EnforcementIntent

section \<open>One objective\<close>

record ObjEval =
  oe_obj :: Objective
  oe_st :: ObjectiveState
  oe_measured :: double
  oe_state :: ComplianceState
  oe_risk :: PredictedRisk
  oe_severity_rank :: int
  oe_magnitude :: double

definition objective_state :: "Objective \<Rightarrow> Measurement \<Rightarrow> Freshness \<Rightarrow> ObjectiveState" where
  "objective_state ob m fr =
     \<lparr> os_id = o_id ob, os_gen = o_gen ob, os_name = o_name ob, os_dim = o_dim ob, os_kind = o_kind ob,
       os_state = CS_InsufficientEvidence, os_current_value = None, os_target = o_target ob,
       os_breach_threshold = o_breach_threshold ob, os_recovery_threshold = o_recovery_threshold ob,
       os_comparison = o_comparison ob, os_hard = o_hard ob, os_freshness = fr, os_provenance = PV_Unknown,
       os_sample_count = ms_samples m, os_sufficient = ms_sufficient m, os_confidence = None, os_budget_state = None,
       os_burn = None, os_predicted = PR_None, os_detail = [] \<rparr>"

text \<open>The budget part of the loop body: roll the window, then read state and burn.\<close>

definition roll_budget :: "Duration \<Rightarrow> ObjectiveAccumulator \<Rightarrow> ObjectiveAccumulator" where
  "roll_budget now a =
     (if a_has_budget a \<and> window_rolled (a_budget a) now then a\<lparr> a_budget := reset_window now (a_budget a) \<rparr> else a)"

definition with_budget :: "Duration \<Rightarrow> ObjectiveAccumulator \<Rightarrow> ObjectiveState \<Rightarrow> ObjectiveState" where
  "with_budget now a st =
     (if a_has_budget a
      then st\<lparr> os_budget_state := Some (budget_state (a_budget a)), os_burn := Some (classify_burn (a_budget a) now) \<rparr>
      else st)"

text \<open>
  The body of the loop over the objectives of a contract, on the accumulator of the objective: the new accumulator,
  the evaluation, and what it appends to the text that is hashed into the digest.
\<close>

definition eval_objective :: "Objective \<Rightarrow> Duration \<Rightarrow> ObjectiveAccumulator \<Rightarrow> ObjectiveAccumulator \<times> ObjEval \<times> string" where
  "eval_objective ob now a0 =
     (let m = compute_measured a0 now;
          fr = evaluate_freshness a0 now;
          a = roll_budget now a0;
          st = with_budget now a (objective_state ob m fr)
      in if \<not> ms_got m \<or> \<not> ms_sufficient m \<or> fr = FR_Stale \<or> fr = FR_Expired then
           (let state = (if fr = FR_Stale then CS_RevalidationRequired else CS_InsufficientEvidence);
                detail = (if fr = FR_Stale then ''stale evidence requires revalidation''
                          else if ms_detail m = [] then ''no current evidence'' else ms_detail m);
                st = st\<lparr> os_state := state, os_provenance := PV_Unknown,
                         os_detail := (if detail = [] then ''no evidence'' else detail) \<rparr>
            in (a\<lparr> a_last_state := state, a_last_state_time := now \<rparr>,
                \<lparr> oe_obj = ob, oe_st = st, oe_measured = ms_value m, oe_state = state, oe_risk = PR_None,
                  oe_severity_rank = 99, oe_magnitude = dzero \<rparr>, []))
         else
           (let state0 = step_state ob (ms_value m) (a_last_state a);
                state = (if a_has_budget a \<and> budget_state (a_budget a) = BS_Exhausted \<and> state0 = CS_Compliant
                         then CS_NearLimit else state0);
                risk = predict_risk ob a now (ms_value m) (numeric_limit ob True);
                st = st\<lparr> os_state := state, os_current_value := Some (make_value (expected_unit_for (o_dim ob)) (ms_value m)),
                         os_sufficient := True, os_predicted := risk, os_detail := severity_reason state,
                         os_provenance := PV_Measured \<rparr>
            in (a\<lparr> a_last_state := state, a_last_state_time := now \<rparr>,
                \<lparr> oe_obj = ob, oe_st = st, oe_measured = ms_value m, oe_state = state, oe_risk = risk,
                  oe_severity_rank = severity_rank_of state, oe_magnitude = severity_magnitude ob (ms_value m) \<rparr>,
                o_name ob @ ''='' @ show_int (uint (enum_code compliance_states state)) @ '';'' @
                  d_to_string (ms_value m) @ '';'')))"

section \<open>Ranking\<close>

definition eval_before :: "ObjEval \<Rightarrow> ObjEval \<Rightarrow> bool" where
  "eval_before a b =
     (if oe_severity_rank a \<noteq> oe_severity_rank b then oe_severity_rank a < oe_severity_rank b
      else if \<not> deq (oe_magnitude a) (oe_magnitude b) then dgt (oe_magnitude a) (oe_magnitude b)
      else if priority_value (o_priority (oe_obj a)) \<noteq> priority_value (o_priority (oe_obj b))
      then priority_value (o_priority (oe_obj a)) < priority_value (o_priority (oe_obj b))
      else o_name (oe_obj a) < o_name (oe_obj b))"

text \<open>
  \<^verbatim>\<open>std::sort\<close> with this comparison; equivalent elements keep their order in the model.  The comparison orders magnitudes
  strictly only if they are numbers: for a magnitude that is not a number it is no strict weak order
  (\<^verbatim>\<open>eval_before_nan\<close>), the behaviour of \<^verbatim>\<open>std::sort\<close> is then undefined, and the model says nothing about the code.
\<close>

fun insert_eval :: "ObjEval \<Rightarrow> ObjEval list \<Rightarrow> ObjEval list" where
  "insert_eval x [] = [x]"
| "insert_eval x (y # ys) = (if eval_before y x then y # insert_eval x ys else x # y # ys)"

definition sort_evals :: "ObjEval list \<Rightarrow> ObjEval list" where
  "sort_evals xs = foldr insert_eval xs []"

text \<open>
  The overall state and the binding objective.  \<open>None\<close> is the read of the first element of an empty list of
  evaluations, which the code performs when a contract has no objectives.
\<close>

definition decide :: "ObjEval list \<Rightarrow> (ComplianceState \<times> Objective option) option" where
  "decide evals =
     (if \<exists>e \<in> set evals. oe_state e = CS_RevalidationRequired then Some (CS_RevalidationRequired, None)
      else if \<exists>e \<in> set evals. oe_state e = CS_InsufficientEvidence then Some (CS_InsufficientEvidence, None)
      else let hard = filter (\<lambda>e. oe_state e \<noteq> CS_Compliant) evals
           in if hard = [] \<and> evals = [] then None
              else let front = hd (sort_evals (if hard = [] then [hd evals] else hard))
                   in Some (oe_state front, Some (oe_obj front)))"

definition change_reason_for :: "Dimension \<Rightarrow> ChangeReason" where
  "change_reason_for d =
     (case d of
        Dim_Latency \<Rightarrow> CR_LatencyBelowRecovery
      | Dim_MemoryPressure \<Rightarrow> CR_MemoryPressureFalls
      | Dim_Cost \<Rightarrow> CR_CostBudgetIncreases
      | Dim_Availability \<Rightarrow> CR_WarmReplicaBecomesReady
      | Dim_Throughput \<Rightarrow> CR_ThroughputRises
      | Dim_RecoveryTime \<Rightarrow> CR_RecoveryCandidateImproves)"

definition ranked_intents :: "ObjEval list \<Rightarrow> Objective \<Rightarrow> RankedIntent list" where
  "ranked_intents evals bobj =
     map (\<lambda>e. RankedIntent (action_for (oe_obj e) (oe_state e)) (o_id (oe_obj e) = o_id bobj)
                (o_name (oe_obj e) @ '': '' @ severity_reason (oe_state e)))
       (filter (\<lambda>e. oe_state e \<in> {CS_Violating, CS_Recovering, CS_AtRisk, CS_NearLimit}) evals)"

definition what_would_change :: "ObjEval list \<Rightarrow> Objective \<Rightarrow> WhatWouldChange" where
  "what_would_change evals bobj = WhatWouldChange []
     (map (\<lambda>_. RequiredChange (change_reason_for (o_dim bobj)) (''move '' @ o_name bobj @ '' below its recovery threshold''))
       (filter (\<lambda>e. o_id (oe_obj e) = o_id bobj) evals))"

definition secondary_constraints :: "ObjEval list \<Rightarrow> Objective \<Rightarrow> ObjectiveId list" where
  "secondary_constraints evals bobj =
     map (\<lambda>e. o_id (oe_obj e)) (filter (\<lambda>e. o_id (oe_obj e) \<noteq> o_id bobj \<and> oe_state e \<noteq> CS_Compliant) evals)"

definition select_action :: "Objective \<Rightarrow> ComplianceState \<Rightarrow> Duration \<Rightarrow> Duration \<Rightarrow> EnforcementAction" where
  "select_action bobj overall cooldown_until now =
     (if now < cooldown_until then EA_NoAction
      else if o_enforcement bobj = EC_None then EA_NoAction
      else action_for bobj overall)"

section \<open>Facts\<close>

subsection \<open>Zones\<close>

fun zone_rank :: "Zone \<Rightarrow> nat" where
  "zone_rank Zone_Compliant = 0"
| "zone_rank Zone_Near = 1"
| "zone_rank Zone_Violation = 2"

lemma dgt_mono: "dlt x m \<Longrightarrow> dle m m' \<Longrightarrow> dlt x m'"
  by (auto simp: dlt_def dle_def)

lemma dlt_mono: "dlt m x \<Longrightarrow> dle m' m \<Longrightarrow> dlt m' x"
  by (auto simp: dlt_def dle_def)

text \<open>A worse measurement never lands in a better zone.\<close>

lemma zone_at_most_mono:
  "o_comparison ob = AtMost \<Longrightarrow> dle m m' \<Longrightarrow> zone_rank (classify_zone ob m) \<le> zone_rank (classify_zone ob m')"
  by (auto simp: classify_zone_def Let_def dest: dgt_mono)

lemma zone_at_least_mono:
  "o_comparison ob = AtLeast \<Longrightarrow> dle m' m \<Longrightarrow> zone_rank (classify_zone ob m) \<le> zone_rank (classify_zone ob m')"
  by (auto simp: classify_zone_def Let_def dest: dlt_mono)

lemma step_state_cases:
  "step_state ob m prev \<in> {CS_Violating, CS_Compliant, CS_NearLimit} \<or> (step_state ob m prev = CS_Recovering \<and> prev = CS_Recovering)"
  by (auto simp: step_state_def split: Zone.split)

lemma step_state_assigned: "prev \<in> assigned_states \<Longrightarrow> step_state ob m prev \<in> assigned_states"
  by (auto simp: step_state_def assigned_states_def split: Zone.split)

text \<open>With hysteresis, a violation is left only below the recovery threshold.\<close>

definition hysteresis :: "Objective \<Rightarrow> bool" where
  "hysteresis ob \<longleftrightarrow> \<not> deq (numeric_limit ob True) (numeric_limit ob False)"

lemma violation_latch:
  assumes "hysteresis ob" "o_comparison ob = AtMost" "dgt m (dadd (numeric_limit ob False) kEpsilon)"
  shows "step_state ob m CS_Violating = CS_Violating"
  using assms by (auto simp: step_state_def classify_zone_def hysteresis_def Let_def)

subsection \<open>Evaluation of one objective\<close>

lemma roll_budget_inv: "acc_inv a \<Longrightarrow> acc_inv (roll_budget now a)"
  by (auto simp: roll_budget_def acc_inv_def reset_window_inv)

lemma roll_budget_fields [simp]:
  "a_last_state (roll_budget now a) = a_last_state a" "a_def (roll_budget now a) = a_def a"
  "a_cooldown_until (roll_budget now a) = a_cooldown_until a" "a_has_budget (roll_budget now a) = a_has_budget a"
  by (simp_all add: roll_budget_def)

definition usable :: "ObjectiveAccumulator \<Rightarrow> Duration \<Rightarrow> bool" where
  "usable a now \<longleftrightarrow> ms_got (compute_measured a now) \<and> ms_sufficient (compute_measured a now) \<and>
     evaluate_freshness a now \<noteq> FR_Stale \<and> evaluate_freshness a now \<noteq> FR_Expired"

text \<open>The verdict from usable evidence: the zone step, and no better than near the limit on an exhausted budget.\<close>

definition verdict :: "Objective \<Rightarrow> Duration \<Rightarrow> ObjectiveAccumulator \<Rightarrow> ComplianceState" where
  "verdict ob now a =
     (let st = step_state ob (ms_value (compute_measured a now)) (a_last_state a);
          b = roll_budget now a
      in if a_has_budget a \<and> budget_state (a_budget b) = BS_Exhausted \<and> st = CS_Compliant then CS_NearLimit else st)"

lemma eval_objective_fields:
  "a_def (fst (eval_objective ob now a)) = a_def a"
  "a_cooldown_until (fst (eval_objective ob now a)) = a_cooldown_until a"
  "a_has_budget (fst (eval_objective ob now a)) = a_has_budget a"
  "oe_obj (fst (snd (eval_objective ob now a))) = ob"
  "a_last_state (fst (eval_objective ob now a)) = oe_state (fst (snd (eval_objective ob now a)))"
  "os_state (oe_st (fst (snd (eval_objective ob now a)))) = oe_state (fst (snd (eval_objective ob now a)))"
  by (simp_all add: eval_objective_def Let_def)

text \<open>
  The state of an objective: without usable evidence, stale evidence asks for revalidation and anything else that is
  missing is insufficient; with usable evidence it is the verdict.
\<close>

lemma eval_objective_state:
  "oe_state (fst (snd (eval_objective ob now a))) =
     (if usable a now then verdict ob now a
      else if evaluate_freshness a now = FR_Stale then CS_RevalidationRequired
      else CS_InsufficientEvidence)"
  by (simp add: eval_objective_def usable_def verdict_def Let_def)

lemma eval_objective_acc:
  "fst (eval_objective ob now a) =
     (roll_budget now a)\<lparr> a_last_state := oe_state (fst (snd (eval_objective ob now a))), a_last_state_time := now \<rparr>"
  by (simp add: eval_objective_def Let_def)

lemma eval_objective_rank:
  "usable a now \<Longrightarrow>
     oe_severity_rank (fst (snd (eval_objective ob now a))) = severity_rank_of (verdict ob now a)"
  by (simp add: eval_objective_def usable_def verdict_def Let_def)

lemma verdict_assigned: "a_last_state a \<in> assigned_states \<Longrightarrow> verdict ob now a \<in> assigned_states"
  using step_state_assigned [of "a_last_state a" ob "ms_value (compute_measured a now)"]
  by (simp add: verdict_def Let_def) (simp add: assigned_states_def)

lemma verdict_judges: "a_last_state a \<in> assigned_states \<Longrightarrow> verdict ob now a \<in> {CS_Compliant, CS_NearLimit, CS_Violating}"
  using step_state_cases [of ob "ms_value (compute_measured a now)" "a_last_state a"]
  by (auto simp: verdict_def Let_def assigned_states_def)

lemma eval_objective_assigned:
  "a_last_state a \<in> assigned_states \<Longrightarrow> oe_state (fst (snd (eval_objective ob now a))) \<in> assigned_states"
  using verdict_assigned [of a ob now] by (simp add: eval_objective_state) (simp add: assigned_states_def)

lemma eval_objective_inv: "acc_inv a \<Longrightarrow> acc_inv (fst (eval_objective ob now a))"
  unfolding eval_objective_acc
  by (intro acc_inv_state roll_budget_inv eval_objective_assigned) (simp_all add: acc_inv_def)

subsection \<open>Ranking\<close>

definition eval_key :: "ObjEval \<Rightarrow> int \<times> int \<times> int \<times> string" where
  "eval_key e = (oe_severity_rank e, - dkey (oe_magnitude e), priority_value (o_priority (oe_obj e)), o_name (oe_obj e))"

lemma eval_before_key:
  "\<not> is_nan (oe_magnitude a) \<Longrightarrow> \<not> is_nan (oe_magnitude b) \<Longrightarrow> eval_before a b \<longleftrightarrow> eval_key a < eval_key b"
  by (auto simp: eval_before_def eval_key_def less_prod_def' deq_def dlt_def)

text \<open>
  A magnitude that is not a number is equivalent to every other one of the same severity, so equivalence is not
  transitive as soon as there are two different ones.
\<close>

lemma eval_before_nan:
  assumes "oe_severity_rank a = r" "oe_severity_rank b = r" "oe_severity_rank c = r"
    "is_nan (oe_magnitude b)" "dgt (oe_magnitude a) (oe_magnitude c)"
  shows "\<not> eval_before a b \<and> \<not> eval_before b a \<and> \<not> eval_before b c \<and> \<not> eval_before c b \<and> eval_before a c"
  using assms by (auto simp: eval_before_def deq_def dlt_def)

lemma set_insert_eval [simp]: "set (insert_eval x xs) = insert x (set xs)"
  by (induction xs) auto

lemma set_sort_evals [simp]: "set (sort_evals xs) = set xs"
  by (induction xs) (simp_all add: sort_evals_def)

definition ranked :: "ObjEval list \<Rightarrow> bool" where
  "ranked xs \<longleftrightarrow> (\<forall>e \<in> set xs. \<not> is_nan (oe_magnitude e))"

lemma insert_eval_sorted:
  "ranked (x # xs) \<Longrightarrow> sorted (map eval_key xs) \<Longrightarrow> sorted (map eval_key (insert_eval x xs))"
proof (induction xs)
  case (Cons y ys)
  then have "eval_before y x \<longleftrightarrow> eval_key y < eval_key x" by (simp add: ranked_def eval_before_key)
  with Cons show ?case by (auto simp: ranked_def)
qed simp

lemma sort_evals_sorted: "ranked xs \<Longrightarrow> sorted (map eval_key (sort_evals xs))"
proof (induction xs)
  case (Cons x xs)
  then have "sorted (map eval_key (sort_evals xs))" by (simp add: ranked_def)
  moreover have "ranked (x # sort_evals xs)" using Cons.prems by (simp add: ranked_def)
  ultimately show ?case using insert_eval_sorted by (simp add: sort_evals_def)
qed (simp add: sort_evals_def)

lemma sort_evals_hd:
  assumes "xs \<noteq> []"
  shows "hd (sort_evals xs) \<in> set xs" "ranked xs \<Longrightarrow> e \<in> set xs \<Longrightarrow> eval_key (hd (sort_evals xs)) \<le> eval_key e"
proof -
  have ne: "sort_evals xs \<noteq> []" using assms set_sort_evals [of xs] by (metis set_empty)
  then show "hd (sort_evals xs) \<in> set xs" using hd_in_set set_sort_evals by metis
  assume "ranked xs" "e \<in> set xs"
  then have "sorted (map eval_key (sort_evals xs))" "e \<in> set (sort_evals xs)" by (simp_all add: sort_evals_sorted)
  then show "eval_key (hd (sort_evals xs)) \<le> eval_key e" using ne by (cases "sort_evals xs") auto
qed

text \<open>The binding evaluation: one of those that are not compliant if there is one, and no other ranks before it.\<close>

lemma decide_binding:
  assumes "decide evals = Some (overall, Some b)"
  obtains e where "e \<in> set evals" "oe_obj e = b" "oe_state e = overall"
    "\<forall>e' \<in> set evals. oe_state e' \<noteq> CS_RevalidationRequired \<and> oe_state e' \<noteq> CS_InsufficientEvidence"
    "overall = CS_Compliant \<longleftrightarrow> (\<forall>e' \<in> set evals. oe_state e' = CS_Compliant)"
    "ranked evals \<Longrightarrow> \<forall>e' \<in> set evals. oe_state e' \<noteq> CS_Compliant \<longrightarrow> eval_key e \<le> eval_key e'"
proof -
  let ?hard = "filter (\<lambda>e. oe_state e \<noteq> CS_Compliant) evals"
  let ?cand = "if ?hard = [] then [hd evals] else ?hard"
  let ?e = "hd (sort_evals ?cand)"
  from assms have usable: "\<forall>e' \<in> set evals. oe_state e' \<noteq> CS_RevalidationRequired \<and> oe_state e' \<noteq> CS_InsufficientEvidence"
    and ne: "evals \<noteq> []" and e: "oe_state ?e = overall" "oe_obj ?e = b"
    by (auto simp: decide_def Let_def split: if_splits)
  have sub: "set ?cand \<subseteq> set evals" using ne by auto
  have "?cand \<noteq> []" by auto
  note front = sort_evals_hd [OF this]
  have "overall = CS_Compliant \<longleftrightarrow> (\<forall>e' \<in> set evals. oe_state e' = CS_Compliant)"
  proof (cases "?hard = []")
    case True
    then show ?thesis using front(1) e(1) ne by (auto simp: filter_empty_conv)
  next
    case False
    then have "?e \<in> set ?hard" using front(1) by simp
    then show ?thesis using e(1) by auto
  qed
  moreover have "\<forall>e' \<in> set evals. oe_state e' \<noteq> CS_Compliant \<longrightarrow> eval_key ?e \<le> eval_key e'" if "ranked evals"
  proof (intro ballI impI)
    fix e' assume e': "e' \<in> set evals" "oe_state e' \<noteq> CS_Compliant"
    then have "?hard \<noteq> []" by (auto simp: filter_empty_conv)
    then have "e' \<in> set ?cand" using e' by simp
    moreover have "ranked ?cand" using that sub by (auto simp: ranked_def)
    ultimately show "eval_key ?e \<le> eval_key e'" using front(2) by blast
  qed
  moreover have "?e \<in> set evals" using front(1) sub by blast
  ultimately show thesis using that e usable by blast
qed

lemma decide_unusable:
  "decide evals = Some (overall, None) \<Longrightarrow>
     (overall = CS_RevalidationRequired \<and> (\<exists>e \<in> set evals. oe_state e = CS_RevalidationRequired)) \<or>
     (overall = CS_InsufficientEvidence \<and> (\<exists>e \<in> set evals. oe_state e = CS_InsufficientEvidence) \<and>
        (\<forall>e \<in> set evals. oe_state e \<noteq> CS_RevalidationRequired))"
  by (auto simp: decide_def Let_def split: if_splits)

lemma decide_defined: "evals \<noteq> [] \<Longrightarrow> \<exists>r. decide evals = Some r"
  by (simp add: decide_def Let_def)

end
