(* ===== verification/Adapter.thy ===== *)
theory Adapter
  imports Enforcement
begin

text \<open>
  The enforcement adapters (\<^verbatim>\<open>adapter.hpp\<close>): the seven narrow interfaces as records of operations on the state
  \<open>'s\<close> of the runtime behind them, the router that sends an intent to the one interface its action belongs to, and
  the reference sink that implements every interface and records what it was asked to do.

  The locale \<open>fenced_enforcer\<close> is the contract between the router and a runtime: every call is recorded, and only
  an intent inside the runtime's generation fence succeeds.  It is interpreted on the reference sink.
\<close>

section \<open>Interfaces\<close>

type_synonym 's enforce = "EnforcementIntent \<Rightarrow> 's \<Rightarrow> Status \<times> 's"

record 's IAdmissionEnforcer =
  ae_admit :: "'s enforce"
  ae_defer :: "'s enforce"
  ae_reject :: "'s enforce"
  ae_throttle :: "'s enforce"

record 's ISchedulerEnforcer =
  se_change_queue_priority :: "'s enforce"
  se_reserve_capacity :: "'s enforce"

record 's IResourceEnforcer =
  re_increase_capacity :: "'s enforce"
  re_replicate :: "'s enforce"
  re_promote_warm_capacity :: "'s enforce"
  re_change_placement :: "'s enforce"

record 's IRecoveryEnforcer =
  ce_failover :: "'s enforce"
  ce_recover :: "'s enforce"
  ce_replan_recovery :: "'s enforce"
  ce_drain :: "'s enforce"

record 's IMemoryEnforcer =
  me_reclaim_memory :: "'s enforce"
  me_reduce_residency :: "'s enforce"

record 's IPreemptionEnforcer =
  pe_preempt_lower_priority :: "'s enforce"

record 's IPowerEnforcer =
  we_limit_power :: "'s enforce"

record 's EnforcementRouter =
  er_admission :: "'s IAdmissionEnforcer option"
  er_scheduler :: "'s ISchedulerEnforcer option"
  er_resource :: "'s IResourceEnforcer option"
  er_recovery :: "'s IRecoveryEnforcer option"
  er_memory :: "'s IMemoryEnforcer option"
  er_preemption :: "'s IPreemptionEnforcer option"
  er_power :: "'s IPowerEnforcer option"

definition call_port :: "'p option \<Rightarrow> ('p \<Rightarrow> 's enforce) \<Rightarrow> string \<Rightarrow> 's enforce" where
  "call_port port method missing i s = (case port of None \<Rightarrow> (not_ready missing, s) | Some p \<Rightarrow> method p i s)"

definition router_dispatch :: "'s EnforcementRouter \<Rightarrow> 's enforce" where
  "router_dispatch r i s =
     (case i_action i of
        EA_Admit \<Rightarrow> call_port (er_admission r) ae_admit ''no admission enforcer'' i s
        | EA_Defer \<Rightarrow> call_port (er_admission r) ae_defer ''no admission enforcer'' i s
        | EA_Reject \<Rightarrow> call_port (er_admission r) ae_reject ''no admission enforcer'' i s
        | EA_Throttle \<Rightarrow> call_port (er_admission r) ae_throttle ''no admission enforcer'' i s
        | EA_ChangeQueuePriority \<Rightarrow> call_port (er_scheduler r) se_change_queue_priority ''no scheduler enforcer'' i s
        | EA_ReserveCapacity \<Rightarrow> call_port (er_scheduler r) se_reserve_capacity ''no scheduler enforcer'' i s
        | EA_IncreaseCapacity \<Rightarrow> call_port (er_resource r) re_increase_capacity ''no resource enforcer'' i s
        | EA_Replicate \<Rightarrow> call_port (er_resource r) re_replicate ''no resource enforcer'' i s
        | EA_PromoteWarmCapacity \<Rightarrow> call_port (er_resource r) re_promote_warm_capacity ''no resource enforcer'' i s
        | EA_ChangePlacement \<Rightarrow> call_port (er_resource r) re_change_placement ''no resource enforcer'' i s
        | EA_Failover \<Rightarrow> call_port (er_recovery r) ce_failover ''no recovery enforcer'' i s
        | EA_Recover \<Rightarrow> call_port (er_recovery r) ce_recover ''no recovery enforcer'' i s
        | EA_ReplanRecovery \<Rightarrow> call_port (er_recovery r) ce_replan_recovery ''no recovery enforcer'' i s
        | EA_Drain \<Rightarrow> call_port (er_recovery r) ce_drain ''no recovery enforcer'' i s
        | EA_ReclaimMemory \<Rightarrow> call_port (er_memory r) me_reclaim_memory ''no memory enforcer'' i s
        | EA_ReduceResidency \<Rightarrow> call_port (er_memory r) me_reduce_residency ''no memory enforcer'' i s
        | EA_PreemptLowerPriority \<Rightarrow> call_port (er_preemption r) pe_preempt_lower_priority ''no preemption enforcer'' i s
        | EA_LimitPower \<Rightarrow> call_port (er_power r) we_limit_power ''no power enforcer'' i s
      | EA_NoAction \<Rightarrow> (ok, s)
      | EA_ReduceBatchSize \<Rightarrow> (ok, s)
      | EA_IncreaseBatchSize \<Rightarrow> (ok, s)
      | EA_Escalate \<Rightarrow> (ok, s)
      | EA_ManualInterventionRequired \<Rightarrow> (ok, s)
      | EA_unnamed _ \<Rightarrow> (invalid_input ''unmapped enforcement action'', s))"

definition validate_intent_generations :: "EnforcementIntent \<Rightarrow> Status" where
  "validate_intent_generations i =
     (if \<not> gen_valid (i_contract_gen i) then invalid_input ''intent missing contract generation''
      else if \<not> gen_valid (i_policy_gen i) then invalid_input ''intent missing policy generation''
      else if \<not> gen_valid (i_evaluation_gen i) then invalid_input ''intent missing evaluation generation''
      else if \<not> gen_valid (i_epoch i) then invalid_input ''intent missing coordinator epoch''
      else ok)"

section \<open>Reference sink\<close>

datatype DispatchRecord =
  DispatchRecord (dr_action: EnforcementAction) (dr_intent: EnforcementIntent) (dr_status: Status) (dr_seq: u64)

record ReferenceEnforcementSink =
  snk_records :: "DispatchRecord list"
  snk_seq :: u64
  snk_fence :: bool
  snk_fail_all :: bool
  snk_epoch :: CoordinatorEpoch
  snk_contract_gen :: SloContractGen
  snk_policy_gen :: PolicyGen
  snk_eval_gen :: EvaluationGen

definition empty_sink :: ReferenceEnforcementSink where
  "empty_sink = \<lparr> snk_records = [], snk_seq = 0, snk_fence = False, snk_fail_all = False, snk_epoch = Gen 0,
     snk_contract_gen = Gen 0, snk_policy_gen = Gen 0, snk_eval_gen = Gen 0 \<rparr>"

definition set_authorized_generations ::
    "CoordinatorEpoch \<Rightarrow> SloContractGen \<Rightarrow> PolicyGen \<Rightarrow> EvaluationGen \<Rightarrow> ReferenceEnforcementSink \<Rightarrow> ReferenceEnforcementSink" where
  "set_authorized_generations epoch cg pg eg s =
     s\<lparr> snk_fence := True, snk_epoch := epoch, snk_contract_gen := cg, snk_policy_gen := pg, snk_eval_gen := eg \<rparr>"

definition disable_generation_fence :: "ReferenceEnforcementSink \<Rightarrow> ReferenceEnforcementSink" where
  "disable_generation_fence s = s\<lparr> snk_fence := False \<rparr>"

definition set_fail_all :: "bool \<Rightarrow> ReferenceEnforcementSink \<Rightarrow> ReferenceEnforcementSink" where
  "set_fail_all b s = s\<lparr> snk_fail_all := b \<rparr>"

definition sink_clear :: "ReferenceEnforcementSink \<Rightarrow> ReferenceEnforcementSink" where
  "sink_clear s = s\<lparr> snk_records := [] \<rparr>"

definition sink_record ::
    "EnforcementAction \<Rightarrow> EnforcementIntent \<Rightarrow> Status \<Rightarrow> ReferenceEnforcementSink \<Rightarrow> Status \<times> ReferenceEnforcementSink" where
  "sink_record a i st s =
     (let n = snk_seq s + 1
      in (st, s\<lparr> snk_seq := n, snk_records := snk_records s @ [DispatchRecord a i st n] \<rparr>))"

definition sink_dispatch :: "EnforcementAction \<Rightarrow> ReferenceEnforcementSink enforce" where
  "sink_dispatch a i s =
     (let v = validate_intent_generations i
      in if \<not> status_ok v then sink_record a i v s
         else if snk_fence s \<and> (i_epoch i \<noteq> snk_epoch s \<or> i_contract_gen i \<noteq> snk_contract_gen s \<or>
                                i_policy_gen i \<noteq> snk_policy_gen s \<or> i_evaluation_gen i \<noteq> snk_eval_gen s)
         then sink_record a i (stale_authority ''intent generation does not match current authority'') s
         else if snk_fail_all s then sink_record a i (enforcement_failed ''simulated adapter failure'') s
         else sink_record a i ok s)"

text \<open>A router whose seven interfaces are all implemented by one operation, as \<^verbatim>\<open>ReferenceEnforcementSink\<close> does.\<close>

definition bound_router :: "(EnforcementAction \<Rightarrow> 's enforce) \<Rightarrow> 's EnforcementRouter" where
  "bound_router perform = \<lparr>
     er_admission = Some \<lparr> ae_admit = perform EA_Admit, ae_defer = perform EA_Defer, ae_reject = perform EA_Reject, ae_throttle = perform EA_Throttle \<rparr>,
     er_scheduler = Some \<lparr> se_change_queue_priority = perform EA_ChangeQueuePriority, se_reserve_capacity = perform EA_ReserveCapacity \<rparr>,
     er_resource = Some \<lparr> re_increase_capacity = perform EA_IncreaseCapacity, re_replicate = perform EA_Replicate, re_promote_warm_capacity = perform EA_PromoteWarmCapacity, re_change_placement = perform EA_ChangePlacement \<rparr>,
     er_recovery = Some \<lparr> ce_failover = perform EA_Failover, ce_recover = perform EA_Recover, ce_replan_recovery = perform EA_ReplanRecovery, ce_drain = perform EA_Drain \<rparr>,
     er_memory = Some \<lparr> me_reclaim_memory = perform EA_ReclaimMemory, me_reduce_residency = perform EA_ReduceResidency \<rparr>,
     er_preemption = Some \<lparr> pe_preempt_lower_priority = perform EA_PreemptLowerPriority \<rparr>,
     er_power = Some \<lparr> we_limit_power = perform EA_LimitPower \<rparr> \<rparr>"

fun dispatch_all :: "'s EnforcementRouter \<Rightarrow> EnforcementIntent list \<Rightarrow> 's \<Rightarrow> Status list \<times> 's" where
  "dispatch_all r [] s = ([], s)"
| "dispatch_all r (i # xs) s =
     (let (st, s') = router_dispatch r i s; (sts, s'') = dispatch_all r xs s' in (st # sts, s''))"

section \<open>The contract of a runtime\<close>

text \<open>The actions that belong to an interface; the others are answered by the router itself.\<close>

definition has_port :: "EnforcementAction \<Rightarrow> bool" where
  "has_port a \<longleftrightarrow> a \<notin> {EA_NoAction, EA_ReduceBatchSize, EA_IncreaseBatchSize, EA_Escalate, EA_ManualInterventionRequired}
     \<and> (\<forall>b. a \<noteq> EA_unnamed b)"

lemma router_dispatch_bound:
  "router_dispatch (bound_router perform) i s =
     (if has_port (i_action i) then perform (i_action i) i s
      else case i_action i of EA_unnamed _ \<Rightarrow> (invalid_input ''unmapped enforcement action'', s) | _ \<Rightarrow> (ok, s))"
  by (cases "i_action i") (simp_all add: router_dispatch_def bound_router_def call_port_def has_port_def)

lemma router_dispatch_unbound:
  assumes "has_port (i_action i)"
    "er_admission r = None" "er_scheduler r = None" "er_resource r = None" "er_recovery r = None"
    "er_memory r = None" "er_preemption r = None" "er_power r = None"
  shows "status_code (fst (router_dispatch r i s)) = SC_NotReady \<and> snd (router_dispatch r i s) = s"
  using assms by (cases "i_action i") (simp_all add: router_dispatch_def call_port_def has_port_def not_ready_def)

locale recording_enforcer =
  fixes perform :: "EnforcementAction \<Rightarrow> 's enforce"
    and history :: "'s \<Rightarrow> DispatchRecord list"
  assumes perform_history: "\<exists>n. history (snd (perform a i s)) = history s @ [DispatchRecord a i (fst (perform a i s)) n]"
begin

lemma dispatch_history:
  "map (\<lambda>d. (dr_action d, dr_intent d)) (history (snd (dispatch_all (bound_router perform) xs s))) =
   map (\<lambda>d. (dr_action d, dr_intent d)) (history s) @ map (\<lambda>i. (i_action i, i)) (filter (\<lambda>i. has_port (i_action i)) xs)"
proof (induction xs arbitrary: s)
  case (Cons i xs)
  obtain n where "history (snd (perform (i_action i) i s)) =
      history s @ [DispatchRecord (i_action i) i (fst (perform (i_action i) i s)) n]"
    using perform_history by blast
  then show ?case
    using Cons.IH [of "snd (router_dispatch (bound_router perform) i s)"]
    by (auto simp: router_dispatch_bound split_beta Let_def split: EnforcementAction.split)
qed simp

end

locale fenced_enforcer = recording_enforcer +
  fixes inside :: "'s \<Rightarrow> EnforcementIntent \<Rightarrow> bool"
  assumes perform_inside: "status_ok (fst (perform a i s)) \<Longrightarrow> inside s i"
    and perform_fence: "inside (snd (perform a i s)) = inside s"
begin

lemma dispatch_fence: "inside (snd (dispatch_all (bound_router perform) xs s)) = inside s"
  by (induction xs arbitrary: s)
     (auto simp: router_dispatch_bound split_beta Let_def perform_fence split: EnforcementAction.split)

lemma dispatch_inside:
  assumes "\<forall>d \<in> set (history s). status_ok (dr_status d) \<longrightarrow> inside s (dr_intent d)"
  shows "\<forall>d \<in> set (history (snd (dispatch_all (bound_router perform) xs s))). status_ok (dr_status d) \<longrightarrow> inside s (dr_intent d)"
  using assms
proof (induction xs arbitrary: s)
  case (Cons i xs)
  let ?s' = "snd (router_dispatch (bound_router perform) i s)"
  obtain n where n: "history (snd (perform (i_action i) i s)) =
      history s @ [DispatchRecord (i_action i) i (fst (perform (i_action i) i s)) n]"
    using perform_history by blast
  have fence: "inside ?s' = inside s" by (simp add: router_dispatch_bound perform_fence split: EnforcementAction.split)
  have "\<forall>d \<in> set (history ?s'). status_ok (dr_status d) \<longrightarrow> inside ?s' (dr_intent d)"
  proof (cases "has_port (i_action i)")
    case True
    then show ?thesis using n Cons.prems perform_inside [of "i_action i" i s] fence
      by (auto simp: router_dispatch_bound)
  next
    case False
    then have "?s' = s" by (simp add: router_dispatch_bound split: EnforcementAction.split)
    then show ?thesis using Cons.prems by simp
  qed
  from Cons.IH [OF this] fence show ?case by (simp add: split_beta Let_def)
qed simp

end

section \<open>The sink implements the contract\<close>

definition sink_inside :: "ReferenceEnforcementSink \<Rightarrow> EnforcementIntent \<Rightarrow> bool" where
  "sink_inside s i \<longleftrightarrow>
     status_ok (validate_intent_generations i) \<and> \<not> snk_fail_all s \<and>
     (snk_fence s \<longrightarrow> i_epoch i = snk_epoch s \<and> i_contract_gen i = snk_contract_gen s \<and>
        i_policy_gen i = snk_policy_gen s \<and> i_evaluation_gen i = snk_eval_gen s)"

interpretation sink: fenced_enforcer sink_dispatch snk_records sink_inside
proof
  fix a i s
  show "\<exists>n. snk_records (snd (sink_dispatch a i s)) = snk_records s @ [DispatchRecord a i (fst (sink_dispatch a i s)) n]"
    by (simp add: sink_dispatch_def sink_record_def Let_def)
  show "sink_inside (snd (sink_dispatch a i s)) = sink_inside s"
    by (simp add: sink_dispatch_def sink_record_def sink_inside_def Let_def fun_eq_iff)
  show "sink_inside s i" if "status_ok (fst (sink_dispatch a i s))"
    using that by (auto simp: sink_dispatch_def sink_record_def sink_inside_def Let_def split: if_splits)
qed

text \<open>The sink numbers its records from one, without a gap.\<close>

definition numbered :: "ReferenceEnforcementSink \<Rightarrow> bool" where
  "numbered s \<longleftrightarrow> snk_seq s = of_nat (length (snk_records s)) \<and>
     map dr_seq (snk_records s) = map (\<lambda>k. of_nat (Suc k)) [0..<length (snk_records s)]"

lemma numbered_dispatch: "numbered s \<Longrightarrow> numbered (snd (sink_dispatch a i s))"
  by (simp add: numbered_def sink_dispatch_def sink_record_def Let_def add.commute)

lemma numbered_all: "numbered s \<Longrightarrow> numbered (snd (dispatch_all (bound_router sink_dispatch) xs s))"
  by (induction xs arbitrary: s)
     (auto simp: split_beta Let_def router_dispatch_bound numbered_dispatch split: EnforcementAction.split)

section \<open>Properties\<close>

text \<open>
  Property C36.  With every interface bound to a fenced sink, any sequence of routed intents leaves a complete
  history: the records are the intents whose action belongs to an interface, in order, each under its own action
  and numbered from one; and an intent is recorded as successful only if it carries exactly the epoch and the
  contract, policy and evaluation generations of the fence.
\<close>

theorem routed_history_fenced:
  fixes xs :: "EnforcementIntent list" and e :: CoordinatorEpoch and c :: SloContractGen and p :: PolicyGen
    and g :: EvaluationGen
  defines "s \<equiv> snd (dispatch_all (bound_router sink_dispatch) xs (set_authorized_generations e c p g empty_sink))"
  shows "map (\<lambda>d. (dr_action d, dr_intent d)) (snk_records s) =
      map (\<lambda>i. (i_action i, i)) (filter (\<lambda>i. has_port (i_action i)) xs) \<and>
    map dr_seq (snk_records s) = map (\<lambda>k. of_nat (Suc k)) [0..<length (snk_records s)] \<and>
    (\<forall>d \<in> set (snk_records s). status_ok (dr_status d) \<longrightarrow>
       i_epoch (dr_intent d) = e \<and> i_contract_gen (dr_intent d) = c \<and> i_policy_gen (dr_intent d) = p \<and>
       i_evaluation_gen (dr_intent d) = g)"
proof -
  let ?s0 = "set_authorized_generations e c p g empty_sink"
  have empty: "snk_records ?s0 = []" by (simp add: set_authorized_generations_def empty_sink_def)
  have "numbered ?s0" by (simp add: numbered_def set_authorized_generations_def empty_sink_def)
  then have num: "numbered s" unfolding s_def by (rule numbered_all)
  have "\<forall>d \<in> set (snk_records ?s0). status_ok (dr_status d) \<longrightarrow> sink_inside ?s0 (dr_intent d)" by (simp add: empty)
  from sink.dispatch_inside [OF this, of xs]
  have "\<forall>d \<in> set (snk_records s). status_ok (dr_status d) \<longrightarrow> sink_inside ?s0 (dr_intent d)" unfolding s_def .
  then show ?thesis
    using num sink.dispatch_history [of xs ?s0] empty
    by (auto simp: s_def numbered_def sink_inside_def set_authorized_generations_def)
qed

theorem routed_history_fenced_witness:
  "let i = default_intent\<lparr> i_action := EA_Throttle, i_epoch := Gen 1, i_contract_gen := Gen 1, i_policy_gen := Gen 1,
             i_evaluation_gen := Gen 1 \<rparr>;
       recs = snk_records (snd (dispatch_all (bound_router sink_dispatch) [i, i\<lparr> i_action := EA_NoAction \<rparr>]
                (set_authorized_generations (Gen 1) (Gen 1) (Gen 1) (Gen 1) empty_sink)))
   in map dr_action recs = [EA_Throttle] \<and> map dr_intent recs = [i] \<and> map dr_seq recs = [1]"
proof -
  define i where "i = default_intent\<lparr> i_action := EA_Throttle, i_epoch := Gen 1, i_contract_gen := Gen 1,
    i_policy_gen := Gen 1, i_evaluation_gen := Gen 1 \<rparr>"
  define recs where "recs = snk_records (snd (dispatch_all (bound_router sink_dispatch) [i, i\<lparr> i_action := EA_NoAction \<rparr>]
                (set_authorized_generations (Gen 1) (Gen 1) (Gen 1) (Gen 1) empty_sink)))"
  have "map (\<lambda>d. (dr_action d, dr_intent d)) recs = [(EA_Throttle, i)] \<and>
      map dr_seq recs = map (\<lambda>k. of_nat (Suc k)) [0..<length recs]"
    using routed_history_fenced [of "[i, i\<lparr> i_action := EA_NoAction \<rparr>]" "Gen 1" "Gen 1" "Gen 1" "Gen 1"]
    unfolding recs_def by (simp add: i_def has_port_def del: dispatch_all.simps)
  then show ?thesis unfolding i_def [symmetric] recs_def [symmetric] Let_def by auto
qed

end
