(* ===== verification/Persistence.thy ===== *)
theory Persistence
  imports Codecs
begin

text \<open>
  Durable state (\<^verbatim>\<open>persistence.hpp\<close>, \<^verbatim>\<open>persistence.cpp\<close>): the canonical serialisation, its validating reader, the
  checksummed file, and the atomic replacement of a file through a temporary one.  The file system is a map from
  paths to contents; what the operating system may do with a call is a parameter (\<open>WriteOutcome\<close>, and whether a
  read succeeds).
\<close>

section \<open>Durable state\<close>

record DurableState =
  ds_format_version :: u32
  ds_epoch :: CoordinatorEpoch
  ds_policies :: "SloPolicy list"
  ds_contracts :: "SloContract list"
  ds_objective_states :: "PersistedObjectiveState list"
  ds_enforcement_history :: "EnforcementReceipt list"
  ds_evaluation_history :: "EvaluationRecord list"

definition kPersistenceMagic :: u32 where
  "kPersistenceMagic = 0x534C4F46"

definition kPersistenceVersion :: u32 where
  "kPersistenceVersion = 2"

definition write_items :: "('a \<Rightarrow> bytes) \<Rightarrow> 'a list \<Rightarrow> bytes" where
  "write_items enc xs = write_u64 (of_nat (length xs)) @ concat (map enc xs)"

definition serialize_state :: "DurableState \<Rightarrow> bytes" where
  "serialize_state st =
     write_u32 kPersistenceMagic @ write_u32 kPersistenceVersion @ write_gen (ds_epoch st) @
     write_items encode_policy (ds_policies st) @ write_items encode_contract (ds_contracts st) @
     write_items encode_objstate (ds_objective_states st) @ write_items encode_receipt (ds_enforcement_history st) @
     write_items encode_eval (ds_evaluation_history st)"

definition read_count :: "nat read" where
  "read_count r = do { (n, r) \<leftarrow> read_u64 r; if kMaxCollectionItems < uint n then None else Some (unat n, r) }"

text \<open>A failed read ends the decoding with the message the code gives it.\<close>

definition require :: "'a option \<Rightarrow> string \<Rightarrow> ('a \<Rightarrow> 'b Result) \<Rightarrow> 'b Result" where
  "require p msg k = (case p of None \<Rightarrow> result_error (persistence_corrupt msg) | Some x \<Rightarrow> k x)"

definition deserialize_state :: "bytes option \<Rightarrow> DurableState Result" where
  "deserialize_state data =
     (case data of None \<Rightarrow> result_error (persistence_corrupt ''null data'')
      | Some bs \<Rightarrow>
     if kMaxPersistenceBytes < int (length bs) then result_error (persistence_corrupt ''oversized payload'')
     else require (read_u32 (reader_from bs)) ''short header'' (\<lambda>(magic, r).
     if magic \<noteq> kPersistenceMagic then result_error (persistence_corrupt ''bad magic'')
     else require (read_u32 r) ''short header'' (\<lambda>(version, r).
     if version \<noteq> kPersistenceVersion then result_error (persistence_corrupt ''unknown version'')
     else require (read_gen r) ''bad epoch'' (\<lambda>(ep, r).
     require (read_count r) ''bad policy count'' (\<lambda>(n, r).
     require (read_items decode_policy n r) ''bad policy'' (\<lambda>(ps, r).
     require (read_count r) ''bad contract count'' (\<lambda>(n, r).
     require (read_items decode_contract n r) ''bad contract'' (\<lambda>(cs, r).
     require (read_count r) ''bad objective_state count'' (\<lambda>(n, r).
     require (read_items decode_objstate n r) ''bad objective state'' (\<lambda>(os, r).
     require (read_count r) ''bad enforcement count'' (\<lambda>(n, r).
     require (read_items decode_receipt n r) ''bad receipt'' (\<lambda>(rs, r).
     require (read_count r) ''bad evaluation count'' (\<lambda>(n, r).
     require (read_items decode_eval n r) ''bad evaluation'' (\<lambda>(es, r).
     if \<not> exhausted r then result_error (persistence_corrupt ''trailing garbage'')
     else result_value \<lparr> ds_format_version = kPersistenceVersion, ds_epoch = ep, ds_policies = ps, ds_contracts = cs,
       ds_objective_states = os, ds_enforcement_history = rs, ds_evaluation_history = es \<rparr>))))))))))))))"

section \<open>Files\<close>

type_synonym path = string

record FileSystem =
  fs_files :: "path \<rightharpoonup> bytes"
  fs_tmp_seq :: u64

datatype WriteOutcome = WO_ok | WO_open_fails | WO_write_fails nat | WO_rename_fails string

definition tmp_path :: "path \<Rightarrow> u64 \<Rightarrow> path" where
  "tmp_path path n = path @ ''.tmp.'' @ show_u64 n"

definition put_file :: "path \<Rightarrow> bytes \<Rightarrow> FileSystem \<Rightarrow> FileSystem" where
  "put_file path bs fs = fs\<lparr> fs_files := (fs_files fs)(path \<mapsto> bs) \<rparr>"

definition rename_file :: "path \<Rightarrow> path \<Rightarrow> FileSystem \<Rightarrow> FileSystem" where
  "rename_file src dst fs = fs\<lparr> fs_files := (fs_files fs)(dst := fs_files fs src, src := None) \<rparr>"

definition save_bytes_atomic :: "WriteOutcome \<Rightarrow> path \<Rightarrow> bytes \<Rightarrow> FileSystem \<Rightarrow> Status \<times> FileSystem" where
  "save_bytes_atomic io path bs fs =
     (let tmp = tmp_path path (fs_tmp_seq fs);
          fs = fs\<lparr> fs_tmp_seq := fs_tmp_seq fs + 1 \<rparr>
      in case io of
           WO_open_fails \<Rightarrow> (internal ''cannot open temp file for write'', fs)
         | WO_write_fails k \<Rightarrow> (internal ''write failed'', put_file tmp (take k bs) fs)
         | WO_rename_fails m \<Rightarrow> (internal (''atomic replace failed: '' @ m), put_file tmp bs fs)
         | WO_ok \<Rightarrow> (ok, rename_file tmp path (put_file tmp bs fs)))"

definition file_of_state :: "DurableState \<Rightarrow> bytes" where
  "file_of_state st =
     (let body = serialize_state st; crc = crc32_bytes body
      in body @ map (\<lambda>i. ucast (drop_bit (8 * i) crc AND 0xFF)) [0, 1, 2, 3])"

definition save_state :: "WriteOutcome \<Rightarrow> path \<Rightarrow> DurableState \<Rightarrow> FileSystem \<Rightarrow> Status \<times> FileSystem" where
  "save_state io path st fs = save_bytes_atomic io path (file_of_state st) fs"

definition load_bytes :: "bytes \<Rightarrow> DurableState Result" where
  "load_bytes full =
     (let body_len = length full - 4;
          crc_bytes = drop body_len full;
          stored = ucast (crc_bytes ! 0) OR push_bit 8 (ucast (crc_bytes ! 1)) OR push_bit 16 (ucast (crc_bytes ! 2))
                     OR push_bit 24 (ucast (crc_bytes ! 3));
          computed = crc32_bytes (take body_len full)
      in if stored \<noteq> computed then result_error (persistence_corrupt ''checksum mismatch'')
         else let result = deserialize_state (Some (take body_len full))
              in if \<not> result_ok result then result_error (result_status result) else result)"

definition load_state :: "bool \<Rightarrow> path \<Rightarrow> FileSystem \<Rightarrow> DurableState Result" where
  "load_state readable path fs =
     (case fs_files fs path of
        None \<Rightarrow> result_error (not_found ''persistence file not found'')
      | Some full \<Rightarrow>
          if length full < 4 then result_error (persistence_corrupt ''file too short'')
          else if kMaxPersistenceBytes + 4 < int (length full) then result_error (persistence_corrupt ''oversized file'')
          else if \<not> readable then result_error (persistence_corrupt ''read failed'')
          else load_bytes full)"

section \<open>Facts\<close>

definition durable_wf :: "DurableState \<Rightarrow> bool" where
  "durable_wf st \<longleftrightarrow>
     ds_format_version st = kPersistenceVersion \<and>
     int (length (ds_policies st)) \<le> kMaxCollectionItems \<and> (\<forall>x \<in> set (ds_policies st). policy_wf x) \<and>
     int (length (ds_contracts st)) \<le> kMaxCollectionItems \<and> (\<forall>x \<in> set (ds_contracts st). contract_wf x) \<and>
     int (length (ds_objective_states st)) \<le> kMaxCollectionItems \<and> (\<forall>x \<in> set (ds_objective_states st). objstate_wf x) \<and>
     int (length (ds_enforcement_history st)) \<le> kMaxCollectionItems \<and>
     (\<forall>x \<in> set (ds_enforcement_history st). receipt_wf x) \<and>
     int (length (ds_evaluation_history st)) \<le> kMaxCollectionItems \<and> (\<forall>x \<in> set (ds_evaluation_history st). eval_wf x)"

lemma read_count_at [codec_simps]:
  "fits pre (write_u64 (of_nat n) @ rest) \<Longrightarrow> int n \<le> kMaxCollectionItems \<Longrightarrow>
     read_count (at pre (write_u64 (of_nat n) @ rest)) = Some (n, at (pre @ write_u64 (of_nat n)) rest)"
  using count_small [of n] by (simp add: read_count_def codec_simps)

lemma reads_count [reads_intros]: "reads read_count (\<lambda>n. int n \<le> kMaxCollectionItems)"
  unfolding read_count_def by (rule reads_intros | simp)+

text \<open>A result is a value or a proper error, so passing it on through its status changes nothing.\<close>

definition proper :: "'a Result \<Rightarrow> bool" where
  "proper res \<longleftrightarrow> (\<exists>v. res = result_value v) \<or> (\<exists>m. res = result_error (persistence_corrupt m))"

lemma proper_simps [simp]: "proper (result_value v)" "proper (result_error (persistence_corrupt m))"
  by (auto simp: proper_def)

lemma proper_require: "(\<And>x. proper (k x)) \<Longrightarrow> proper (require p msg k)"
  by (cases p) (simp_all add: require_def)

lemma proper_guard: "proper k \<Longrightarrow> proper (if c then result_error (persistence_corrupt m) else k)"
  by simp

lemma proper_split: "(\<And>x r. proper (k x r)) \<Longrightarrow> proper (case p of (x, r) \<Rightarrow> k x r)"
  by (cases p) simp

lemma deserialize_proper: "proper (deserialize_state d)"
proof (cases d)
  case (Some bs)
  then show ?thesis unfolding deserialize_state_def Some option.case
    by (intro proper_guard proper_require proper_split proper_simps)
qed (simp add: deserialize_state_def)

lemma result_passed: "proper r \<Longrightarrow> (if \<not> result_ok r then result_error (result_status r) else r) = r"
  by (auto simp: proper_def)

text \<open>The reads of \<^verbatim>\<open>deserialize_state\<close> without their messages: what an accepted payload is parsed by.\<close>

definition parse_state :: "DurableState read" where
  "parse_state r = do {
     (magic, r) \<leftarrow> read_u32 r;
     if magic \<noteq> kPersistenceMagic then None else do {
     (version, r) \<leftarrow> read_u32 r;
     if version \<noteq> kPersistenceVersion then None else do {
     (ep, r) \<leftarrow> read_gen r;
     (n, r) \<leftarrow> read_count r;
     (ps, r) \<leftarrow> read_items decode_policy n r;
     (n, r) \<leftarrow> read_count r;
     (cs, r) \<leftarrow> read_items decode_contract n r;
     (n, r) \<leftarrow> read_count r;
     (os, r) \<leftarrow> read_items decode_objstate n r;
     (n, r) \<leftarrow> read_count r;
     (rs, r) \<leftarrow> read_items decode_receipt n r;
     (n, r) \<leftarrow> read_count r;
     (es, r) \<leftarrow> read_items decode_eval n r;
     Some (\<lparr> ds_format_version = kPersistenceVersion, ds_epoch = ep, ds_policies = ps, ds_contracts = cs,
       ds_objective_states = os, ds_enforcement_history = rs, ds_evaluation_history = es \<rparr>, r) }}}"

lemma require_value:
  "require p msg k = result_value y \<longleftrightarrow> (\<exists>x. p = Some x \<and> k x = result_value y)"
  by (cases p) (simp_all add: require_def)

lemma guard_value: "(if c then result_error e else k) = result_value y \<longleftrightarrow> \<not> c \<and> k = result_value y"
  by simp

definition accepts :: "('a \<times> ByteReader) option \<Rightarrow> 'a \<Rightarrow> bool" where
  "accepts q x \<longleftrightarrow> (\<exists>r. q = Some (x, r) \<and> exhausted r)"

lemma accepts_bind: "accepts (p \<bind> f) y \<longleftrightarrow> (\<exists>x. p = Some x \<and> accepts (f x) y)"
  by (auto simp: accepts_def bind_eq_Some_conv)

lemma accepts_guard: "accepts (if c then None else q) y \<longleftrightarrow> \<not> c \<and> accepts q y"
  by (simp add: accepts_def)

lemma accepts_return: "accepts (Some (x, r)) y \<longleftrightarrow> exhausted r \<and> x = y"
  by (auto simp: accepts_def)

lemma deserialize_parse:
  "deserialize_state (Some bs) = result_value st \<longleftrightarrow>
     int (length bs) \<le> kMaxPersistenceBytes \<and> accepts (parse_state (reader_from bs)) st"
  unfolding deserialize_state_def parse_state_def
  by (simp add: require_value guard_value accepts_bind accepts_guard accepts_return split_beta not_less del: if_split)

lemmas record_items = pol.items_decode con.items_decode ost.items_decode rcp.items_decode evl.items_decode
lemmas record_reads = pol.items_reads con.items_reads ost.items_reads rcp.items_reads evl.items_reads

interpretation dur: codec serialize_state parse_state durable_wf
proof
  fix st pre rest assume "durable_wf st" "fits pre (serialize_state st @ rest)"
  then show "parse_state (at pre (serialize_state st @ rest)) = Some (st, at (pre @ serialize_state st) rest)"
    by (simp add: parse_state_def serialize_state_def write_items_def durable_wf_def codec_simps record_items)
next
  show "reads parse_state durable_wf"
    unfolding parse_state_def by (rule record_reads reads_intros | simp add: durable_wf_def)+
qed

lemma in_bounds_from [simp]: "in_bounds (reader_from bs)"
  by (simp add: in_bounds_def reader_from_def br_size_def)

lemma suffix_from: "with_suffix g (reader_from bs) = reader_from (bs @ g)"
  by (simp add: with_suffix_def reader_from_def)

lemma deserialize_serialize:
  assumes "durable_wf st" "int (length (serialize_state st)) \<le> kMaxPersistenceBytes"
  shows "deserialize_state (Some (serialize_state st)) = result_value st"
proof -
  have "fits [] (serialize_state st @ [])" using assms(2) by (simp add: fits_def kMaxPersistenceBytes_def)
  then have "parse_state (reader_from (serialize_state st)) = Some (st, at (serialize_state st) [])"
    using dur.decode_encode [of st "[]" "[]"] assms(1) by (simp add: at_Nil)
  then show ?thesis using assms(2) by (simp add: deserialize_parse accepts_def)
qed

lemma deserialize_wf: "deserialize_state (Some bs) = result_value st \<Longrightarrow> durable_wf st"
  using readsD [OF dur.decode_reads, of "reader_from bs" st] by (auto simp: deserialize_parse accepts_def)

lemma deserialize_prefix_free:
  assumes "deserialize_state (Some bs) = result_value st" "deserialize_state (Some (bs @ g)) = result_value st'"
  shows "g = [] \<and> st' = st"
proof -
  from assms obtain r r' where
    r: "parse_state (reader_from bs) = Some (st, r)" "exhausted r" and
    r': "parse_state (reader_from (bs @ g)) = Some (st', r')" "exhausted r'" and
    small: "int (length (bs @ g)) \<le> kMaxPersistenceBytes"
    by (auto simp: deserialize_parse accepts_def)
  have "stable parse_state (reader_from bs) st r" "forward (reader_from bs) r"
    using readsD [OF dur.decode_reads in_bounds_from r(1)] by simp_all
  moreover have "br_size (with_suffix g (reader_from bs)) < 18446744073709551616"
    using small by (simp add: suffix_from) (simp add: br_size_def reader_from_def kMaxPersistenceBytes_def)
  ultimately have "parse_state (reader_from (bs @ g)) = Some (st, with_suffix g r)" "br_data r = bs"
    by (simp_all add: stable_def suffix_from) (simp add: forward_def reader_from_def)
  with r r' show ?thesis by (auto simp: exhausted_def br_size_def with_suffix_def)
qed

subsection \<open>The checksum of a file\<close>

lemma byte_xor_or: "(ucast (a :: u8) :: u32) XOR push_bit 8 w = ucast a OR push_bit 8 w"
  by (rule bit_word_eqI) (auto simp: bit_simps dest: bit_imp_le_length)

lemma le_word_4: "le_word [a, b, c, d] = ucast a OR push_bit 8 (ucast b) OR push_bit 16 (ucast c) OR push_bit 24 (ucast d)"
  by (simp only: le_word.simps byte_xor_or) (simp add: push_bit_or)

lemma four_bytes: "length b = 4 \<Longrightarrow> b = [b ! 0, b ! 1, b ! 2, b ! 3]"
  by (auto simp: list_eq_iff_nth_eq less_Suc_eq numeral_eq_Suc)

lemma le_word_write_u32: "le_word (write_u32 v) = v"
proof -
  have "le_word (write_u32 v) = le_word [write_u32 v ! 0, write_u32 v ! 1, write_u32 v ! 2, write_u32 v ! 3]"
    by (rule arg_cong [OF four_bytes]) simp
  also have "\<dots> = v" using join32 [of v] by (simp add: le_word_4 or.assoc del: le_word.simps)
  finally show ?thesis .
qed

text \<open>
  A file passes the checksum exactly when the register, run over the whole file, ends in one fixed state.
\<close>

definition crc_residue :: u32 where
  "crc_residue = (crc_bit ^^ 32) 0xFFFFFFFF"

definition checksum_ok :: "bytes \<Rightarrow> bool" where
  "checksum_ok full \<longleftrightarrow> le_word (drop (length full - 4) full) = crc32_bytes (take (length full - 4) full)"

lemma xor_move: "a XOR b = c \<longleftrightarrow> b = a XOR (c :: u32)"
proof
  assume "b = a XOR c"
  then show "a XOR b = c" by (simp add: xor.left_commute)
next
  assume "a XOR b = c"
  then show "b = a XOR c" by (simp add: xor.left_commute flip: \<open>a XOR b = c\<close>)
qed

lemma checksum_ok_iff:
  assumes "4 \<le> length full"
  shows "checksum_ok full \<longleftrightarrow> foldl crc32_step 0xFFFFFFFF full = crc_residue"
proof -
  let ?b = "take (length full - 4) full" and ?t = "drop (length full - 4) full"
  have len: "length ?t = 4" using assms by simp
  have "foldl crc32_step 0xFFFFFFFF full = foldl crc32_step 0xFFFFFFFF (?b @ ?t)" by simp
  also have "\<dots> = (crc_bit ^^ 32) (foldl crc32_step 0xFFFFFFFF ?b XOR le_word ?t)"
    using crc_run_short [of ?t] len by (simp del: append_take_drop_id)
  finally have "foldl crc32_step 0xFFFFFFFF full = crc_residue \<longleftrightarrow>
      foldl crc32_step 0xFFFFFFFF ?b XOR le_word ?t = 0xFFFFFFFF"
    by (simp add: crc_residue_def crc_pow_inj)
  also have "\<dots> \<longleftrightarrow> le_word ?t = foldl crc32_step 0xFFFFFFFF ?b XOR 0xFFFFFFFF"
    by (rule xor_move)
  finally show ?thesis by (simp add: checksum_ok_def crc32_bytes_def crc32_def)
qed

lemma load_bytes_eq:
  assumes "4 \<le> length full"
  shows "load_bytes full = (if checksum_ok full then deserialize_state (Some (take (length full - 4) full))
     else result_error (persistence_corrupt ''checksum mismatch''))"
proof -
  let ?t = "drop (length full - 4) full"
  have "le_word ?t = le_word [?t ! 0, ?t ! 1, ?t ! 2, ?t ! 3]"
    using assms by (intro arg_cong [where f = le_word] four_bytes) simp
  then show ?thesis
    by (simp only: load_bytes_def checksum_ok_def le_word_4 Let_def result_passed [OF deserialize_proper] if_not_P if_P
        split: if_split) auto
qed

lemma file_of_state_eq: "file_of_state st = serialize_state st @ write_u32 (crc32_bytes (serialize_state st))"
  by (simp add: file_of_state_def write_u32_def Let_def)

lemma load_file_of_state:
  assumes "durable_wf st" "int (length (serialize_state st)) \<le> kMaxPersistenceBytes"
  shows "load_bytes (file_of_state st) = result_value st"
  using assms by (simp add: load_bytes_eq file_of_state_eq checksum_ok_def le_word_write_u32 deserialize_serialize)

subsection \<open>Names of temporary files\<close>

lemma show_nonneg_digits: "0 \<le> n \<Longrightarrow> CHR ''.'' \<notin> set (show_nonneg n)"
proof (induction n rule: show_nonneg.induct)
  case (1 n)
  have digit: "digit_char d \<noteq> CHR ''.''" if "0 \<le> d" "d < 10" for d
  proof
    assume "digit_char d = CHR ''.''"
    then have "digit_val (digit_char d) = - 2" by (simp add: digit_val_def)
    with that show False by simp
  qed
  show ?case
  proof (cases "n < 10")
    case True
    then show ?thesis using 1 digit [of n] by (simp add: show_nonneg.simps [of n])
  next
    case False
    then show ?thesis using 1 digit [of "n mod 10"] by (simp add: show_nonneg.simps [of n])
  qed
qed

lemma show_u64_digits: "CHR ''.'' \<notin> set (show_u64 n)"
  by (simp add: show_u64_def show_nonneg_digits)

lemma append_dot_inject:
  "x \<notin> set a \<Longrightarrow> x \<notin> set b \<Longrightarrow> p @ x # a = q @ x # b \<Longrightarrow> p = q \<and> a = b"
proof (induction p arbitrary: q)
  case Nil
  then show ?case by (cases q) auto
next
  case (Cons y p)
  then show ?case by (cases q) auto
qed

lemma tmp_path_inject: "tmp_path p n = tmp_path q m \<longleftrightarrow> p = q \<and> n = m"
proof
  assume "tmp_path p n = tmp_path q m"
  then have "(p @ ''.tmp'') @ CHR ''.'' # show_u64 n = (q @ ''.tmp'') @ CHR ''.'' # show_u64 m"
    by (simp add: tmp_path_def)
  from append_dot_inject [OF show_u64_digits show_u64_digits this] show "p = q \<and> n = m" by simp
qed simp

lemma tmp_path_neq [simp]: "tmp_path p n \<noteq> p" "p \<noteq> tmp_path p n"
  by (simp_all add: tmp_path_def)

lemma save_bytes_target:
  "fs_files (snd (save_bytes_atomic io path bs fs)) path = (if io = WO_ok then Some bs else fs_files fs path)"
  "status_ok (fst (save_bytes_atomic io path bs fs)) \<longleftrightarrow> io = WO_ok"
  by (cases io; simp add: save_bytes_atomic_def put_file_def rename_file_def Let_def)+

section \<open>Concurrent saves\<close>

text \<open>
  The system calls of \<^verbatim>\<open>save_bytes_atomic\<close> as separate steps, so that saves of several threads interleave: open a fresh
  temporary file, write it byte by byte, rename it over the target, or stop after any of these (an error return or
  the end of the process).  The third component of the state remembers what was asked for.
\<close>

record SaveJob =
  sj_target :: path
  sj_seq :: u64
  sj_bytes :: bytes
  sj_written :: nat

type_synonym save_system = "FileSystem \<times> SaveJob set \<times> (path \<times> bytes) set"

definition is_tmp :: "path \<Rightarrow> bool" where
  "is_tmp p \<longleftrightarrow> (\<exists>q n. p = tmp_path q n)"

definition sj_tmp :: "SaveJob \<Rightarrow> path" where
  "sj_tmp j = tmp_path (sj_target j) (sj_seq j)"

inductive save_step :: "save_system \<Rightarrow> save_system \<Rightarrow> bool" where
  open_tmp: "\<lbrakk> \<not> is_tmp path; fs_tmp_seq fs \<noteq> - 1;
      j = \<lparr> sj_target = path, sj_seq = fs_tmp_seq fs, sj_bytes = bs, sj_written = 0 \<rparr> \<rbrakk> \<Longrightarrow>
    save_step (fs, js, qs)
      (put_file (sj_tmp j) [] (fs\<lparr> fs_tmp_seq := fs_tmp_seq fs + 1 \<rparr>), insert j js, insert (path, bs) qs)"
| write_tmp: "\<lbrakk> j \<in> js; sj_written j < length (sj_bytes j); j' = j\<lparr> sj_written := Suc (sj_written j) \<rparr> \<rbrakk> \<Longrightarrow>
    save_step (fs, js, qs)
      (put_file (sj_tmp j) (take (Suc (sj_written j)) (sj_bytes j)) fs, insert j' (js - {j}), qs)"
| commit: "\<lbrakk> j \<in> js; sj_written j = length (sj_bytes j) \<rbrakk> \<Longrightarrow>
    save_step (fs, js, qs) (rename_file (sj_tmp j) (sj_target j) fs, js - {j}, qs)"
| stop: "j \<in> js \<Longrightarrow> save_step (fs, js, qs) (fs, js - {j}, qs)"

inductive_simps save_step_simps: "save_step (fs, js, qs) t"

definition save_inv :: "(path \<rightharpoonup> bytes) \<Rightarrow> save_system \<Rightarrow> bool" where
  "save_inv old s \<longleftrightarrow> (case s of (fs, js, qs) \<Rightarrow>
     (\<forall>j \<in> js. sj_seq j < fs_tmp_seq fs \<and> \<not> is_tmp (sj_target j) \<and> (sj_target j, sj_bytes j) \<in> qs \<and>
        sj_written j \<le> length (sj_bytes j) \<and> fs_files fs (sj_tmp j) = Some (take (sj_written j) (sj_bytes j))) \<and>
     (\<forall>j \<in> js. \<forall>k \<in> js. sj_seq j = sj_seq k \<longrightarrow> j = k) \<and>
     (\<forall>p. \<not> is_tmp p \<longrightarrow> fs_files fs p = old p \<or> (\<exists>bs. (p, bs) \<in> qs \<and> fs_files fs p = Some bs)))"

lemma is_tmp_tmp [simp]: "is_tmp (sj_tmp j)"
  by (auto simp: is_tmp_def sj_tmp_def)

lemma tmp_neq: "\<not> is_tmp p \<Longrightarrow> sj_tmp j \<noteq> p"
  by (metis is_tmp_tmp)

lemma sj_tmp_inject: "sj_tmp j = sj_tmp k \<longleftrightarrow> sj_target j = sj_target k \<and> sj_seq j = sj_seq k"
  by (simp add: sj_tmp_def tmp_path_inject)

lemma u64_less_succ: "(n :: u64) \<noteq> - 1 \<Longrightarrow> n < n + 1"
  using gen_next_greater [of "Gen n"] by (simp add: less_Gen_def gen_next_def)

lemma save_inv_start: "save_inv (fs_files fs) (fs, {}, {})"
  by (simp add: save_inv_def)

lemma save_inv_open:
  assumes inv: "save_inv old (fs, js, qs)" and new: "\<not> is_tmp path" "fs_tmp_seq fs \<noteq> - 1"
    and j: "j = \<lparr> sj_target = path, sj_seq = fs_tmp_seq fs, sj_bytes = bs, sj_written = 0 \<rparr>"
  shows "save_inv old
    (put_file (sj_tmp j) [] (fs\<lparr> fs_tmp_seq := fs_tmp_seq fs + 1 \<rparr>), insert j js, insert (path, bs) qs)"
proof -
  have less: "n < fs_tmp_seq fs + 1" if "n < fs_tmp_seq fs \<or> n = fs_tmp_seq fs" for n
    using that u64_less_succ [OF new(2)] by auto
  have fresh: "sj_tmp k \<noteq> sj_tmp j \<and> sj_seq k \<noteq> sj_seq j" if "k \<in> js" for k
    using inv that j by (auto simp: save_inv_def sj_tmp_inject)
  show ?thesis
    using inv new j less fresh
    by (auto simp: save_inv_def put_file_def dest: tmp_neq)
qed

lemma save_inv_write:
  assumes inv: "save_inv old (fs, js, qs)" and j: "j \<in> js" "sj_written j < length (sj_bytes j)"
  shows "save_inv old
    (put_file (sj_tmp j) (take (Suc (sj_written j)) (sj_bytes j)) fs,
     insert (j\<lparr> sj_written := Suc (sj_written j) \<rparr>) (js - {j}), qs)"
proof -
  let ?j' = "j\<lparr> sj_written := Suc (sj_written j) \<rparr>"
  have same: "sj_tmp ?j' = sj_tmp j" by (simp add: sj_tmp_def)
  have other: "sj_tmp k \<noteq> sj_tmp j \<and> sj_seq k \<noteq> sj_seq j" if "k \<in> js - {j}" for k
    using inv that j by (auto simp: save_inv_def sj_tmp_inject)
  show ?thesis
    using inv j other same by (auto simp: save_inv_def put_file_def dest: tmp_neq)
qed

lemma save_inv_commit:
  assumes inv: "save_inv old (fs, js, qs)" and j: "j \<in> js" "sj_written j = length (sj_bytes j)"
  shows "save_inv old (rename_file (sj_tmp j) (sj_target j) fs, js - {j}, qs)"
proof -
  have other: "sj_tmp k \<noteq> sj_tmp j" if "k \<in> js - {j}" for k
    using inv that j by (auto simp: save_inv_def sj_tmp_inject)
  have target: "sj_tmp k \<noteq> sj_target j" for k using inv j by (auto simp: save_inv_def dest: tmp_neq)
  show ?thesis
    using inv j other target by (auto simp: save_inv_def rename_file_def dest: tmp_neq)
qed

lemma save_inv_stop: "save_inv old (fs, js, qs) \<Longrightarrow> save_inv old (fs, js - {j}, qs)"
  by (simp add: save_inv_def)

lemma save_inv_step: "save_step s t \<Longrightarrow> save_inv old s \<Longrightarrow> save_inv old t"
  by (induction rule: save_step.induct)
     (auto simp del: split_paired_All split_paired_Ex
        intro: save_inv_open save_inv_write save_inv_commit save_inv_stop)

lemma save_inv_reachable: "save_step\<^sup>*\<^sup>* s t \<Longrightarrow> save_inv old s \<Longrightarrow> save_inv old t"
  by (induction rule: rtranclp_induct) (auto intro: save_inv_step)

section \<open>Properties\<close>

text \<open>A small state for the witnesses below: one policy, one contract with one objective, one receipt.\<close>

definition sample_state :: DurableState where
  "sample_state = \<lparr> ds_format_version = 2, ds_epoch = Gen 7,
     ds_policies = [\<lparr> p_id = Id 1, p_gen = Gen 1, p_mode = PM_Lexicographic, p_tie_break = TB_ByPriority,
       p_name = ''p'', p_description = [] \<rparr>],
     ds_contracts = [\<lparr> c_id = Id 1, c_gen = Gen 1, c_service = Id 1, c_workload = Id 2, c_tenant = Id 3,
       c_objectives = [default_objective], c_policy_id = Id 1, c_policy_gen = Gen 1, c_effective_from = Duration 0,
       c_expiration = Some (Duration 9), c_epoch = Gen 7, c_lifecycle = CL_Active, c_name = ''c'', c_provenance = [] \<rparr>],
     ds_objective_states = [],
     ds_enforcement_history = [default_receipt\<lparr> r_id := Id 1, r_action := EA_Throttle \<rparr>],
     ds_evaluation_history = [] \<rparr>"

lemma sample_objective_wf: "objective_wf default_objective"
proof -
  have "unit_interval (dec 99 100)" "unit_interval dzero" by code_simp+
  then show ?thesis
    by (simp add: objective_wf_def default_objective_def target_unit_matches_dimension_def in_i64_def in_i32_def
        i64_min_def i64_max_def kMaxPersistenceBytes_def)
qed

lemma sample_state_ok: "durable_wf sample_state" "int (length (serialize_state sample_state)) \<le> kMaxPersistenceBytes"
proof -
  show "durable_wf sample_state"
    using sample_objective_wf
    by (simp add: sample_state_def durable_wf_def kPersistenceVersion_def kMaxCollectionItems_def kMaxPersistenceBytes_def
        policy_wf_def contract_wf_def receipt_wf_def default_receipt_def action_wf_def in_i64_def i64_min_def i64_max_def)
  show "int (length (serialize_state sample_state)) \<le> kMaxPersistenceBytes"
    by (simp add: sample_state_def serialize_state_def write_items_def encode_policy_def encode_contract_def
        encode_objective_def encode_receipt_def default_receipt_def default_objective_def write_gen_def write_id_def
        write_enum_def write_action_def write_string_def write_double_def write_optional_def kMaxPersistenceBytes_def)
qed

text \<open>
  Property C37.  Round trip: a durable state whose fields are in range, whose collections are within the item limit and
  whose serialisation is within the size limit is read back exactly, and the checksummed file made of it loads as
  exactly that state.
\<close>

theorem persistence_round_trip:
  assumes "durable_wf st" "int (length (serialize_state st)) \<le> kMaxPersistenceBytes"
  shows "deserialize_state (Some (serialize_state st)) = result_value st \<and>
    load_bytes (file_of_state st) = result_value st"
  using assms by (simp add: deserialize_serialize load_file_of_state)

theorem persistence_round_trip_witness:
  "load_bytes (file_of_state sample_state) = result_value sample_state"
  using persistence_round_trip [OF sample_state_ok] by simp

text \<open>The bounds the reader enforces, as they come out: ratios by two comparisons, actions by a largest byte.\<close>

lemma unit_interval_iff: "unit_interval d \<longleftrightarrow> is_nan d \<or> dle dzero d \<and> dle d (dec 1 1)"
proof -
  have "\<not> is_nan dzero" "\<not> is_nan (dec 1 1)" by code_simp+
  then show ?thesis by (auto simp: unit_interval_def dlt_def dle_def)
qed

lemma action_wf_iff: "action_wf a \<longleftrightarrow> a \<in> insert (EA_unnamed 23) (set enforcement_actions)"
  using named_action [of a] by (cases a) (simp_all add: action_wf_def)

text \<open>
  Property C38.  What the reader lets through: whatever bytes it is given, the state of an accepted payload has the current
  version, collections within the item limit, integers within their types and counts that are not negative, every action a
  named one or the single byte 23 one past the last, and every ratio of an objective between zero and one or not a
  number; and the accepted payloads are prefix-free, so that no truncation of an accepted payload and no payload with
  trailing bytes is accepted.
\<close>

theorem deserialize_validates:
  assumes "deserialize_state (Some bs) = result_value st"
  shows "durable_wf st \<and>
    (\<forall>rc \<in> set (ds_enforcement_history st). r_action rc \<in> insert (EA_unnamed 23) (set enforcement_actions)) \<and>
    (\<forall>rec \<in> set (ds_evaluation_history st). ev_selected_action rec \<in> insert (EA_unnamed 23) (set enforcement_actions)) \<and>
    (\<forall>c \<in> set (ds_contracts st). \<forall>ob \<in> set (c_objectives c). \<forall>d \<in> {o_percentile_rank ob, o_allowed_uncertainty ob}.
       is_nan d \<or> dle dzero d \<and> dle d (dec 1 1)) \<and>
    (\<forall>g. g \<noteq> [] \<longrightarrow> \<not> result_ok (deserialize_state (Some (bs @ g)))) \<and>
    (\<forall>a g. bs = a @ g \<and> g \<noteq> [] \<longrightarrow> \<not> result_ok (deserialize_state (Some a)))"
proof -
  have rejected: "\<not> result_ok (deserialize_state d)" if "\<And>st. deserialize_state d \<noteq> result_value st" for d
    using deserialize_proper [of d] that by (auto simp: proper_def)
  have "durable_wf st" using assms by (rule deserialize_wf)
  moreover from this have "\<forall>rc \<in> set (ds_enforcement_history st). r_action rc \<in> insert (EA_unnamed 23) (set enforcement_actions)"
    "\<forall>rec \<in> set (ds_evaluation_history st). ev_selected_action rec \<in> insert (EA_unnamed 23) (set enforcement_actions)"
    "\<forall>c \<in> set (ds_contracts st). \<forall>ob \<in> set (c_objectives c). \<forall>d \<in> {o_percentile_rank ob, o_allowed_uncertainty ob}.
       is_nan d \<or> dle dzero d \<and> dle d (dec 1 1)"
    by (simp_all add: durable_wf_def receipt_wf_def eval_wf_def contract_wf_def objective_wf_def action_wf_iff unit_interval_iff)
  moreover have "\<not> result_ok (deserialize_state (Some (bs @ g)))" if "g \<noteq> []" for g
    using that deserialize_prefix_free [OF assms] by (intro rejected) blast
  moreover have "\<not> result_ok (deserialize_state (Some a))" if "bs = a @ g \<and> g \<noteq> []" for a g
    using that deserialize_prefix_free [of a _ g st] assms by (intro rejected) blast
  ultimately show ?thesis by blast
qed

theorem deserialize_validates_witness:
  "\<not> result_ok (deserialize_state (Some (serialize_state sample_state @ [0])))"
  using deserialize_validates [OF deserialize_serialize [OF sample_state_ok]] by blast

text \<open>Both exceptions are real: the reader accepts a percentile that is not a number and an action without a name.\<close>

definition odd_state :: DurableState where
  "odd_state = sample_state\<lparr>
     ds_contracts := map (\<lambda>c. c\<lparr> c_objectives := [default_objective\<lparr> o_percentile_rank := qnan \<rparr>] \<rparr>) (ds_contracts sample_state),
     ds_enforcement_history := [default_receipt\<lparr> r_action := EA_unnamed 23 \<rparr>] \<rparr>"

lemma reader_accepts_odd_state: "deserialize_state (Some (serialize_state odd_state)) = result_value odd_state"
proof -
  have "is_nan qnan" by code_simp
  then have "durable_wf odd_state"
    using sample_state_ok(1) sample_objective_wf
    by (simp add: odd_state_def sample_state_def durable_wf_def contract_wf_def receipt_wf_def default_receipt_def
        action_wf_iff objective_wf_def unit_interval_iff target_unit_matches_dimension_def)
  moreover have "int (length (serialize_state odd_state)) \<le> kMaxPersistenceBytes"
    by (simp add: odd_state_def sample_state_def serialize_state_def write_items_def encode_policy_def encode_contract_def
        encode_objective_def encode_receipt_def default_receipt_def default_objective_def write_gen_def write_id_def
        write_enum_def write_action_def write_string_def write_double_def write_optional_def kMaxPersistenceBytes_def)
  ultimately show ?thesis by (rule deserialize_serialize)
qed

text \<open>
  Property C39.  Every burst of at most four changed consecutive bytes in a file that passes its checksum, wherever
  it lies in the body or in the checksum itself, is reported as a checksum mismatch.
\<close>

theorem burst_corruption_detected:
  assumes "load_bytes (u @ v @ w) = result_value st" "4 \<le> length (u @ v @ w)"
    "length v' = length v" "length v \<le> 4" "v' \<noteq> v"
  shows "load_bytes (u @ v' @ w) = result_error (persistence_corrupt ''checksum mismatch'')"
proof -
  have "checksum_ok (u @ v @ w)" using assms(1,2) by (auto simp: load_bytes_eq split: if_splits)
  then have "foldl crc32_step 0xFFFFFFFF (u @ v @ w) = crc_residue" using assms(2) by (simp only: checksum_ok_iff)
  then have "foldl crc32_step 0xFFFFFFFF (u @ v' @ w) \<noteq> crc_residue"
    using burst_detected [of v' v "0xFFFFFFFF" u w] assms(3-5) by metis
  then have "\<not> checksum_ok (u @ v' @ w)" using assms(2,3) by (subst checksum_ok_iff) simp_all
  then show ?thesis using assms(2,3) by (simp add: load_bytes_eq)
qed

theorem burst_corruption_detected_witness:
  "load_bytes (0 # tl (file_of_state sample_state)) = result_error (persistence_corrupt ''checksum mismatch'')"
proof -
  obtain t where f: "file_of_state sample_state = 0x46 # t"
    by (simp add: file_of_state_def serialize_state_def write_u32_def kPersistenceMagic_def Let_def)
  have "4 \<le> length (file_of_state sample_state)" by (simp add: file_of_state_eq)
  then show ?thesis
    using burst_corruption_detected [of "[]" "[0x46]" t sample_state "[0]"] load_file_of_state [OF sample_state_ok]
    by (simp add: f)
qed

text \<open>
  Saving replaces a file completely or not at all: if every system call succeeds, the status is ok and
  the target loads as the saved state; if opening, writing or renaming fails, the status is an error and the target
  loads exactly as it did before.
\<close>

theorem save_all_or_nothing:
  fixes io :: WriteOutcome and path :: path and fs :: FileSystem
  assumes "durable_wf st" "int (length (serialize_state st)) \<le> kMaxPersistenceBytes"
  defines "r \<equiv> save_state io path st fs"
  shows "(if io = WO_ok then status_ok (fst r) \<and> load_state True path (snd r) = result_value st
          else \<not> status_ok (fst r) \<and> load_state rd path (snd r) = load_state rd path fs)"
proof -
  have "int (length (file_of_state st)) \<le> kMaxPersistenceBytes + 4" using assms(2) by (simp add: file_of_state_eq)
  moreover have "4 \<le> length (file_of_state st)" by (simp add: file_of_state_eq)
  ultimately show ?thesis
    using load_file_of_state [OF assms(1,2)]
    by (simp add: r_def save_state_def load_state_def save_bytes_target)
qed

theorem save_all_or_nothing_witness:
  "load_state True ''state.bin'' (snd (save_state WO_ok ''state.bin'' sample_state
      \<lparr> fs_files = Map.empty, fs_tmp_seq = 0 \<rparr>)) = result_value sample_state"
  using save_all_or_nothing [OF sample_state_ok, of WO_ok] by simp

text \<open>
  Concurrent saves never leave a torn file: however the system calls of any number of saves interleave,
  and wherever some of them stop, every path that is not a temporary name holds what it held at the start or the
  complete bytes of one of the saves to it.
\<close>

theorem concurrent_saves_never_torn:
  assumes "save_step\<^sup>*\<^sup>* (fs0, {}, {}) (fs, js, qs)" "\<not> is_tmp path"
  shows "fs_files fs path = fs_files fs0 path \<or> (\<exists>bs. (path, bs) \<in> qs \<and> fs_files fs path = Some bs)"
  using save_inv_reachable [OF assms(1) save_inv_start] assms(2) by (simp add: save_inv_def)

theorem concurrent_saves_never_torn_witness:
  "let fs0 = \<lparr> fs_files = [''a'' \<mapsto> [5]], fs_tmp_seq = 0 \<rparr>;
       j = \<lparr> sj_target = ''a'', sj_seq = 0, sj_bytes = [1], sj_written = 0 \<rparr>;
       fs1 = put_file (sj_tmp j) [] (fs0\<lparr> fs_tmp_seq := 1 \<rparr>)
   in fs_files fs1 ''a'' = fs_files fs0 ''a'' \<or> fs_files fs1 ''a'' = Some [1]"
proof -
  define fs0 where "fs0 = \<lparr> fs_files = [''a'' \<mapsto> [5 :: u8]], fs_tmp_seq = 0 \<rparr>"
  define j where "j = \<lparr> sj_target = ''a'', sj_seq = 0, sj_bytes = [1 :: u8], sj_written = 0 \<rparr>"
  have plain: "\<not> is_tmp ''a''" by (auto simp: is_tmp_def tmp_path_def dest: arg_cong [where f = length])
  have "save_step (fs0, {}, {}) (put_file (sj_tmp j) [] (fs0\<lparr> fs_tmp_seq := fs_tmp_seq fs0 + 1 \<rparr>), {j}, {(''a'', [1])})"
    using plain by (intro open_tmp) (simp_all add: fs0_def j_def)
  then have "save_step\<^sup>*\<^sup>* (fs0, {}, {}) (put_file (sj_tmp j) [] (fs0\<lparr> fs_tmp_seq := 1 \<rparr>), {j}, {(''a'', [1])})"
    by (simp add: fs0_def r_into_rtranclp)
  from concurrent_saves_never_torn [OF this plain] show ?thesis
    unfolding fs0_def [symmetric] j_def [symmetric] Let_def by auto
qed

end
