(* ===== verification/Containers.thy ===== *)
theory Containers
  imports Prelude
begin

text \<open>
  The two dictionaries of the sources.  A \<^verbatim>\<open>std::map\<close> is an association list in increasing key order, so that
  iteration over it is iteration over the list; a \<^verbatim>\<open>std::unordered_map\<close> is an association list with distinct keys in
  an order that means nothing.  The locale \<open>dict\<close> is the interface the fabric uses: what a lookup returns after an
  assignment, and that assignment keeps the representation invariant.
\<close>

section \<open>Ordered map\<close>

fun map_assign :: "'k :: linorder \<Rightarrow> 'v \<Rightarrow> ('k \<times> 'v) list \<Rightarrow> ('k \<times> 'v) list" where
  "map_assign k v [] = [(k, v)]"
| "map_assign k v ((k', v') # m) =
     (if k < k' then (k, v) # (k', v') # m
      else if k = k' then (k, v) # m
      else (k', v') # map_assign k v m)"

definition map_wf :: "('k :: linorder \<times> 'v) list \<Rightarrow> bool" where
  "map_wf m \<longleftrightarrow> sorted_wrt (<) (map fst m)"

section \<open>Unordered map\<close>

fun umap_assign :: "'k \<Rightarrow> 'v \<Rightarrow> ('k \<times> 'v) list \<Rightarrow> ('k \<times> 'v) list" where
  "umap_assign k v [] = [(k, v)]"
| "umap_assign k v ((k', v') # m) = (if k = k' then (k, v) # m else (k', v') # umap_assign k v m)"

definition umap_wf :: "('k \<times> 'v) list \<Rightarrow> bool" where
  "umap_wf m \<longleftrightarrow> distinct (map fst m)"

section \<open>Interface\<close>

locale dict =
  fixes assign :: "'k \<Rightarrow> 'v \<Rightarrow> ('k \<times> 'v) list \<Rightarrow> ('k \<times> 'v) list"
    and wf :: "('k \<times> 'v) list \<Rightarrow> bool"
  assumes wf_Nil: "wf []"
    and wf_assign: "wf m \<Longrightarrow> wf (assign k v m)"
    and wf_distinct: "wf m \<Longrightarrow> distinct (map fst m)"
    and lookup_assign: "wf m \<Longrightarrow> map_of (assign k v m) = (map_of m)(k \<mapsto> v)"
begin

lemma in_set_iff: "wf m \<Longrightarrow> (k, v) \<in> set m \<longleftrightarrow> map_of m k = Some v"
  by (simp add: wf_distinct)

lemma set_assign: "wf m \<Longrightarrow> set (assign k v m) = insert (k, v) {(k', v') \<in> set m. k' \<noteq> k}"
  using lookup_assign [of m k v] wf_assign [of m k v] in_set_iff [of m] in_set_iff [of "assign k v m"]
  by (auto simp: set_eq_iff split: if_splits)

lemma keys_assign: "wf m \<Longrightarrow> fst ` set (assign k v m) = insert k (fst ` set m)"
  by (simp add: set_assign) force

text \<open>Building a dictionary by assignment: later entries win.\<close>

lemma wf_fold: "wf m \<Longrightarrow> wf (fold (\<lambda>x. assign (key x) (val x)) xs m)"
  by (induction xs arbitrary: m) (simp_all add: wf_assign)

lemma lookup_fold:
  "wf m \<Longrightarrow> map_of (fold (\<lambda>x. assign (key x) (val x)) xs m) = map_of m ++ map_of (rev (map (\<lambda>x. (key x, val x)) xs))"
  by (induction xs arbitrary: m) (simp_all add: wf_assign lookup_assign map_add_assoc [symmetric] map_add_upd_left)

end

subsection \<open>Both dictionaries implement it\<close>

lemma map_assign_keys: "fst ` set (map_assign k v m) = insert k (fst ` set m)"
  by (induction m rule: map_assign.induct) auto

lemma map_assign_wf: "map_wf m \<Longrightarrow> map_wf (map_assign k v m)"
proof (induction m rule: map_assign.induct)
  case (2 k v k' v' m)
  then show ?case using map_assign_keys [of k v m] by (auto simp: map_wf_def)
qed (simp add: map_wf_def)

lemma map_assign_lookup: "map_wf m \<Longrightarrow> map_of (map_assign k v m) = (map_of m)(k \<mapsto> v)"
proof (induction m rule: map_assign.induct)
  case (2 k v k' v' m)
  then show ?case by (auto simp: map_wf_def fun_eq_iff)
qed simp

interpretation omap: dict map_assign map_wf
proof
  fix m :: "('a :: linorder \<times> 'b) list" and k v
  show "map_wf []" by (simp add: map_wf_def)
  show "map_wf m \<Longrightarrow> map_wf (map_assign k v m)" by (rule map_assign_wf)
  show "map_wf m \<Longrightarrow> distinct (map fst m)" by (simp add: map_wf_def strict_sorted_iff)
  show "map_wf m \<Longrightarrow> map_of (map_assign k v m) = (map_of m)(k \<mapsto> v)" by (rule map_assign_lookup)
qed

lemma umap_assign_keys: "fst ` set (umap_assign k v m) = insert k (fst ` set m)"
  by (induction k v m rule: umap_assign.induct) auto

interpretation hmap: dict umap_assign umap_wf
proof
  fix m :: "('a \<times> 'b) list" and k v
  show "umap_wf []" by (simp add: umap_wf_def)
  show "umap_wf m \<Longrightarrow> umap_wf (umap_assign k v m)"
  proof (induction m)
    case (Cons x m)
    then show ?case using umap_assign_keys [of k v m] by (cases x) (auto simp: umap_wf_def)
  qed (simp add: umap_wf_def)
  show "umap_wf m \<Longrightarrow> distinct (map fst m)" by (simp add: umap_wf_def)
  show "umap_wf m \<Longrightarrow> map_of (umap_assign k v m) = (map_of m)(k \<mapsto> v)"
    by (induction m) (auto simp: umap_wf_def)
qed

text \<open>Assigning the entries of an ordered map in its own order rebuilds it.\<close>

lemma map_assign_last: "\<forall>x \<in> set m. fst x < k \<Longrightarrow> map_assign k v m = m @ [(k, v)]"
  by (induction m) auto

lemma map_assign_rebuild:
  "map_wf (m @ xs) \<Longrightarrow> fold (\<lambda>(k, v). map_assign k v) xs m = m @ xs"
proof (induction xs arbitrary: m)
  case (Cons x xs)
  then have "\<forall>y \<in> set m. fst y < fst x" by (auto simp: map_wf_def sorted_wrt_append)
  then have "map_assign (fst x) (snd x) m = m @ [x]" by (simp add: map_assign_last)
  then show ?case using Cons by (simp add: split_beta)
qed simp

end
