(* ===== verification/Fabric.thy ===== *)
theory Fabric
  imports Evaluation Adapter Persistence Containers
begin

text \<open>
  The coordinator state and the public operations of \<^verbatim>\<open>SloFabric\<close> (\<^verbatim>\<open>fabric.hpp\<close>, \<^verbatim>\<open>fabric.cpp\<close>).  Every operation
  holds one mutex, so each is one function on the state \<open>Impl\<close>; the operations that release the mutex around an
  external call (\<^verbatim>\<open>dispatch\<close>, \<^verbatim>\<open>save\<close>, \<^verbatim>\<open>load\<close>) are split at that point.
\<close>

section \<open>State\<close>

text \<open>The clock a fabric was given, or the monotonic clock it falls back to.\<close>

datatype ClockRef = MonotonicClock | GivenClock nat

record Impl =
  im_clock :: ClockRef
  im_epoch :: CoordinatorEpoch
  im_policies :: "(PolicyId \<times> SloPolicy) list"
  im_contracts :: "(SloContractId \<times> SloContract) list"
  im_accumulators :: "(ObjectiveId \<times> ObjectiveAccumulator) list"
  im_enforcement_history :: "EnforcementReceipt list"
  im_evaluation_history :: "EvaluationRecord list"
  im_evaluation_by_id :: "(EvaluationId \<times> EvaluationRecord) list"
  im_global_evidence :: "EvidenceId set"
  im_global_evidence_ring :: "EvidenceId list"
  im_evidence_ring_cap :: int
  im_evaluation_counter :: u64
  im_enforcement_counter :: u64
  im_dispatch_counter :: u64

definition new_fabric :: "ClockRef option \<Rightarrow> Impl" where
  "new_fabric c =
     \<lparr> im_clock = (case c of None \<Rightarrow> MonotonicClock | Some k \<Rightarrow> k), im_epoch = Gen 1, im_policies = [], im_contracts = [],
       im_accumulators = [], im_enforcement_history = [], im_evaluation_history = [], im_evaluation_by_id = [],
       im_global_evidence = {}, im_global_evidence_ring = [], im_evidence_ring_cap = 8192,
       im_evaluation_counter = 0, im_enforcement_counter = 0, im_dispatch_counter = 0 \<rparr>"

definition set_clock :: "ClockRef option \<Rightarrow> Impl \<Rightarrow> Impl" where
  "set_clock c s = s\<lparr> im_clock := (case c of None \<Rightarrow> MonotonicClock | Some k \<Rightarrow> k) \<rparr>"

definition note_evidence :: "EvidenceId \<Rightarrow> Impl \<Rightarrow> Status \<times> Impl" where
  "note_evidence i s =
     (if id_invalid i then (invalid_input ''evidence id required'', s)
      else if i \<in> im_global_evidence s then (cancelled ''duplicate evidence id'', s)
      else let s = (if im_evidence_ring_cap s \<le> int (length (im_global_evidence_ring s))
                    then s\<lparr> im_global_evidence := im_global_evidence s - {hd (im_global_evidence_ring s)},
                            im_global_evidence_ring := tl (im_global_evidence_ring s) \<rparr>
                    else s)
           in (ok, s\<lparr> im_global_evidence_ring := im_global_evidence_ring s @ [i],
                      im_global_evidence := insert i (im_global_evidence s) \<rparr>))"

definition put_accumulator :: "ObjectiveId \<Rightarrow> ObjectiveAccumulator \<Rightarrow> Impl \<Rightarrow> Impl" where
  "put_accumulator i a s = s\<lparr> im_accumulators := umap_assign i a (im_accumulators s) \<rparr>"

definition get_accumulator :: "Objective \<Rightarrow> Impl \<Rightarrow> ObjectiveAccumulator \<times> Impl" where
  "get_accumulator ob s =
     (case map_of (im_accumulators s) (o_id ob) of
        None \<Rightarrow> (let a = route_for ob (new_accumulator ob) in (a, put_accumulator (o_id ob) a s))
      | Some a \<Rightarrow>
          (if o_gen (a_def a) \<noteq> o_gen ob
           then (let a = reset_for_new_gen ob a in (a, put_accumulator (o_id ob) a s))
           else (a, s)))"

section \<open>Policies and contracts\<close>

definition set_policy :: "SloPolicy \<Rightarrow> Impl \<Rightarrow> Status \<times> Impl" where
  "set_policy p s =
     (case map_of (im_policies s) (p_id p) of
        Some q \<Rightarrow>
          (if p_gen p \<le> p_gen q then (policy_superseded ''policy generation must increase'', s)
           else (ok, s\<lparr> im_policies := map_assign (p_id p) p (im_policies s) \<rparr>))
      | None \<Rightarrow> (ok, s\<lparr> im_policies := map_assign (p_id p) p (im_policies s) \<rparr>))"

definition put_contract :: "SloContract \<Rightarrow> Impl \<Rightarrow> Impl" where
  "put_contract c s = s\<lparr> im_contracts := map_assign (c_id c) c (im_contracts s) \<rparr>"

fun check_objectives :: "Objective list \<Rightarrow> Status" where
  "check_objectives [] = ok"
| "check_objectives (ob # obs) =
     (if \<not> id_valid (o_id ob) then objective_invalid ''objective id required''
      else if \<not> gen_valid (o_gen ob) then objective_invalid ''objective generation required''
      else if \<not> target_unit_matches_dimension ob then unit_mismatch ''objective target unit does not match dimension''
      else check_objectives obs)"

text \<open>
  The replaced contract is marked superseded before the assignment overwrites it, so the mark is not observable.
\<close>

definition replace_contract :: "SloContract \<Rightarrow> Impl \<Rightarrow> Status \<times> Impl" where
  "replace_contract c s =
     (case map_of (im_contracts s) (c_id c) of
        Some old \<Rightarrow>
          (if c_gen c \<le> c_gen old then (invalid_input ''contract generation must increase'', s)
           else (ok, put_contract c
                  (s\<lparr> im_contracts := map_assign (c_id c) (old\<lparr> c_lifecycle := CL_Superseded \<rparr>) (im_contracts s) \<rparr>)))
      | None \<Rightarrow> (ok, put_contract c s))"

definition add_contract :: "SloContract \<Rightarrow> Impl \<Rightarrow> Status \<times> Impl" where
  "add_contract c s =
     (if c_objectives c = [] then (objective_invalid ''contract has no objectives'', s)
      else let v = check_objectives (c_objectives c)
           in if \<not> status_ok v then (v, s) else replace_contract c s)"

definition supersede_contract :: "SloContract \<Rightarrow> Duration \<Rightarrow> Impl \<Rightarrow> Status \<times> Impl" where
  "supersede_contract replacement now s = replace_contract replacement s"

definition modify_contract :: "(SloContract \<Rightarrow> SloContract) \<Rightarrow> SloContractId \<Rightarrow> Impl \<Rightarrow> Status \<times> Impl" where
  "modify_contract f i s =
     (case map_of (im_contracts s) i of
        None \<Rightarrow> (not_found ''unknown contract'', s)
      | Some c \<Rightarrow> (ok, s\<lparr> im_contracts := map_assign i (f c) (im_contracts s) \<rparr>))"

definition activate_contract :: "SloContractId \<Rightarrow> Duration \<Rightarrow> Impl \<Rightarrow> Status \<times> Impl" where
  "activate_contract i now = modify_contract (\<lambda>c.
     let c = c\<lparr> c_lifecycle := CL_Active \<rparr>
     in if now < c_effective_from c then c\<lparr> c_effective_from := now \<rparr> else c) i"

definition suspend_contract :: "SloContractId \<Rightarrow> Duration \<Rightarrow> Impl \<Rightarrow> Status \<times> Impl" where
  "suspend_contract i now = modify_contract (\<lambda>c. c\<lparr> c_lifecycle := CL_Suspended \<rparr>) i"

definition expire_contract :: "SloContractId \<Rightarrow> Duration \<Rightarrow> Impl \<Rightarrow> Status \<times> Impl" where
  "expire_contract i now = modify_contract (\<lambda>c.
     c\<lparr> c_lifecycle := CL_Expired,
        c_expiration := (if c_expiration c \<noteq> None then c_expiration c else Some now) \<rparr>) i"

definition retire_contract :: "SloContractId \<Rightarrow> Duration \<Rightarrow> Impl \<Rightarrow> Status \<times> Impl" where
  "retire_contract i now = modify_contract (\<lambda>c. c\<lparr> c_lifecycle := CL_Retired \<rparr>) i"

definition find_contract :: "SloContractId \<Rightarrow> Impl \<Rightarrow> SloContract option" where
  "find_contract i s = map_of (im_contracts s) i"

section \<open>Evidence\<close>

definition unit_compatible :: "Objective \<Rightarrow> EvidenceRecord \<Rightarrow> bool" where
  "unit_compatible ob e =
     (let eu = unit_kind_of (e_value e)
      in if o_dim ob = Dim_Throughput then eu = rate_unit (o_rate_tag ob)
         else if o_dim ob = Dim_MemoryPressure \<and> o_kind ob = K_MemoryMinHeadroom then eu = UK_Bytes
         else if o_dim ob = Dim_Cost then eu = UK_CurrencyMicros
         else if o_dim ob = Dim_Availability then eu = UK_BasisPoints \<or> eu = UK_Percent
         else eu = expected_unit_for (o_dim ob))"

text \<open>The objective of the newest generation under an identity, the first one of several equally new.\<close>

definition all_objectives :: "Impl \<Rightarrow> Objective list" where
  "all_objectives s = concat (map (\<lambda>(_, c). c_objectives c) (im_contracts s))"

definition newest_objective :: "ObjectiveId \<Rightarrow> Impl \<Rightarrow> Objective option" where
  "newest_objective i s = foldl (\<lambda>best ob.
     if o_id ob = i then (case best of None \<Rightarrow> Some ob | Some b \<Rightarrow> if o_gen b < o_gen ob then Some ob else best)
     else best) None (all_objectives s)"

fun ingest_outcome :: "IngestStatus \<Rightarrow> Status" where
  "ingest_outcome IS_Accepted = ok"
| "ingest_outcome IS_Duplicate = cancelled ''duplicate sample''"
| "ingest_outcome IS_Rollback = stale_evidence ''clock rollback / reordered sample rejected''"
| "ingest_outcome IS_Late = invalid_input ''late sample for closed window''"
| "ingest_outcome IS_Invalid = invalid_input ''invalid sample''"
| "ingest_outcome IS_Closed = invalid_input ''window closed''"

definition window_sample :: "EvidenceRecord \<Rightarrow> ObjectiveAccumulator \<Rightarrow> IngestStatus \<times> ObjectiveAccumulator" where
  "window_sample e a =
     (let (st, w) = window_ingest (a_window a) (e_time e) (numeric_of (e_value e)) (a_next_seq a)
      in (st, a\<lparr> a_window := w, a_next_seq := a_next_seq a + 1 \<rparr>))"

definition availability_sample :: "Objective \<Rightarrow> EvidenceRecord \<Rightarrow> ObjectiveAccumulator \<Rightarrow> ObjectiveAccumulator" where
  "availability_sample ob e a =
     (let bp = numeric_of (e_value e);
          weight = max 1 (count_value (e_sample_count e));
          serving = d_to_i64 (dmul (ddiv bp (dec 10000 1)) (d_of_int weight));
          v = a_avail a
      in a\<lparr> a_avail :=
           (if o_availability_mode ob = AM_Time
            then v\<lparr> av_eligible_time := Duration (wrap64 (as_ns (av_eligible_time v) + weight)),
                    av_serving_time := Duration (wrap64 (as_ns (av_serving_time v) + serving)) \<rparr>
            else v\<lparr> av_eligible := Count (wrap64 (count_value (av_eligible v) + weight)),
                    av_successful := Count (wrap64 (count_value (av_successful v) + serving)) \<rparr>) \<rparr>)"

text \<open>The switch over the dimension of the evidence, on the accumulator of the objective.\<close>

definition ingest_sample :: "Objective \<Rightarrow> EvidenceRecord \<Rightarrow> ObjectiveAccumulator \<Rightarrow> Status \<times> ObjectiveAccumulator" where
  "ingest_sample ob e a =
     (case e_dimension e of
        Dim_RecoveryTime \<Rightarrow> (invalid_input ''use record_recovery_event for recovery-time objectives'', a)
      | Dim_Availability \<Rightarrow> (ok, availability_sample ob e a)
      | Dim_Cost \<Rightarrow>
          (if o_kind ob = K_CostWindowBudget
           then (ok, a\<lparr> a_cost := cost_window_add (e_time e) (numeric_of (e_value e)) (as_ns (o_window_duration ob)) (a_cost a) \<rparr>)
           else (ok, snd (window_sample e a)))
      | _ \<Rightarrow> (let (st, a) = window_sample e a in (ingest_outcome st, a)))"

definition ingest :: "EvidenceRecord \<Rightarrow> Duration \<Rightarrow> Impl \<Rightarrow> Status \<times> Impl" where
  "ingest e now s =
     (let (n, s) = note_evidence (e_id e) s
      in if \<not> status_ok n then (n, s)
         else if gen_valid (e_epoch e) \<and> e_epoch e \<noteq> im_epoch s
         then (stale_authority ''evidence coordinator epoch does not match current'', s)
         else case newest_objective (e_objective_id e) s of
           None \<Rightarrow> (objective_invalid ''unknown objective'', s)
         | Some ob \<Rightarrow>
             if gen_valid (e_objective_gen e) \<and> e_objective_gen e \<noteq> o_gen ob
             then (stale_authority ''objective generation mismatch'', s)
             else let (a, s) = get_accumulator ob s
                  in if acc_seen (e_id e) a then (cancelled ''duplicate evidence'', s)
                     else let a = remember (e_id e) a
                          in if \<not> unit_compatible ob e
                             then (unit_mismatch ''evidence unit does not match objective'', put_accumulator (o_id ob) a s)
                             else let (st, a) = ingest_sample ob e a in (st, put_accumulator (o_id ob) a s))"

datatype RecoveryEventPhase = REP_Observed | REP_Authoritative | REP_Initiated | REP_Restored | REP_Verified

fun recovery_event :: "RecoveryEventPhase \<Rightarrow> Duration \<Rightarrow> RecoveryTracker \<Rightarrow> RecoveryTracker" where
  "recovery_event REP_Observed t r = r"
| "recovery_event REP_Authoritative t r = r\<lparr> rt_authoritative := True, rt_authoritative_at := t \<rparr>"
| "recovery_event REP_Initiated t r = r\<lparr> rt_initiated := True \<rparr>"
| "recovery_event REP_Restored t r = r\<lparr> rt_restored := True, rt_restored_at := t \<rparr>"
| "recovery_event REP_Verified t r = r\<lparr> rt_verified := True, rt_verified_at := t \<rparr>"

definition record_recovery_event :: "ObjectiveId \<Rightarrow> RecoveryEventPhase \<Rightarrow> Duration \<Rightarrow> Impl \<Rightarrow> Status \<times> Impl" where
  "record_recovery_event i phase t s =
     (case newest_objective i s of
        None \<Rightarrow> (objective_invalid ''unknown recovery objective'', s)
      | Some ob \<Rightarrow>
          let (a, s) = get_accumulator ob s;
              a = a\<lparr> a_recovery := recovery_event phase t ((a_recovery a)\<lparr> rt_observed := True \<rparr>) \<rparr>
          in (ok, put_accumulator (o_id ob) a s))"

text \<open>
  \<^verbatim>\<open>ingest_violation_event\<close> takes the accumulator of the first matching objective of every contract in turn, and keeps
  the last one; all of them live under the same identity.
\<close>

definition touch_objective :: "ObjectiveId \<Rightarrow> SloContract \<Rightarrow> bool \<times> Impl \<Rightarrow> bool \<times> Impl" where
  "touch_objective i c fs =
     (case find (\<lambda>ob. o_id ob = i) (c_objectives c) of
        None \<Rightarrow> fs
      | Some ob \<Rightarrow> (True, snd (get_accumulator ob (snd fs))))"

definition ingest_violation_event :: "ObjectiveId \<Rightarrow> Duration \<Rightarrow> Impl \<Rightarrow> Status \<times> Impl" where
  "ingest_violation_event i now s =
     (let (found, s) = fold (\<lambda>(_, c). touch_objective i c) (im_contracts s) (False, s)
      in if \<not> found then (objective_invalid ''unknown objective'', s)
         else case map_of (im_accumulators s) i of
           None \<Rightarrow> (objective_invalid ''unknown objective'', s)
         | Some a \<Rightarrow>
             if \<not> a_has_budget a then (invalid_input ''objective has no budget'', s)
             else (ok, put_accumulator i (a\<lparr> a_budget := snd (consume (a_budget a)) \<rparr>) s))"

definition set_objective_budget :: "ObjectiveId \<Rightarrow> Count \<Rightarrow> Duration \<Rightarrow> Impl \<Rightarrow> Status \<times> Impl" where
  "set_objective_budget i tot window s =
     (case newest_objective i s of
        None \<Rightarrow> (objective_invalid ''unknown objective'', s)
      | Some ob \<Rightarrow>
          let (a, s) = get_accumulator ob s
          in if count_value tot < 0 then (invalid_input ''budget total must be non-negative'', s)
             else (ok, put_accumulator (o_id ob) (a\<lparr> a_has_budget := True, a_budget := error_budget tot window \<rparr>) s))"

section \<open>Evaluation\<close>

definition select_contract :: "ServiceId \<Rightarrow> WorkloadId \<Rightarrow> Duration \<Rightarrow> Impl \<Rightarrow> SloContract option" where
  "select_contract service workload now s = foldl (\<lambda>best (_, c).
     if c_service c = service \<and> c_workload c = workload \<and> can_authorize c now
     then (case best of None \<Rightarrow> Some c | Some b \<Rightarrow> if c_gen b < c_gen c then Some c else best)
     else best) None (im_contracts s)"

definition eval_step :: "Duration \<Rightarrow> Objective \<Rightarrow> Impl \<times> ObjEval list \<times> string \<Rightarrow> Impl \<times> ObjEval list \<times> string" where
  "eval_step now ob = (\<lambda>(s, evals, digest).
     let (a, s) = get_accumulator ob s;
         (a, ev, d) = eval_objective ob now a
     in (put_accumulator (o_id ob) a s, evals @ [ev], digest @ d))"

definition eval_objectives :: "Duration \<Rightarrow> Objective list \<Rightarrow> string \<Rightarrow> Impl \<Rightarrow> Impl \<times> ObjEval list \<times> string" where
  "eval_objectives now obs digest s = fold (eval_step now) obs (s, [], digest)"

definition cooldown_of :: "Objective \<Rightarrow> Impl \<Rightarrow> Duration" where
  "cooldown_of ob s = (case map_of (im_accumulators s) (o_id ob) of None \<Rightarrow> Duration 0 | Some a \<Rightarrow> a_cooldown_until a)"

definition make_intent ::
    "ServiceId \<Rightarrow> WorkloadId \<Rightarrow> SloContract \<Rightarrow> SloPolicy \<Rightarrow> Duration \<Rightarrow> ComplianceState \<Rightarrow> Objective option \<Rightarrow> Impl \<Rightarrow> EnforcementIntent" where
  "make_intent service workload c p now overall binding s =
     (let n = im_evaluation_counter s;
          i = default_intent\<lparr> i_service := service, i_workload := workload, i_epoch := im_epoch s,
                i_contract_gen := c_gen c, i_policy_gen := p_gen p, i_evaluation_id := Id n, i_evaluation_gen := Gen n,
                i_evidence_gen := Gen n, i_workload_gen := Gen 1, i_action := EA_NoAction, i_cooldown := seconds 5 \<rparr>
      in case binding of
           None \<Rightarrow> i
         | Some b \<Rightarrow> i\<lparr> i_action := select_action b overall (cooldown_of b s) now, i_cls := o_enforcement b,
               i_dimension := o_dim b, i_objective_id := o_id b, i_objective_gen := o_gen b,
               i_reason := severity_reason overall @ ''; binding objective: '' @ o_name b \<rparr>)"

definition make_explanation ::
    "ServiceId \<Rightarrow> WorkloadId \<Rightarrow> SloContract \<Rightarrow> SloPolicy \<Rightarrow> ObjEval list \<Rightarrow> ComplianceState \<Rightarrow> Objective option \<Rightarrow>
     EnforcementIntent \<Rightarrow> Impl \<Rightarrow> Explanation" where
  "make_explanation service workload c p evals overall binding i s =
     (let n = im_evaluation_counter s in
      \<lparr> ex_contract_id = c_id c, ex_contract_gen = c_gen c, ex_policy_id = p_id p, ex_policy_gen = p_gen p,
        ex_service = service, ex_workload = workload, ex_epoch = im_epoch s, ex_workload_gen = Gen 1,
        ex_evidence_gen = Gen 0, ex_evaluation_id = Id n, ex_evaluation_gen = Gen n, ex_objectives = map oe_st evals,
        ex_compliance = overall,
        ex_binding_dimension = (case binding of None \<Rightarrow> Dim_Latency | Some b \<Rightarrow> o_dim b),
        ex_binding_objective = (case binding of None \<Rightarrow> Id 0 | Some b \<Rightarrow> o_id b),
        ex_secondary_constraints = (case binding of None \<Rightarrow> [] | Some b \<Rightarrow> secondary_constraints evals b),
        ex_predicted_risks = filter (\<lambda>r. r \<noteq> PR_None) (map oe_risk evals),
        ex_selected_action = i_action i,
        ex_ranked_intents = (case binding of None \<Rightarrow> [] | Some b \<Rightarrow> ranked_intents evals b),
        ex_policy_rationale = policy_mode_name (p_mode p) @ '': '' @ p_description p,
        ex_what_would_change = (case binding of None \<Rightarrow> WhatWouldChange [] [] | Some b \<Rightarrow> what_would_change evals b) \<rparr>)"

definition bounded_push :: "'a \<Rightarrow> 'a list \<Rightarrow> 'a list" where
  "bounded_push x xs = (if 1024 \<le> int (length xs) then tl xs else xs) @ [x]"

definition record_evaluation :: "EvaluationRecord \<Rightarrow> Impl \<Rightarrow> Impl" where
  "record_evaluation e s =
     s\<lparr> im_evaluation_history := bounded_push e (im_evaluation_history s),
        im_evaluation_by_id := umap_assign (ev_evaluation_id e) e (im_evaluation_by_id s) \<rparr>"

text \<open>
  \<^verbatim>\<open>evaluate\<close>.  The outer option is \<open>None\<close> where the code would read the first element of an empty vector: the
  selected contract has no objectives.
\<close>

definition evaluate :: "ServiceId \<Rightarrow> WorkloadId \<Rightarrow> Duration \<Rightarrow> Impl \<Rightarrow> (EvaluationResult Result \<times> Impl) option" where
  "evaluate service workload now s =
     (case select_contract service workload now s of
        None \<Rightarrow> Some (result_error (contract_inactive ''no active contract for scope''), s)
      | Some c \<Rightarrow>
     (case map_of (im_policies s) (c_policy_id c) of
        None \<Rightarrow> Some (result_error (policy_superseded ''policy generation does not match contract''), s)
      | Some p \<Rightarrow>
     if p_gen p \<noteq> c_policy_gen c
     then Some (result_error (policy_superseded ''policy generation does not match contract''), s)
     else
       let s = s\<lparr> im_evaluation_counter := im_evaluation_counter s + 1 \<rparr>;
           digest0 = show_u64 (gen_value (c_gen c)) @ ''|'' @ show_u64 (gen_value (p_gen p)) @ ''|'';
           (s, evals, digest) = eval_objectives now (c_objectives c) digest0 s
       in case decide evals of
            None \<Rightarrow> None
          | Some (overall, binding) \<Rightarrow>
              let i = make_intent service workload c p now overall binding s;
                  ex = make_explanation service workload c p evals overall binding i s;
                  rec = \<lparr> ev_evaluation_id = ex_evaluation_id ex, ev_evaluation_gen = ex_evaluation_gen ex,
                          ev_contract_gen = c_gen c, ev_policy_gen = p_gen p, ev_evidence_gen = i_evidence_gen i,
                          ev_epoch = im_epoch s, ev_time = now, ev_compliance = overall,
                          ev_binding_dimension = ex_binding_dimension ex, ev_binding_objective = ex_binding_objective ex,
                          ev_selected_action = i_action i, ev_digest = stable_hash digest \<rparr>
              in Some (result_value \<lparr> er_status = ok, er_explanation = ex, er_intent = i \<rparr>, record_evaluation rec s)))"

section \<open>Enforcement lifecycle\<close>

definition target_contract :: "EnforcementIntent \<Rightarrow> Impl \<Rightarrow> SloContract option" where
  "target_contract i s = foldl (\<lambda>best (_, c).
     if (\<exists>ob \<in> set (c_objectives c). o_id ob = i_objective_id i) \<and> c_service c = i_service i then Some c else best)
     None (im_contracts s)"

definition receipt_for :: "EnforcementIntent \<Rightarrow> u64 \<Rightarrow> EnforcementReceipt" where
  "receipt_for i n =
     \<lparr> r_id = Id n, r_gen = Gen n, r_action = i_action i, r_lifecycle = EL_Authorized, r_epoch = i_epoch i,
       r_contract_gen = i_contract_gen i, r_policy_gen = i_policy_gen i, r_evaluation_id = i_evaluation_id i,
       r_evaluation_gen = i_evaluation_gen i, r_workload_gen = i_workload_gen i, r_service = i_service i,
       r_workload = i_workload i, r_objective_id = i_objective_id i, r_objective_gen = i_objective_gen i,
       r_reason = i_reason i \<rparr>"

definition set_cooldown :: "EnforcementIntent \<Rightarrow> Duration \<Rightarrow> Impl \<Rightarrow> Impl" where
  "set_cooldown i now s =
     (case map_of (im_accumulators s) (i_objective_id i) of
        None \<Rightarrow> s
      | Some a \<Rightarrow> put_accumulator (i_objective_id i)
          (a\<lparr> a_cooldown_until := Duration (wrap64 (as_ns now + as_ns (i_cooldown i))) \<rparr>) s)"

definition authorize :: "EnforcementIntent \<Rightarrow> Duration \<Rightarrow> Impl \<Rightarrow> EnforcementReceipt Result \<times> Impl" where
  "authorize i now s =
     (if i_epoch i \<noteq> im_epoch s then (result_error (stale_authority ''intent coordinator epoch is stale''), s)
      else if i_action i = EA_NoAction then (result_error (invalid_input ''cannot authorize a no-op intent''), s)
      else case target_contract i s of
        None \<Rightarrow> (result_error (contract_inactive ''target contract not found''), s)
      | Some c \<Rightarrow>
          if c_gen c \<noteq> i_contract_gen i
          then (result_error (stale_authority ''contract generation does not match intent''), s)
          else if \<not> can_authorize c now
          then (result_error (contract_inactive ''contract cannot authorize at this time''), s)
          else case map_of (im_policies s) (c_policy_id c) of
            None \<Rightarrow> (result_error (policy_superseded ''policy generation does not match intent''), s)
          | Some p \<Rightarrow>
              if p_gen p \<noteq> i_policy_gen i
              then (result_error (policy_superseded ''policy generation does not match intent''), s)
              else let n = im_enforcement_counter s + 1;
                       rc = receipt_for i n;
                       s = set_cooldown i now (s\<lparr> im_enforcement_counter := n \<rparr>)
                   in (result_value rc, s\<lparr> im_enforcement_history := bounded_push rc (im_enforcement_history s) \<rparr>))"

definition dispatch :: "EnforcementIntent \<Rightarrow> ReferenceEnforcementSink \<Rightarrow> Impl \<Rightarrow> Status \<times> ReferenceEnforcementSink \<times> Impl" where
  "dispatch i sink s =
     (let s = s\<lparr> im_dispatch_counter := im_dispatch_counter s + 1 \<rparr>;
          (st, sink) = sink_dispatch (i_action i) i sink
      in (st, sink, s))"

fun update_receipt ::
    "EnforcementId \<Rightarrow> (EnforcementReceipt \<Rightarrow> Status \<times> EnforcementReceipt) \<Rightarrow> EnforcementReceipt list \<Rightarrow>
     Status \<times> EnforcementReceipt list" where
  "update_receipt i f [] = (not_found ''enforcement not found'', [])"
| "update_receipt i f (rc # rcs) =
     (if r_id rc = i then (let (st, rc') = f rc in (st, rc' # rcs))
      else let (st, rcs') = update_receipt i f rcs in (st, rc # rcs'))"

definition transition_receipt :: "EnforcementLifecycle \<Rightarrow> EnforcementReceipt \<Rightarrow> Status \<times> EnforcementReceipt" where
  "transition_receipt to rc =
     (if \<not> enforcement_transition_legal (r_lifecycle rc) to
      then (cancelled ''illegal enforcement lifecycle transition'', rc)
      else (ok, rc\<lparr> r_lifecycle := to \<rparr>))"

definition transition :: "EnforcementId \<Rightarrow> EnforcementLifecycle \<Rightarrow> Duration \<Rightarrow> Impl \<Rightarrow> Status \<times> Impl" where
  "transition i to now s =
     (let (st, h) = update_receipt i (transition_receipt to) (im_enforcement_history s)
      in (st, s\<lparr> im_enforcement_history := h \<rparr>))"

definition complete_receipt :: "EnforcementReceipt \<Rightarrow> Status \<times> EnforcementReceipt" where
  "complete_receipt rc =
     (if r_lifecycle rc = EL_Acknowledged then (ok, rc\<lparr> r_lifecycle := EL_Effective \<rparr>)
      else if r_lifecycle rc = EL_Effective then (ok, rc)
      else (cancelled ''enforcement not in a state that can complete'', rc))"

definition complete_enforcement :: "EnforcementId \<Rightarrow> Duration \<Rightarrow> Impl \<Rightarrow> Status \<times> Impl" where
  "complete_enforcement i now s =
     (let (st, h) = update_receipt i complete_receipt (im_enforcement_history s)
      in (st, s\<lparr> im_enforcement_history := h \<rparr>))"

section \<open>Persistence\<close>

definition persisted_objective :: "ObjectiveId \<times> ObjectiveAccumulator \<Rightarrow> PersistedObjectiveState" where
  "persisted_objective = (\<lambda>(i, a).
     \<lparr> ps_objective_id = i, ps_objective_gen = o_gen (a_def a),
       ps_budget_total = (if a_has_budget a then b_total (a_budget a) else Count 0),
       ps_budget_consumed = (if a_has_budget a then b_consumed (a_budget a) else Count 0),
       ps_budget_window = (if a_has_budget a then b_window (a_budget a) else Duration 0),
       ps_budget_window_start = (if a_has_budget a then b_window_start (a_budget a) else Duration 0),
       ps_last_state = a_last_state a, ps_last_state_time = a_last_state_time a,
       ps_cooldown_until = a_cooldown_until a \<rparr>)"

text \<open>
  The snapshot that \<^verbatim>\<open>save\<close> takes under the mutex.  \<open>order\<close> is the iteration order of the unordered map of
  accumulators, which the standard library does not specify.
\<close>

type_synonym iteration_order = "(ObjectiveId \<times> ObjectiveAccumulator) list \<Rightarrow> (ObjectiveId \<times> ObjectiveAccumulator) list"

definition snapshot :: "iteration_order \<Rightarrow> Impl \<Rightarrow> DurableState" where
  "snapshot order s =
     \<lparr> ds_format_version = kPersistenceVersion, ds_epoch = im_epoch s, ds_policies = map snd (im_policies s),
       ds_contracts = map snd (im_contracts s),
       ds_objective_states = map persisted_objective (order (im_accumulators s)),
       ds_enforcement_history = im_enforcement_history s, ds_evaluation_history = im_evaluation_history s \<rparr>"

definition save :: "iteration_order \<Rightarrow> WriteOutcome \<Rightarrow> path \<Rightarrow> Impl \<Rightarrow> FileSystem \<Rightarrow> Status \<times> FileSystem" where
  "save order io path s fs = save_state io path (snapshot order s) fs"

definition restore_objective :: "PersistedObjectiveState \<Rightarrow> Objective \<Rightarrow> Impl \<Rightarrow> Impl" where
  "restore_objective ps ob s =
     (if o_id ob = ps_objective_id ps \<and> o_gen ob = ps_objective_gen ps
      then let (a, s) = get_accumulator ob s;
               a = (if count_value (ps_budget_total ps) \<noteq> 0
                    then a\<lparr> a_has_budget := True,
                            a_budget := snd (consume_count (ps_budget_consumed ps)
                              (set_window_start (ps_budget_window_start ps)
                                (error_budget (ps_budget_total ps) (ps_budget_window ps)))) \<rparr>
                    else a);
               a = a\<lparr> a_last_state := CS_RevalidationRequired, a_last_state_time := ps_last_state_time ps,
                      a_cooldown_until := ps_cooldown_until ps \<rparr>
           in put_accumulator (o_id ob) a s
      else s)"

definition restore :: "DurableState \<Rightarrow> Impl \<Rightarrow> Impl" where
  "restore st s =
     (let s = s\<lparr> im_epoch := gen_next (ds_epoch st),
                 im_policies := fold (\<lambda>p. map_assign (p_id p) p) (ds_policies st) [],
                 im_contracts := fold (\<lambda>c. map_assign (c_id c) c) (ds_contracts st) [],
                 im_accumulators := [] \<rparr>;
          s = fold (\<lambda>ps s. fold (restore_objective ps) (all_objectives s) s) (ds_objective_states st) s
      in s\<lparr> im_enforcement_history := ds_enforcement_history st, im_evaluation_history := ds_evaluation_history st,
            im_evaluation_by_id := fold (\<lambda>e. umap_assign (ev_evaluation_id e) e) (ds_evaluation_history st) [] \<rparr>)"

definition load :: "bool \<Rightarrow> path \<Rightarrow> FileSystem \<Rightarrow> Impl \<Rightarrow> Status \<times> Impl" where
  "load readable path fs s =
     (let res = load_state readable path fs
      in case result_data res of
           None \<Rightarrow> (result_status res, s)
         | Some st \<Rightarrow> if \<not> result_ok res then (result_status res, s) else (ok, restore st s))"

section \<open>Inspection\<close>

record ObjectiveStatus =
  ot_objective :: Objective
  ot_state :: ComplianceState
  ot_current_value :: "ObjectiveValue option"
  ot_freshness :: Freshness
  ot_sample_count :: Count
  ot_budget_state :: "BudgetState option"
  ot_budget_consumed :: "Count option"

definition objective_status :: "Impl \<Rightarrow> Objective \<Rightarrow> ObjectiveStatus" where
  "objective_status s ob =
     (case map_of (im_accumulators s) (o_id ob) of
        Some a \<Rightarrow>
          \<lparr> ot_objective = ob, ot_state = a_last_state a, ot_current_value = None, ot_freshness = FR_Unknown,
            ot_sample_count = Count (window_size (a_window a)),
            ot_budget_state = (if a_has_budget a then Some (budget_state (a_budget a)) else None),
            ot_budget_consumed = (if a_has_budget a then Some (b_consumed (a_budget a)) else None) \<rparr>
      | None \<Rightarrow>
          \<lparr> ot_objective = ob, ot_state = CS_InsufficientEvidence, ot_current_value = None, ot_freshness = FR_Unknown,
            ot_sample_count = Count 0, ot_budget_state = None, ot_budget_consumed = None \<rparr>)"

definition objective_statuses :: "SloContractId \<Rightarrow> Impl \<Rightarrow> ObjectiveStatus list" where
  "objective_statuses i s =
     (case map_of (im_contracts s) i of None \<Rightarrow> [] | Some c \<Rightarrow> map (objective_status s) (c_objectives c))"

definition get_evaluation :: "EvaluationId \<Rightarrow> Impl \<Rightarrow> EvaluationRecord Result" where
  "get_evaluation i s =
     (case map_of (im_evaluation_by_id s) i of
        None \<Rightarrow> result_error (not_found ''evaluation not found'')
      | Some e \<Rightarrow> result_value e)"

definition contract_count :: "Impl \<Rightarrow> int" where
  "contract_count s = int (length (im_contracts s))"

definition evaluation_count :: "Impl \<Rightarrow> int" where
  "evaluation_count s = int (length (im_evaluation_history s))"

end
