(* ===== verification/Fabric_Inv.thy ===== *)
theory Fabric_Inv
  imports Fabric
begin

text \<open>
  The fabric as a state machine: every public operation is one atomic step of \<open>fabric_step\<close>, and \<open>fabric_inv\<close> holds
  in every state that the steps reach.  The step relation takes typed arguments (an \<^verbatim>\<open>int64_t\<close> is in range).
\<close>

section \<open>Invariant\<close>

definition fabric_inv :: "Impl \<Rightarrow> bool" where
  "fabric_inv s \<longleftrightarrow>
     map_wf (im_policies s) \<and> (\<forall>(i, p) \<in> set (im_policies s). p_id p = i) \<and>
     map_wf (im_contracts s) \<and> (\<forall>(i, c) \<in> set (im_contracts s). c_id c = i) \<and>
     umap_wf (im_accumulators s) \<and> (\<forall>(i, a) \<in> set (im_accumulators s). o_id (a_def a) = i \<and> acc_inv a) \<and>
     im_evidence_ring_cap s = 8192 \<and> ring_inv 8192 (im_global_evidence_ring s) (im_global_evidence s) \<and>
     umap_wf (im_evaluation_by_id s) \<and> (\<forall>(i, e) \<in> set (im_evaluation_by_id s). ev_evaluation_id e = i) \<and>
     int (length (im_enforcement_history s)) \<le> kMaxCollectionItems \<and>
     int (length (im_evaluation_history s)) \<le> kMaxCollectionItems"

lemma fabric_inv_new: "fabric_inv (new_fabric c)"
  by (simp add: fabric_inv_def new_fabric_def omap.wf_Nil hmap.wf_Nil kMaxCollectionItems_def)

lemma fabric_inv_acc: "fabric_inv s \<Longrightarrow> map_of (im_accumulators s) i = Some a \<Longrightarrow> o_id (a_def a) = i \<and> acc_inv a"
  unfolding fabric_inv_def by (auto dest: map_of_SomeD)

lemma fabric_inv_put_acc:
  "fabric_inv s \<Longrightarrow> o_id (a_def a) = i \<Longrightarrow> acc_inv a \<Longrightarrow> fabric_inv (put_accumulator i a s)"
  by (auto simp: fabric_inv_def put_accumulator_def hmap.wf_assign hmap.set_assign)

text \<open>Fields an accumulator update leaves alone.\<close>

lemma put_accumulator_frame [simp, frame_simps]:
  "im_epoch (put_accumulator i a s) = im_epoch s" "im_policies (put_accumulator i a s) = im_policies s"
  "im_contracts (put_accumulator i a s) = im_contracts s" "im_clock (put_accumulator i a s) = im_clock s"
  "im_enforcement_history (put_accumulator i a s) = im_enforcement_history s"
  "im_evaluation_history (put_accumulator i a s) = im_evaluation_history s"
  "im_evaluation_by_id (put_accumulator i a s) = im_evaluation_by_id s"
  "im_global_evidence (put_accumulator i a s) = im_global_evidence s"
  "im_global_evidence_ring (put_accumulator i a s) = im_global_evidence_ring s"
  "im_evidence_ring_cap (put_accumulator i a s) = im_evidence_ring_cap s"
  "im_evaluation_counter (put_accumulator i a s) = im_evaluation_counter s"
  "im_enforcement_counter (put_accumulator i a s) = im_enforcement_counter s"
  "im_dispatch_counter (put_accumulator i a s) = im_dispatch_counter s"
  by (simp_all add: put_accumulator_def)

lemma get_accumulator_cases:
  assumes "fabric_inv s"
  obtains (same) a where "map_of (im_accumulators s) (o_id ob) = Some a" "o_gen (a_def a) = o_gen ob"
      "get_accumulator ob s = (a, s)"
  | (fresh) a where "get_accumulator ob s = (a, put_accumulator (o_id ob) a s)" "a_def a = ob" "acc_inv a"
proof (cases "map_of (im_accumulators s) (o_id ob)")
  case None
  then show thesis
    using fresh [of "new_accumulator ob"] new_accumulator_inv [of ob]
    by (simp add: get_accumulator_def Let_def new_accumulator_def route_for_idem)
next
  case (Some a)
  then show thesis
    using same [of a] fresh [of "reset_for_new_gen ob a"] fabric_inv_acc [OF assms Some]
    by (cases "o_gen (a_def a) = o_gen ob") (simp_all add: get_accumulator_def Let_def reset_for_new_gen_inv)
qed

lemma get_accumulator_inv:
  assumes "fabric_inv s"
  shows "fabric_inv (snd (get_accumulator ob s))" "acc_inv (fst (get_accumulator ob s))"
    "o_id (a_def (fst (get_accumulator ob s))) = o_id ob" "o_gen (a_def (fst (get_accumulator ob s))) = o_gen ob"
    "map_of (im_accumulators (snd (get_accumulator ob s))) (o_id ob) = Some (fst (get_accumulator ob s))"
  using assms
  by (cases rule: get_accumulator_cases [where ob = ob];
      use assms in \<open>auto simp: fabric_inv_put_acc dest: fabric_inv_acc\<close>;
      simp add: put_accumulator_def fabric_inv_def hmap.lookup_assign)+

lemma get_accumulator_frame [simp, frame_simps]:
  "im_epoch (snd (get_accumulator ob s)) = im_epoch s" "im_policies (snd (get_accumulator ob s)) = im_policies s"
  "im_contracts (snd (get_accumulator ob s)) = im_contracts s"
  "im_enforcement_history (snd (get_accumulator ob s)) = im_enforcement_history s"
  "im_evaluation_history (snd (get_accumulator ob s)) = im_evaluation_history s"
  "im_evaluation_by_id (snd (get_accumulator ob s)) = im_evaluation_by_id s"
  "im_global_evidence (snd (get_accumulator ob s)) = im_global_evidence s"
  "im_global_evidence_ring (snd (get_accumulator ob s)) = im_global_evidence_ring s"
  "im_evidence_ring_cap (snd (get_accumulator ob s)) = im_evidence_ring_cap s"
  "im_evaluation_counter (snd (get_accumulator ob s)) = im_evaluation_counter s"
  "im_enforcement_counter (snd (get_accumulator ob s)) = im_enforcement_counter s"
  by (simp_all add: get_accumulator_def Let_def split: option.split)

section \<open>Operations keep the invariant\<close>

lemma set_clock_inv: "fabric_inv s \<Longrightarrow> fabric_inv (set_clock c s)"
  by (simp add: set_clock_def fabric_inv_def)

lemma note_evidence_inv: "fabric_inv s \<Longrightarrow> fabric_inv (snd (note_evidence i s))"
  using ring_inv_push [of 8192 "im_global_evidence_ring s" "im_global_evidence s" i]
  by (auto simp: note_evidence_def fabric_inv_def Let_def split: if_splits)

lemma note_evidence_frame [simp, frame_simps]:
  "im_epoch (snd (note_evidence i s)) = im_epoch s" "im_policies (snd (note_evidence i s)) = im_policies s"
  "im_contracts (snd (note_evidence i s)) = im_contracts s"
  "im_accumulators (snd (note_evidence i s)) = im_accumulators s"
  "im_enforcement_history (snd (note_evidence i s)) = im_enforcement_history s"
  "im_enforcement_counter (snd (note_evidence i s)) = im_enforcement_counter s"
  by (simp_all add: note_evidence_def Let_def)

lemma set_policy_inv: "fabric_inv s \<Longrightarrow> fabric_inv (snd (set_policy p s))"
  by (auto simp: set_policy_def fabric_inv_def omap.wf_assign omap.set_assign split: option.split)

lemma put_contract_inv: "fabric_inv s \<Longrightarrow> fabric_inv (put_contract c s)"
  by (auto simp: put_contract_def fabric_inv_def omap.wf_assign omap.set_assign)

lemma fabric_inv_contract: "fabric_inv s \<Longrightarrow> map_of (im_contracts s) i = Some c \<Longrightarrow> c_id c = i"
  unfolding fabric_inv_def by (auto dest: map_of_SomeD)

lemma assign_contract_inv:
  "fabric_inv s \<Longrightarrow> c_id c = i \<Longrightarrow> fabric_inv (s\<lparr> im_contracts := map_assign i c (im_contracts s) \<rparr>)"
  by (auto simp: fabric_inv_def omap.wf_assign omap.set_assign)

lemma replace_contract_inv: "fabric_inv s \<Longrightarrow> fabric_inv (snd (replace_contract c s))"
  by (auto simp: replace_contract_def split: option.split dest: fabric_inv_contract
      intro!: put_contract_inv assign_contract_inv)

lemma add_contract_inv: "fabric_inv s \<Longrightarrow> fabric_inv (snd (add_contract c s))"
  by (simp add: add_contract_def Let_def replace_contract_inv)

lemma modify_contract_inv:
  "fabric_inv s \<Longrightarrow> (\<And>c. c_id (f c) = c_id c) \<Longrightarrow> fabric_inv (snd (modify_contract f i s))"
  by (auto simp: modify_contract_def split: option.split dest: fabric_inv_contract intro!: assign_contract_inv)

lemma contract_ops_inv:
  assumes "fabric_inv s"
  shows "fabric_inv (snd (supersede_contract c now s))" "fabric_inv (snd (activate_contract i now s))"
    "fabric_inv (snd (suspend_contract i now s))" "fabric_inv (snd (expire_contract i now s))"
    "fabric_inv (snd (retire_contract i now s))"
  using assms
  by (simp_all add: supersede_contract_def activate_contract_def suspend_contract_def expire_contract_def
      retire_contract_def replace_contract_inv modify_contract_inv Let_def)

lemma window_sample_inv: "acc_inv a \<Longrightarrow> in_i64 (as_ns (e_time e)) \<Longrightarrow> acc_inv (snd (window_sample e a))"
  by (simp add: window_sample_def split_beta Let_def)
     (intro acc_inv_window window_ingest_inv; simp add: acc_inv_def)

lemma ingest_sample_inv: "acc_inv a \<Longrightarrow> in_i64 (as_ns (e_time e)) \<Longrightarrow> acc_inv (snd (ingest_sample ob e a))"
  by (cases "e_dimension e")
     (auto simp: ingest_sample_def split_beta Let_def availability_sample_def
        intro!: window_sample_inv acc_inv_avail acc_inv_cost_add)

lemma ingest_sample_def_kept [simp]: "a_def (snd (ingest_sample ob e a)) = a_def a"
  by (simp add: ingest_sample_def window_sample_def availability_sample_def split_beta Let_def split: Dimension.split)

lemma remember_def_kept [simp]: "a_def (remember i a) = a_def a"
  by (simp add: remember_def Let_def)

lemma ingest_inv:
  assumes inv: "fabric_inv s" and t: "in_i64 (as_ns (e_time e))"
  shows "fabric_inv (snd (ingest e now s))"
proof -
  let ?s1 = "snd (note_evidence (e_id e) s)"
  have s1: "fabric_inv ?s1" using inv by (rule note_evidence_inv)
  note acc = get_accumulator_inv [OF s1]
  have put: "fabric_inv (put_accumulator (o_id ob) a (snd (get_accumulator ob ?s1)))"
    if "acc_inv a" "a_def a = a_def (fst (get_accumulator ob ?s1))" for ob a
    using that acc(1,3) [of ob] by (simp add: fabric_inv_put_acc)
  have rem: "acc_inv (remember (e_id e) (fst (get_accumulator ob ?s1)))" if "\<not> acc_seen (e_id e) (fst (get_accumulator ob ?s1))" for ob
    using that acc(2) [of ob] by (rule remember_inv [rotated])
  show ?thesis
    using s1 acc(1) put rem ingest_sample_inv [OF rem t]
    by (simp add: ingest_def split_beta Let_def split: option.split)
qed

lemma record_recovery_event_inv:
  assumes "fabric_inv s"
  shows "fabric_inv (snd (record_recovery_event i ph t s))"
  using assms get_accumulator_inv(1-3) [OF assms]
  by (auto simp: record_recovery_event_def split_beta Let_def acc_inv_recovery split: option.split
      intro!: fabric_inv_put_acc)

lemma touch_fold_inv:
  "fabric_inv (snd fs) \<Longrightarrow> fabric_inv (snd (fold (\<lambda>(_, c). touch_objective i c) cs fs))"
  by (induction cs arbitrary: fs)
     (auto simp: touch_objective_def get_accumulator_inv split: option.split)

lemma ingest_violation_event_inv:
  assumes "fabric_inv s"
  shows "fabric_inv (snd (ingest_violation_event i now s))"
proof -
  let ?fs = "fold (\<lambda>(_, c). touch_objective i c) (im_contracts s) (False, s)"
  have inv: "fabric_inv (snd ?fs)" using assms by (simp add: touch_fold_inv)
  have "fabric_inv (put_accumulator i (a\<lparr> a_budget := snd (consume (a_budget a)) \<rparr>) (snd ?fs))"
    if "map_of (im_accumulators (snd ?fs)) i = Some a" for a
    using fabric_inv_acc [OF inv that] inv by (intro fabric_inv_put_acc) (auto simp: acc_inv_def consume_inv)
  then show ?thesis using inv by (auto simp: ingest_violation_event_def split_beta Let_def split: option.split)
qed

lemma set_objective_budget_inv:
  assumes "fabric_inv s" "in_i64 (count_value tot)"
  shows "fabric_inv (snd (set_objective_budget i tot w s))"
proof -
  have b: "budget_inv (error_budget tot w)" if "0 \<le> count_value tot"
    using budget_inv_new [OF that assms(2), of w] by simp
  show ?thesis
    using get_accumulator_inv(1-3) [OF assms(1)] assms(1) b
    by (auto simp: set_objective_budget_def split_beta Let_def not_less split: option.split
        intro!: fabric_inv_put_acc acc_inv_budget)
qed

subsection \<open>Evaluation\<close>

lemma eval_step_inv:
  assumes "fabric_inv (fst x)"
  shows "fabric_inv (fst (eval_step now ob x))"
  using assms get_accumulator_inv(1-3) [OF assms]
  by (auto simp: eval_step_def split_beta Let_def eval_objective_fields intro!: fabric_inv_put_acc eval_objective_inv)

lemma fold_eval_inv: "fabric_inv (fst x) \<Longrightarrow> fabric_inv (fst (fold (eval_step now) obs x))"
  by (induction obs arbitrary: x) (simp_all add: eval_step_inv)

lemma eval_objectives_inv: "fabric_inv s \<Longrightarrow> fabric_inv (fst (eval_objectives now obs d s))"
  by (simp add: eval_objectives_def fold_eval_inv)

lemma bounded_push_length:
  "int (length xs) \<le> kMaxCollectionItems \<Longrightarrow> int (length (bounded_push x xs)) \<le> kMaxCollectionItems"
  by (auto simp: bounded_push_def kMaxCollectionItems_def)

lemma record_evaluation_inv: "fabric_inv s \<Longrightarrow> fabric_inv (record_evaluation e s)"
  using bounded_push_length [of "im_evaluation_history s" e]
  by (auto simp: fabric_inv_def record_evaluation_def hmap.wf_assign hmap.set_assign)

lemma counter_inv: "fabric_inv s \<Longrightarrow> fabric_inv (s\<lparr> im_evaluation_counter := n \<rparr>)"
  "fabric_inv s \<Longrightarrow> fabric_inv (s\<lparr> im_enforcement_counter := n \<rparr>)"
  "fabric_inv s \<Longrightarrow> fabric_inv (s\<lparr> im_dispatch_counter := n \<rparr>)"
  by (simp_all add: fabric_inv_def)

lemma evaluate_inv:
  assumes "fabric_inv s" "evaluate service workload now s = Some (r, s')"
  shows "fabric_inv s'"
  using assms
  by (auto simp: evaluate_def split_beta Let_def split: option.splits if_splits
      intro!: record_evaluation_inv eval_objectives_inv counter_inv)

subsection \<open>Enforcement\<close>

lemma set_cooldown_inv: "fabric_inv s \<Longrightarrow> fabric_inv (set_cooldown i now s)"
  by (auto simp: set_cooldown_def split: option.split intro!: fabric_inv_put_acc acc_inv_cooldown dest: fabric_inv_acc)

lemma authorize_inv: "fabric_inv s \<Longrightarrow> fabric_inv (snd (authorize i now s))"
proof -
  assume inv: "fabric_inv s"
  let ?s = "set_cooldown i now (s\<lparr> im_enforcement_counter := im_enforcement_counter s + 1 \<rparr>)"
  have "fabric_inv ?s" using inv by (intro set_cooldown_inv counter_inv)
  then have "fabric_inv (?s\<lparr> im_enforcement_history := bounded_push rc (im_enforcement_history ?s) \<rparr>)" for rc
    using bounded_push_length [of "im_enforcement_history ?s" rc] by (simp add: fabric_inv_def)
  then show ?thesis using inv by (simp add: authorize_def Let_def split: option.split)
qed

lemma length_update_receipt [simp]: "length (snd (update_receipt i f rcs)) = length rcs"
  by (induction rcs) (simp_all add: split_beta Let_def)

lemma transition_inv: "fabric_inv s \<Longrightarrow> fabric_inv (snd (transition i to now s))"
  by (simp add: transition_def fabric_inv_def split_beta Let_def)

lemma complete_enforcement_inv: "fabric_inv s \<Longrightarrow> fabric_inv (snd (complete_enforcement i now s))"
  by (simp add: complete_enforcement_def fabric_inv_def split_beta Let_def)

subsection \<open>Restart\<close>

lemma restore_objective_inv:
  assumes "fabric_inv s" "objstate_wf ps"
  shows "fabric_inv (restore_objective ps ob s)"
proof -
  have b: "budget_inv (snd (consume_count c (set_window_start t (error_budget (ps_budget_total ps) w))))" for c t w
    using assms(2) budget_inv_new [of "count_value (ps_budget_total ps)" w]
    by (intro consume_count_inv set_window_start_inv) (simp add: objstate_wf_def)
  show ?thesis
    using assms(1) get_accumulator_inv(1-3) [OF assms(1), of ob] b
    by (auto simp: restore_objective_def split_beta Let_def assigned_states_def
        intro!: fabric_inv_put_acc acc_inv_cooldown acc_inv_state acc_inv_budget)
qed

lemma fold_restore_inv:
  "fabric_inv s \<Longrightarrow> objstate_wf ps \<Longrightarrow> fabric_inv (fold (restore_objective ps) obs s)"
  by (induction obs arbitrary: s) (simp_all add: restore_objective_inv)

lemma fold_restore_states_inv:
  "fabric_inv s \<Longrightarrow> \<forall>ps \<in> set pss. objstate_wf ps \<Longrightarrow>
     fabric_inv (fold (\<lambda>ps s. fold (restore_objective ps) (all_objectives s) s) pss s)"
  by (induction pss arbitrary: s) (simp_all add: fold_restore_inv)

lemma keyed_fold:
  assumes "\<And>k v m. set (assign k v m) \<subseteq> insert (k, v) (set m)" "\<forall>(i, x) \<in> set m. key x = i"
  shows "\<forall>(i, x) \<in> set (fold (\<lambda>x. assign (key x) x) xs m). key x = i"
  using assms(2)
proof (induction xs arbitrary: m)
  case (Cons x xs)
  then have "\<forall>(i, y) \<in> set (assign (key x) x m). key y = i" using assms(1) [of "key x" x m] by fastforce
  then show ?case using Cons.IH by simp
qed simp

lemma map_assign_subset: "set (map_assign k v m) \<subseteq> insert (k, v) (set m)"
  by (induction m rule: map_assign.induct) auto

lemma umap_assign_subset: "set (umap_assign k v m) \<subseteq> insert (k, v) (set m)"
  by (induction k v m rule: umap_assign.induct) auto

lemma keyed_map: "\<forall>(i, x) \<in> set (fold (\<lambda>x. map_assign (key x) x) xs []). key x = i"
  by (rule keyed_fold [OF map_assign_subset]) simp

lemma keyed_umap: "\<forall>(i, x) \<in> set (fold (\<lambda>x. umap_assign (key x) x) xs []). key x = i"
  by (rule keyed_fold [OF umap_assign_subset]) simp

lemma restore_inv:
  assumes "fabric_inv s" "durable_wf st"
  shows "fabric_inv (restore st s)"
proof -
  let ?s0 = "s\<lparr> im_epoch := gen_next (ds_epoch st),
      im_policies := fold (\<lambda>p. map_assign (p_id p) p) (ds_policies st) [],
      im_contracts := fold (\<lambda>c. map_assign (c_id c) c) (ds_contracts st) [], im_accumulators := [] \<rparr>"
  have "fabric_inv ?s0"
    using assms(1) keyed_map [of p_id "ds_policies st"] keyed_map [of c_id "ds_contracts st"]
    by (simp add: fabric_inv_def omap.wf_fold omap.wf_Nil hmap.wf_Nil)
  moreover have "\<forall>ps \<in> set (ds_objective_states st). objstate_wf ps" using assms(2) by (simp add: durable_wf_def)
  ultimately have "fabric_inv (fold (\<lambda>ps s. fold (restore_objective ps) (all_objectives s) s) (ds_objective_states st) ?s0)"
    by (rule fold_restore_states_inv)
  then show ?thesis
    using assms(2) keyed_umap [of ev_evaluation_id "ds_evaluation_history st"]
    by (simp add: restore_def Let_def fabric_inv_def durable_wf_def hmap.wf_fold hmap.wf_Nil)
qed

lemma load_bytes_wf: "4 \<le> length full \<Longrightarrow> load_bytes full = result_value st \<Longrightarrow> durable_wf st"
  by (simp add: load_bytes_eq deserialize_wf split: if_splits)

lemma load_state_value:
  "result_data (load_state rd path fs) = Some st \<Longrightarrow> durable_wf st \<and> load_state rd path fs = result_value st"
proof -
  assume st: "result_data (load_state rd path fs) = Some st"
  then obtain full where full: "fs_files fs path = Some full" "4 \<le> length full" "load_state rd path fs = load_bytes full"
    by (auto simp: load_state_def split: option.splits if_splits)
  have "proper (load_bytes full)" using full(2) by (simp add: load_bytes_eq deserialize_proper)
  then have "load_bytes full = result_value st" using st full(3) by (auto simp: proper_def)
  then show ?thesis using load_bytes_wf full by simp
qed

lemma load_inv: "fabric_inv s \<Longrightarrow> fabric_inv (snd (load rd path fs s))"
  using load_state_value [of rd path fs]
  by (auto simp: load_def Let_def restore_inv split: option.split)

section \<open>Steps\<close>

datatype FabricOp =
    Op_set_clock "ClockRef option"
  | Op_set_policy SloPolicy
  | Op_add_contract SloContract
  | Op_activate SloContractId Duration
  | Op_suspend SloContractId Duration
  | Op_expire SloContractId Duration
  | Op_supersede SloContract Duration
  | Op_retire SloContractId Duration
  | Op_ingest EvidenceRecord Duration
  | Op_recovery ObjectiveId RecoveryEventPhase Duration
  | Op_violation ObjectiveId Duration
  | Op_budget ObjectiveId Count Duration
  | Op_evaluate ServiceId WorkloadId Duration
  | Op_authorize EnforcementIntent Duration
  | Op_dispatch EnforcementIntent
  | Op_transition EnforcementId EnforcementLifecycle Duration
  | Op_complete EnforcementId Duration
  | Op_load bool path FileSystem

inductive fabric_step :: "Impl \<Rightarrow> FabricOp \<Rightarrow> Impl \<Rightarrow> bool" where
  step_set_clock: "fabric_step s (Op_set_clock c) (set_clock c s)"
| step_set_policy: "fabric_step s (Op_set_policy p) (snd (set_policy p s))"
| step_add_contract: "fabric_step s (Op_add_contract c) (snd (add_contract c s))"
| step_activate: "fabric_step s (Op_activate i now) (snd (activate_contract i now s))"
| step_suspend: "fabric_step s (Op_suspend i now) (snd (suspend_contract i now s))"
| step_expire: "fabric_step s (Op_expire i now) (snd (expire_contract i now s))"
| step_supersede: "fabric_step s (Op_supersede c now) (snd (supersede_contract c now s))"
| step_retire: "fabric_step s (Op_retire i now) (snd (retire_contract i now s))"
| step_ingest: "in_i64 (as_ns (e_time e)) \<Longrightarrow> fabric_step s (Op_ingest e now) (snd (ingest e now s))"
| step_recovery: "fabric_step s (Op_recovery oi ph t) (snd (record_recovery_event oi ph t s))"
| step_violation: "fabric_step s (Op_violation oi now) (snd (ingest_violation_event oi now s))"
| step_budget: "in_i64 (count_value n) \<Longrightarrow> fabric_step s (Op_budget oi n w) (snd (set_objective_budget oi n w s))"
| step_evaluate: "evaluate sv wl now s = Some (r, s') \<Longrightarrow> fabric_step s (Op_evaluate sv wl now) s'"
| step_authorize: "fabric_step s (Op_authorize x now) (snd (authorize x now s))"
| step_dispatch: "fabric_step s (Op_dispatch x) (snd (snd (dispatch x sink s)))"
| step_transition: "fabric_step s (Op_transition ei l now) (snd (transition ei l now s))"
| step_complete: "fabric_step s (Op_complete ei now) (snd (complete_enforcement ei now s))"
| step_load: "fabric_step s (Op_load rd path fs) (snd (load rd path fs s))"

text \<open>A run is a sequence of steps; operations of concurrent callers interleave as whole steps under the mutex.\<close>

inductive fabric_run :: "Impl \<Rightarrow> FabricOp list \<Rightarrow> Impl \<Rightarrow> bool" where
  run_Nil: "fabric_run s [] s"
| run_Cons: "fabric_step s op t \<Longrightarrow> fabric_run t ops u \<Longrightarrow> fabric_run s (op # ops) u"

inductive_cases fabric_run_NilE [elim!]: "fabric_run s [] u"
inductive_cases fabric_run_ConsE [elim]: "fabric_run s (op # ops) u"

definition keeps_process :: "FabricOp \<Rightarrow> bool" where
  "keeps_process op \<longleftrightarrow> (\<forall>rd path fs. op \<noteq> Op_load rd path fs)"

lemma fabric_step_inv: "fabric_step s op s' \<Longrightarrow> fabric_inv s \<Longrightarrow> fabric_inv s'"
  by (induction rule: fabric_step.induct)
     (simp_all add: set_clock_inv set_policy_inv add_contract_inv contract_ops_inv ingest_inv record_recovery_event_inv
       ingest_violation_event_inv set_objective_budget_inv evaluate_inv authorize_inv dispatch_def split_beta Let_def
       counter_inv transition_inv complete_enforcement_inv load_inv)

lemma fabric_run_inv: "fabric_run s ops t \<Longrightarrow> fabric_inv s \<Longrightarrow> fabric_inv t"
  by (induction rule: fabric_run.induct) (simp_all add: fabric_step_inv)

lemma fabric_run_new: "fabric_run (new_fabric c) ops s \<Longrightarrow> fabric_inv s"
  using fabric_run_inv fabric_inv_new by blast

text \<open>What every operation of a kind preserves, every run of such operations preserves.\<close>

lemma fabric_run_preserves:
  assumes "fabric_run s ops t" "\<And>op s t. op \<in> set ops \<Longrightarrow> fabric_step s op t \<Longrightarrow> fabric_inv s \<Longrightarrow> P s \<Longrightarrow> P t"
    "fabric_inv s" "P s"
  shows "P t"
  using assms
proof (induction rule: fabric_run.induct)
  case (run_Cons s op t ops u)
  have "P t" using run_Cons.prems(1) [of op s t] run_Cons.prems(2,3) run_Cons.hyps(1) by simp
  moreover have "fabric_inv t" using run_Cons.hyps(1) run_Cons.prems(2) by (rule fabric_step_inv)
  ultimately show ?case using run_Cons.IH run_Cons.prems(1) by (metis list.set_intros(2))
qed

end
