(* ===== verification/Scenario.thy ===== *)
theory Scenario
  imports Fabric_Inv
begin

text \<open>
  A small concrete fabric for the witnesses of the properties: one policy, one active contract with one latency
  objective of at most 100 ns, and one measurement of 500 ns.
\<close>

definition sample_policy :: SloPolicy where
  "sample_policy = \<lparr> p_id = Id 1, p_gen = Gen 1, p_mode = PM_Lexicographic, p_tie_break = TB_ByPriority, p_name = ''p'',
     p_description = [] \<rparr>"

definition sample_objective :: Objective where
  "sample_objective = default_objective\<lparr> o_id := Id 5, o_gen := Gen 1, o_name := ''latency'',
     o_target := VDuration (Duration 100), o_window_type := WT_Sliding \<rparr>"

definition sample_contract :: SloContract where
  "sample_contract = \<lparr> c_id = Id 1, c_gen = Gen 1, c_service = Id 1, c_workload = Id 2, c_tenant = Id 3,
     c_objectives = [sample_objective], c_policy_id = Id 1, c_policy_gen = Gen 1, c_effective_from = Duration 0,
     c_expiration = None, c_epoch = Gen 1, c_lifecycle = CL_Active, c_name = ''c'', c_provenance = [] \<rparr>"

definition sample_evidence :: EvidenceRecord where
  "sample_evidence = default_evidence\<lparr> e_id := Id 9, e_objective_id := Id 5, e_objective_gen := Gen 1, e_time := Duration 10,
     e_value := VDuration (Duration 500) \<rparr>"

definition sample_intent :: EnforcementIntent where
  "sample_intent = default_intent\<lparr> i_service := Id 1, i_workload := Id 2, i_epoch := Gen 1, i_contract_gen := Gen 1,
     i_policy_gen := Gen 1, i_evaluation_id := Id 1, i_evaluation_gen := Gen 1, i_action := EA_Throttle,
     i_objective_id := Id 5, i_objective_gen := Gen 1, i_cooldown := seconds 5 \<rparr>"

definition sample_setup :: "FabricOp list" where
  "sample_setup = [Op_set_policy sample_policy, Op_add_contract sample_contract]"

definition sample_fabric :: Impl where
  "sample_fabric = snd (add_contract sample_contract (snd (set_policy sample_policy (new_fabric None))))"

definition sample_measured :: Impl where
  "sample_measured = snd (ingest sample_evidence (Duration 10) sample_fabric)"

lemma sample_evidence_time: "in_i64 (as_ns (e_time sample_evidence))"
  by code_simp

lemma sample_fabric_run: "fabric_run (new_fabric None) sample_setup sample_fabric"
  unfolding sample_setup_def sample_fabric_def
  by (rule run_Cons, rule step_set_policy, rule run_Cons, rule step_add_contract, rule run_Nil)

lemma sample_measured_run: "fabric_run sample_fabric [Op_ingest sample_evidence (Duration 10)] sample_measured"
  unfolding sample_measured_def using sample_evidence_time by (intro run_Cons [OF step_ingest] run_Nil)

lemma sample_fabric_inv: "fabric_inv sample_fabric"
  using sample_fabric_run by (rule fabric_run_new)

lemma sample_measured_inv: "fabric_inv sample_measured"
  using sample_measured_run sample_fabric_inv by (rule fabric_run_inv)

end
