(* ===== verification/Authority.thy ===== *)
theory Authority
  imports Scenario
begin

text \<open>
  Authority: generations only grow within a process, an authorisation is backed by the current epoch and by the
  contract and policy generations in force, receipts are numbered consecutively and follow the lifecycle, a withdrawn
  contract neither decides nor authorises, and evidence cannot be replayed.
\<close>

section \<open>Generations\<close>

text \<open>
  Every entry of a dictionary survives, with the same content or at a strictly newer generation: within a process, a
  generation names one content.
\<close>

definition advances :: "('v \<Rightarrow> 'g :: linorder) \<Rightarrow> ('v \<Rightarrow> 'c) \<Rightarrow> ('k \<rightharpoonup> 'v) \<Rightarrow> ('k \<rightharpoonup> 'v) \<Rightarrow> bool" where
  "advances gen content m m' \<longleftrightarrow>
     (\<forall>k v. m k = Some v \<longrightarrow> (\<exists>v'. m' k = Some v' \<and> (gen v < gen v' \<or> gen v = gen v' \<and> content v = content v')))"

lemma advances_refl [simp]: "advances gen content m m"
  by (simp add: advances_def)

lemma advancesE:
  assumes "advances gen content m m'" "m k = Some v"
  obtains v' where "m' k = Some v'" "gen v < gen v' \<or> gen v = gen v' \<and> content v = content v'"
  using assms unfolding advances_def by blast

lemma advances_trans:
  assumes "advances gen content m m'" "advances gen content m' m''"
  shows "advances gen content m m''"
  unfolding advances_def
proof (intro allI impI)
  fix k v assume "m k = Some v"
  with assms(1) obtain v' where v': "m' k = Some v'" "gen v < gen v' \<or> gen v = gen v' \<and> content v = content v'"
    by (rule advancesE)
  from assms(2) v'(1) obtain v'' where "m'' k = Some v''" "gen v' < gen v'' \<or> gen v' = gen v'' \<and> content v' = content v''"
    by (rule advancesE)
  with v'(2) show "\<exists>v''. m'' k = Some v'' \<and> (gen v < gen v'' \<or> gen v = gen v'' \<and> content v = content v'')"
    by (auto intro: less_trans)
qed

lemma advances_update:
  "(\<And>old. m k = Some old \<Longrightarrow> gen old < gen v \<or> gen old = gen v \<and> content old = content v) \<Longrightarrow>
     advances gen content m (m(k \<mapsto> v))"
  by (auto simp: advances_def)

text \<open>The terms of a contract: everything but its lifecycle and its period of validity.\<close>

definition contract_terms :: "SloContract \<Rightarrow> SloContract" where
  "contract_terms c = c\<lparr> c_lifecycle := CL_Draft, c_effective_from := Duration 0, c_expiration := None \<rparr>"

definition generations_grow :: "Impl \<Rightarrow> Impl \<Rightarrow> bool" where
  "generations_grow s t \<longleftrightarrow>
     im_epoch t = im_epoch s \<and>
     advances p_gen id (map_of (im_policies s)) (map_of (im_policies t)) \<and>
     advances c_gen contract_terms (map_of (im_contracts s)) (map_of (im_contracts t))"

lemma generations_grow_refl: "generations_grow s s"
  by (simp add: generations_grow_def)

lemma generations_grow_trans: "generations_grow s t \<Longrightarrow> generations_grow t u \<Longrightarrow> generations_grow s u"
  unfolding generations_grow_def by (auto intro: advances_trans)

text \<open>Operations that leave the epoch and both dictionaries alone.\<close>

definition same_authority :: "Impl \<Rightarrow> Impl \<Rightarrow> bool" where
  "same_authority s t \<longleftrightarrow> im_epoch t = im_epoch s \<and> im_policies t = im_policies s \<and> im_contracts t = im_contracts s"

lemma same_authority_grow: "same_authority s t \<Longrightarrow> generations_grow s t"
  by (simp add: same_authority_def generations_grow_def)

lemma touch_fold_frame:
  "same_authority (snd fs) (snd (fold (\<lambda>(_, c). touch_objective i c) cs fs)) \<and>
   im_enforcement_history (snd (fold (\<lambda>(_, c). touch_objective i c) cs fs)) = im_enforcement_history (snd fs) \<and>
   im_enforcement_counter (snd (fold (\<lambda>(_, c). touch_objective i c) cs fs)) = im_enforcement_counter (snd fs) \<and>
   im_global_evidence_ring (snd (fold (\<lambda>(_, c). touch_objective i c) cs fs)) = im_global_evidence_ring (snd fs)"
proof (induction cs arbitrary: fs)
  case (Cons x cs)
  show ?case
    using Cons [of "touch_objective i (snd x) fs"]
    by (simp add: split_beta same_authority_def) (simp add: touch_objective_def split: option.split)
qed (simp add: same_authority_def)

lemma fold_eval_frame:
  "same_authority (fst x) (fst (fold (eval_step now) obs x)) \<and>
   im_enforcement_history (fst (fold (eval_step now) obs x)) = im_enforcement_history (fst x) \<and>
   im_enforcement_counter (fst (fold (eval_step now) obs x)) = im_enforcement_counter (fst x) \<and>
   im_evaluation_counter (fst (fold (eval_step now) obs x)) = im_evaluation_counter (fst x) \<and>
   im_evaluation_history (fst (fold (eval_step now) obs x)) = im_evaluation_history (fst x) \<and>
   im_evaluation_by_id (fst (fold (eval_step now) obs x)) = im_evaluation_by_id (fst x) \<and>
   im_global_evidence_ring (fst (fold (eval_step now) obs x)) = im_global_evidence_ring (fst x)"
proof (induction obs arbitrary: x)
  case (Cons ob obs)
  show ?case
    using Cons [of "eval_step now ob x"]
    by (simp add: same_authority_def) (simp add: eval_step_def split_beta Let_def)
qed (simp add: same_authority_def)

lemma eval_objectives_frame:
  "same_authority s (fst (eval_objectives now obs d s))"
  "im_enforcement_history (fst (eval_objectives now obs d s)) = im_enforcement_history s"
  "im_enforcement_counter (fst (eval_objectives now obs d s)) = im_enforcement_counter s"
  "im_evaluation_counter (fst (eval_objectives now obs d s)) = im_evaluation_counter s"
  "im_evaluation_history (fst (eval_objectives now obs d s)) = im_evaluation_history s"
  "im_evaluation_by_id (fst (eval_objectives now obs d s)) = im_evaluation_by_id s"
  "im_global_evidence_ring (fst (eval_objectives now obs d s)) = im_global_evidence_ring s"
  using fold_eval_frame [of "(s, [], d)" now obs] by (simp_all add: eval_objectives_def)

lemma record_evaluation_frame [simp]:
  "im_epoch (record_evaluation e s) = im_epoch s" "im_policies (record_evaluation e s) = im_policies s"
  "im_contracts (record_evaluation e s) = im_contracts s" "im_accumulators (record_evaluation e s) = im_accumulators s"
  "im_enforcement_history (record_evaluation e s) = im_enforcement_history s"
  "im_enforcement_counter (record_evaluation e s) = im_enforcement_counter s"
  "im_evaluation_counter (record_evaluation e s) = im_evaluation_counter s"
  "im_global_evidence_ring (record_evaluation e s) = im_global_evidence_ring s"
  by (simp_all add: record_evaluation_def)

lemma evaluate_frame:
  assumes "evaluate sv wl now s = Some (r, s')"
  shows "same_authority s s' \<and> im_enforcement_history s' = im_enforcement_history s \<and>
    im_enforcement_counter s' = im_enforcement_counter s \<and> im_global_evidence_ring s' = im_global_evidence_ring s"
  using assms eval_objectives_frame
  by (auto simp: evaluate_def split_beta Let_def same_authority_def split: option.splits if_splits)

lemma set_cooldown_frame [simp]:
  "im_epoch (set_cooldown i now s) = im_epoch s" "im_policies (set_cooldown i now s) = im_policies s"
  "im_contracts (set_cooldown i now s) = im_contracts s"
  "im_enforcement_history (set_cooldown i now s) = im_enforcement_history s"
  "im_enforcement_counter (set_cooldown i now s) = im_enforcement_counter s"
  "im_global_evidence_ring (set_cooldown i now s) = im_global_evidence_ring s"
  by (simp_all add: set_cooldown_def split: option.split)

lemma authorize_frame:
  "same_authority s (snd (authorize i now s))"
  "im_global_evidence_ring (snd (authorize i now s)) = im_global_evidence_ring s"
  by (simp_all add: authorize_def same_authority_def Let_def split: option.split)

lemma ingest_frame:
  "same_authority s (snd (ingest e now s))"
  "im_enforcement_history (snd (ingest e now s)) = im_enforcement_history s"
  "im_enforcement_counter (snd (ingest e now s)) = im_enforcement_counter s"
  by (simp_all add: ingest_def same_authority_def split_beta Let_def split: option.split)

lemma set_policy_grows:
  assumes "fabric_inv s"
  shows "generations_grow s (snd (set_policy p s))"
  using assms
  by (auto simp: set_policy_def generations_grow_def fabric_inv_def omap.lookup_assign not_le split: option.split
      intro!: advances_update)

lemma replace_contract_grows:
  assumes "fabric_inv s"
  shows "generations_grow s (snd (replace_contract c s))"
  using assms
  by (auto simp: replace_contract_def generations_grow_def fabric_inv_def put_contract_def omap.lookup_assign
      omap.wf_assign not_le split: option.split intro!: advances_update)

lemma modify_contract_grows:
  assumes "fabric_inv s" "\<And>c. c_gen (f c) = c_gen c \<and> contract_terms (f c) = contract_terms c"
  shows "generations_grow s (snd (modify_contract f i s))"
  using assms
  by (auto simp: modify_contract_def generations_grow_def fabric_inv_def omap.lookup_assign split: option.split
      intro!: advances_update)

lemma contract_ops_grow:
  assumes "fabric_inv s"
  shows "generations_grow s (snd (add_contract c s))" "generations_grow s (snd (supersede_contract c now s))"
    "generations_grow s (snd (activate_contract i now s))" "generations_grow s (snd (suspend_contract i now s))"
    "generations_grow s (snd (expire_contract i now s))" "generations_grow s (snd (retire_contract i now s))"
  using assms
  by (simp_all add: add_contract_def supersede_contract_def activate_contract_def suspend_contract_def
      expire_contract_def retire_contract_def replace_contract_grows generations_grow_refl Let_def)
     (rule modify_contract_grows; simp add: contract_terms_def)+

lemma record_recovery_event_frame:
  "same_authority s (snd (record_recovery_event i ph t s))"
  "im_enforcement_history (snd (record_recovery_event i ph t s)) = im_enforcement_history s"
  "im_enforcement_counter (snd (record_recovery_event i ph t s)) = im_enforcement_counter s"
  "im_global_evidence_ring (snd (record_recovery_event i ph t s)) = im_global_evidence_ring s"
  by (simp_all add: record_recovery_event_def same_authority_def split_beta Let_def split: option.split)

lemma ingest_violation_event_frame:
  "same_authority s (snd (ingest_violation_event i now s))"
  "im_enforcement_history (snd (ingest_violation_event i now s)) = im_enforcement_history s"
  "im_enforcement_counter (snd (ingest_violation_event i now s)) = im_enforcement_counter s"
  "im_global_evidence_ring (snd (ingest_violation_event i now s)) = im_global_evidence_ring s"
  using touch_fold_frame [of "(False, s)" i "im_contracts s"]
  by (simp_all add: ingest_violation_event_def same_authority_def split_beta Let_def split: option.split)

lemma set_objective_budget_frame:
  "same_authority s (snd (set_objective_budget i n w s))"
  "im_enforcement_history (snd (set_objective_budget i n w s)) = im_enforcement_history s"
  "im_enforcement_counter (snd (set_objective_budget i n w s)) = im_enforcement_counter s"
  "im_global_evidence_ring (snd (set_objective_budget i n w s)) = im_global_evidence_ring s"
  by (simp_all add: set_objective_budget_def same_authority_def split_beta Let_def split: option.split)

lemma receipt_ops_frame:
  "same_authority s (snd (transition ei l now s))" "same_authority s (snd (complete_enforcement ei now s))"
  "same_authority s (snd (snd (dispatch x sink s)))" "same_authority s (set_clock c s)"
  "im_enforcement_counter (snd (transition ei l now s)) = im_enforcement_counter s"
  "im_enforcement_counter (snd (complete_enforcement ei now s)) = im_enforcement_counter s"
  "im_enforcement_history (snd (snd (dispatch x sink s))) = im_enforcement_history s"
  "im_enforcement_counter (snd (snd (dispatch x sink s))) = im_enforcement_counter s"
  "im_enforcement_history (set_clock c s) = im_enforcement_history s"
  "im_enforcement_counter (set_clock c s) = im_enforcement_counter s"
  by (simp_all add: transition_def complete_enforcement_def dispatch_def set_clock_def same_authority_def split_beta Let_def)

lemma contract_ops_frame:
  "im_enforcement_history (snd (replace_contract c s)) = im_enforcement_history s"
  "im_enforcement_counter (snd (replace_contract c s)) = im_enforcement_counter s"
  "im_enforcement_history (snd (modify_contract f i s)) = im_enforcement_history s"
  "im_enforcement_counter (snd (modify_contract f i s)) = im_enforcement_counter s"
  "im_enforcement_history (snd (set_policy p s)) = im_enforcement_history s"
  "im_enforcement_counter (snd (set_policy p s)) = im_enforcement_counter s"
  "im_enforcement_history (snd (add_contract c s)) = im_enforcement_history s"
  "im_enforcement_counter (snd (add_contract c s)) = im_enforcement_counter s"
  by (simp_all add: replace_contract_def modify_contract_def set_policy_def add_contract_def put_contract_def Let_def
      split: option.split)

lemmas op_frames = record_recovery_event_frame ingest_violation_event_frame set_objective_budget_frame
  receipt_ops_frame authorize_frame ingest_frame

lemma fabric_step_grows:
  "fabric_step s op t \<Longrightarrow> fabric_inv s \<Longrightarrow> keeps_process op \<Longrightarrow> generations_grow s t"
  by (induction rule: fabric_step.induct)
     (auto simp: op_frames set_policy_grows contract_ops_grow same_authority_grow keeps_process_def
       dest: evaluate_frame intro!: same_authority_grow)

lemma fabric_run_grows:
  assumes "fabric_run s ops t" "\<forall>op \<in> set ops. keeps_process op" "fabric_inv s"
  shows "generations_grow s t"
  using fabric_run_preserves [OF assms(1), of "generations_grow s"] assms(2,3) fabric_step_grows
    generations_grow_refl generations_grow_trans by metis

section \<open>Authorisation\<close>

lemma foldl_last_match:
  "foldl (\<lambda>best (_, c). if P c then Some c else best) b xs = Some c \<Longrightarrow> b = Some c \<or> (\<exists>k. (k, c) \<in> set xs \<and> P c)"
proof (induction xs arbitrary: b)
  case (Cons x xs)
  from Cons.prems have "foldl (\<lambda>best (_, c). if P c then Some c else best) (if P (snd x) then Some (snd x) else b) xs = Some c"
    by (cases x) (auto split: if_splits)
  from Cons.IH [OF this] show ?case by (cases x) (auto split: if_splits)
qed simp

lemma foldl_no_match: "\<forall>(k, c) \<in> set xs. \<not> P c \<Longrightarrow> foldl (\<lambda>best (_, c). if P c then Some c else best) b xs = b"
  by (induction xs) auto

lemma target_contract_some:
  assumes "fabric_inv s" "target_contract i s = Some c"
  shows "map_of (im_contracts s) (c_id c) = Some c" "\<exists>ob \<in> set (c_objectives c). o_id ob = i_objective_id i"
    "c_service c = i_service i"
proof -
  obtain k where k: "(k, c) \<in> set (im_contracts s)" "\<exists>ob \<in> set (c_objectives c). o_id ob = i_objective_id i"
    "c_service c = i_service i"
    using assms(2) foldl_last_match [of "\<lambda>c. (\<exists>ob \<in> set (c_objectives c). o_id ob = i_objective_id i) \<and> c_service c = i_service i"
      None "im_contracts s" c] unfolding target_contract_def by auto
  then show "map_of (im_contracts s) (c_id c) = Some c"
    using assms(1) fabric_inv_contract [OF assms(1), of k c] by (simp add: fabric_inv_def omap.in_set_iff)
  show "\<exists>ob \<in> set (c_objectives c). o_id ob = i_objective_id i" "c_service c = i_service i" using k by auto
qed

text \<open>What an authorisation rests on.\<close>

definition authority_in_force :: "EnforcementIntent \<Rightarrow> Duration \<Rightarrow> Impl \<Rightarrow> SloContract \<Rightarrow> SloPolicy \<Rightarrow> bool" where
  "authority_in_force i now s c p \<longleftrightarrow>
     i_epoch i = im_epoch s \<and> i_action i \<noteq> EA_NoAction \<and>
     map_of (im_contracts s) (c_id c) = Some c \<and> c_service c = i_service i \<and>
     (\<exists>ob \<in> set (c_objectives c). o_id ob = i_objective_id i) \<and> c_gen c = i_contract_gen i \<and>
     c_lifecycle c = CL_Active \<and> c_effective_from c \<le> now \<and> (\<forall>e. c_expiration c = Some e \<longrightarrow> now < e) \<and>
     map_of (im_policies s) (c_policy_id c) = Some p \<and> p_gen p = i_policy_gen i"

lemma authorize_value_iff:
  "result_ok (fst (authorize i now s)) \<longleftrightarrow>
     i_epoch i = im_epoch s \<and> i_action i \<noteq> EA_NoAction \<and>
     (\<exists>c p. target_contract i s = Some c \<and> c_gen c = i_contract_gen i \<and> can_authorize c now \<and>
        map_of (im_policies s) (c_policy_id c) = Some p \<and> p_gen p = i_policy_gen i)"
  by (auto simp: authorize_def Let_def split: option.split)

lemma authorize_error: "\<not> result_ok (fst (authorize i now s)) \<Longrightarrow> snd (authorize i now s) = s"
  by (auto simp: authorize_def Let_def split: option.splits if_splits)

lemma authorize_value:
  assumes "result_ok (fst (authorize i now s))"
  shows "fst (authorize i now s) = result_value (receipt_for i (im_enforcement_counter s + 1))"
    "im_enforcement_history (snd (authorize i now s)) =
       bounded_push (receipt_for i (im_enforcement_counter s + 1)) (im_enforcement_history s)"
    "im_enforcement_counter (snd (authorize i now s)) = im_enforcement_counter s + 1"
    "im_accumulators (snd (authorize i now s)) = im_accumulators (set_cooldown i now s)"
  using assms
  by (auto simp: authorize_def Let_def set_cooldown_def put_accumulator_def split: option.splits if_splits)

lemma authorize_in_force:
  assumes "fabric_inv s" "result_ok (fst (authorize i now s))"
  shows "\<exists>c p. authority_in_force i now s c p"
  using assms target_contract_some [OF assms(1), of i]
  by (auto simp: authorize_value_iff authority_in_force_def can_authorize_iff)

section \<open>Receipts\<close>

definition numbered_receipts :: "u64 \<Rightarrow> EnforcementReceipt list \<Rightarrow> bool" where
  "numbered_receipts n h \<longleftrightarrow> map r_id (rev h) = map (\<lambda>k. Id (n - of_nat k)) [0..<length h]"

definition follows_lifecycle :: "EnforcementReceipt \<Rightarrow> bool" where
  "follows_lifecycle rc \<longleftrightarrow> (\<exists>ms. lifecycle_path EL_Authorized ms (r_lifecycle rc))"

definition receipts_inv :: "Impl \<Rightarrow> bool" where
  "receipts_inv s \<longleftrightarrow>
     length (im_enforcement_history s) \<le> 1024 \<and>
     numbered_receipts (im_enforcement_counter s) (im_enforcement_history s) \<and>
     (\<forall>rc \<in> set (im_enforcement_history s). follows_lifecycle rc)"

lemma numbered_receipts_snoc:
  "numbered_receipts n h \<Longrightarrow> r_id rc = Id (n + 1) \<Longrightarrow> numbered_receipts (n + 1) (h @ [rc])"
  by (simp add: numbered_receipts_def upt_conv_Cons map_Suc_upt [symmetric] del: upt_Suc)

lemma numbered_receipts_tl: "numbered_receipts n h \<Longrightarrow> numbered_receipts n (tl h)"
proof (cases h)
  case (Cons x xs)
  assume "numbered_receipts n h"
  then have "butlast (map r_id (rev h)) = butlast (map (\<lambda>k. Id (n - of_nat k)) [0..<length h])"
    by (simp add: numbered_receipts_def)
  then show ?thesis by (simp add: numbered_receipts_def Cons)
qed (simp add: numbered_receipts_def)

lemma numbered_receipts_distinct:
  assumes "numbered_receipts n h" "length h \<le> 1024"
  shows "distinct (map r_id h)"
proof -
  have "inj_on (\<lambda>k. Id (n - of_nat k)) {0..<length h}"
    using assms(2) by (auto simp: inj_on_def word_of_nat_eq_iff take_bit_nat_eq_self)
  then have "distinct (map r_id (rev h))" using assms(1) by (simp add: numbered_receipts_def distinct_map)
  then show ?thesis by (simp add: rev_map [symmetric])
qed

lemma update_receipt_ids:
  assumes "\<And>rc. r_id (snd (f rc)) = r_id rc"
  shows "map r_id (snd (update_receipt i f h)) = map r_id h"
  using assms by (induction h) (simp_all add: split_beta Let_def)

lemma update_receipt_all:
  assumes step: "\<And>rc. P rc \<Longrightarrow> P (snd (f rc))" and "\<forall>rc \<in> set h. P rc"
  shows "\<forall>rc \<in> set (snd (update_receipt i f h)). P rc"
  using assms(2)
proof (induction h)
  case (Cons rc h)
  then show ?case using step [of rc] by (simp add: split_beta Let_def)
qed simp

lemma numbered_receipts_ids: "map r_id h' = map r_id h \<Longrightarrow> numbered_receipts n h \<Longrightarrow> numbered_receipts n h'"
  using map_eq_imp_length_eq [of r_id h' r_id h] by (simp add: numbered_receipts_def rev_map [symmetric])

lemma transition_receipt_keeps:
  "r_id (snd (transition_receipt l rc)) = r_id rc"
  "follows_lifecycle rc \<Longrightarrow> follows_lifecycle (snd (transition_receipt l rc))"
  using path_snoc [of EL_Authorized] by (fastforce simp: transition_receipt_def follows_lifecycle_def)+

lemma complete_receipt_keeps:
  "r_id (snd (complete_receipt rc)) = r_id rc"
  "follows_lifecycle rc \<Longrightarrow> follows_lifecycle (snd (complete_receipt rc))"
  using transition_receipt_keeps(2) [of rc EL_Effective] by (auto simp: complete_receipt_def transition_receipt_def)

lemma bounded_push_keeps: "length h \<le> 1024 \<Longrightarrow> length (bounded_push x h) \<le> 1024"
  "set (bounded_push x h) \<subseteq> insert x (set h)"
  by (auto simp: bounded_push_def dest: list.set_sel(2) [rotated])

lemma receipts_inv_update:
  assumes "receipts_inv s" "\<And>rc. r_id (snd (f rc)) = r_id rc" "\<And>rc. follows_lifecycle rc \<Longrightarrow> follows_lifecycle (snd (f rc))"
  shows "receipts_inv (s\<lparr> im_enforcement_history := snd (update_receipt i f (im_enforcement_history s)) \<rparr>)"
  using assms(1) numbered_receipts_ids [OF update_receipt_ids [of f i "im_enforcement_history s", OF assms(2)]]
    update_receipt_all [of follows_lifecycle f "im_enforcement_history s" i, OF assms(3)]
  by (simp add: receipts_inv_def)

lemma authorize_receipts:
  assumes "receipts_inv s"
  shows "receipts_inv (snd (authorize i now s))"
proof (cases "result_ok (fst (authorize i now s))")
  case True
  let ?rc = "receipt_for i (im_enforcement_counter s + 1)"
  have new: "follows_lifecycle ?rc" "r_id ?rc = Id (im_enforcement_counter s + 1)"
    by (auto simp: follows_lifecycle_def receipt_for_def intro: path_refl)
  have "numbered_receipts (im_enforcement_counter s + 1) (bounded_push ?rc (im_enforcement_history s))"
    using assms new(2) by (auto simp: bounded_push_def receipts_inv_def intro!: numbered_receipts_snoc numbered_receipts_tl)
  moreover have "\<forall>rc \<in> set (bounded_push ?rc (im_enforcement_history s)). follows_lifecycle rc"
    using assms new(1) bounded_push_keeps(2) [of ?rc "im_enforcement_history s"] unfolding receipts_inv_def by blast
  ultimately show ?thesis
    using assms bounded_push_keeps(1) [of "im_enforcement_history s" ?rc]
    by (simp add: receipts_inv_def authorize_value [OF True])
qed (simp add: authorize_error assms)

lemma receipts_inv_frame:
  "im_enforcement_history t = im_enforcement_history s \<Longrightarrow> im_enforcement_counter t = im_enforcement_counter s \<Longrightarrow>
     receipts_inv s \<Longrightarrow> receipts_inv t"
  by (simp add: receipts_inv_def)

lemma fabric_step_receipts:
  "fabric_step s op t \<Longrightarrow> keeps_process op \<Longrightarrow> receipts_inv s \<Longrightarrow> receipts_inv t"
proof (induction rule: fabric_step.induct)
  case (step_transition s ei l now)
  then show ?case
    using receipts_inv_update [of s "transition_receipt l" ei] transition_receipt_keeps
    by (simp add: transition_def split_beta Let_def)
next
  case (step_complete s ei now)
  then show ?case
    using receipts_inv_update [of s complete_receipt ei] complete_receipt_keeps
    by (simp add: complete_enforcement_def split_beta Let_def)
next
  case (step_authorize s x now)
  then show ?case by (simp add: authorize_receipts)
next
  case (step_evaluate sv wl now s r s')
  then show ?case using evaluate_frame receipts_inv_frame by metis
qed (auto simp: keeps_process_def op_frames contract_ops_frame supersede_contract_def activate_contract_def
      suspend_contract_def expire_contract_def retire_contract_def elim!: receipts_inv_frame [rotated 2])

lemma receipts_inv_new: "receipts_inv (new_fabric c)"
  by (simp add: receipts_inv_def new_fabric_def numbered_receipts_def)

lemma fabric_run_receipts:
  assumes "fabric_run (new_fabric c) ops s" "\<forall>op \<in> set ops. keeps_process op"
  shows "receipts_inv s"
  using fabric_run_preserves [OF assms(1), of receipts_inv] assms(2) fabric_step_receipts receipts_inv_new fabric_inv_new
  by blast

section \<open>Contract selection\<close>

lemma foldl_newest:
  fixes gen :: "'c \<Rightarrow> 'g :: linorder" and P :: "'c \<Rightarrow> bool"
  defines "pick \<equiv> \<lambda>best (_ :: 'k, c). if P c then (case best of None \<Rightarrow> Some c | Some b \<Rightarrow> if gen b < gen c then Some c else best) else best"
  shows "foldl pick b xs = Some c \<Longrightarrow>
    (b = Some c \<or> (\<exists>k. (k, c) \<in> set xs \<and> P c)) \<and> (\<forall>d. b = Some d \<longrightarrow> gen d \<le> gen c) \<and>
    (\<forall>(k, d) \<in> set xs. P d \<longrightarrow> gen d \<le> gen c)"
proof (induction xs arbitrary: b)
  case Nil
  then show ?case by simp
next
  case (Cons x xs)
  obtain k d where x: "x = (k, d)" by (cases x)
  from Cons.prems have "foldl pick (pick b x) xs = Some c" by simp
  note ih = Cons.IH [OF this]
  show ?case
  proof (cases "P d")
    case True
    show ?thesis using ih True by (cases b) (auto simp: x pick_def split: if_splits)
  qed (use ih in \<open>auto simp: x pick_def\<close>)
qed

lemma select_contract_some:
  assumes "fabric_inv s" "select_contract sv wl now s = Some c"
  shows "map_of (im_contracts s) (c_id c) = Some c" "c_service c = sv" "c_workload c = wl" "can_authorize c now"
    "map_of (im_contracts s) i = Some d \<Longrightarrow> c_service d = sv \<Longrightarrow> c_workload d = wl \<Longrightarrow> can_authorize d now \<Longrightarrow>
       c_gen d \<le> c_gen c"
proof -
  have sel: "(\<exists>k. (k, c) \<in> set (im_contracts s) \<and> c_service c = sv \<and> c_workload c = wl \<and> can_authorize c now) \<and>
      (\<forall>(k, d) \<in> set (im_contracts s). c_service d = sv \<and> c_workload d = wl \<and> can_authorize d now \<longrightarrow> c_gen d \<le> c_gen c)"
    using foldl_newest [of "\<lambda>c. c_service c = sv \<and> c_workload c = wl \<and> can_authorize c now" c_gen None "im_contracts s" c]
      assms(2) unfolding select_contract_def by auto
  then obtain k where k: "(k, c) \<in> set (im_contracts s)" by blast
  then show "map_of (im_contracts s) (c_id c) = Some c"
    using assms(1) fabric_inv_contract [OF assms(1), of k c] by (simp add: fabric_inv_def omap.in_set_iff)
  show "c_service c = sv" "c_workload c = wl" "can_authorize c now" using sel by auto
  show "c_gen d \<le> c_gen c"
    if "map_of (im_contracts s) i = Some d" "c_service d = sv" "c_workload d = wl" "can_authorize d now"
    using sel map_of_SomeD [OF that(1)] that(2-4) by blast
qed

text \<open>The parts of a successful evaluation.\<close>

lemma evaluate_value:
  assumes "evaluate sv wl now s = Some (result_value r, s')"
  obtains c p s1 evals digest overall binding rec where
    "select_contract sv wl now s = Some c" "map_of (im_policies s) (c_policy_id c) = Some p" "p_gen p = c_policy_gen c"
    "eval_objectives now (c_objectives c) (show_u64 (gen_value (c_gen c)) @ ''|'' @ show_u64 (gen_value (p_gen p)) @ ''|'')
       (s\<lparr> im_evaluation_counter := im_evaluation_counter s + 1 \<rparr>) = (s1, evals, digest)"
    "decide evals = Some (overall, binding)" "er_status r = ok"
    "er_intent r = make_intent sv wl c p now overall binding s1"
    "er_explanation r = make_explanation sv wl c p evals overall binding (er_intent r) s1"
    "s' = record_evaluation rec s1"
    "rec = \<lparr> ev_evaluation_id = ex_evaluation_id (er_explanation r), ev_evaluation_gen = ex_evaluation_gen (er_explanation r),
             ev_contract_gen = c_gen c, ev_policy_gen = p_gen p, ev_evidence_gen = i_evidence_gen (er_intent r),
             ev_epoch = im_epoch s1, ev_time = now, ev_compliance = overall,
             ev_binding_dimension = ex_binding_dimension (er_explanation r),
             ev_binding_objective = ex_binding_objective (er_explanation r),
             ev_selected_action = i_action (er_intent r), ev_digest = stable_hash digest \<rparr>"
  using assms
  by (auto simp: evaluate_def Let_def split: option.splits if_splits prod.splits)

lemma evaluate_error:
  assumes "evaluate sv wl now s = Some (res, s')" "\<not> result_ok res"
  shows "s' = s"
  using assms by (auto simp: evaluate_def Let_def split: option.splits if_splits prod.splits)

lemma evaluate_shape:
  assumes "evaluate sv wl now s = Some (res, s')"
  shows "(\<exists>r. res = result_value r) \<or> (\<exists>e. res = result_error e \<and> \<not> status_ok e)"
  using assms by (auto simp: evaluate_def Let_def split: option.splits if_splits prod.splits)

section \<open>Withdrawn contracts\<close>

definition dormant :: "SloContractId \<Rightarrow> Impl \<Rightarrow> bool" where
  "dormant i s \<longleftrightarrow> (\<forall>c. map_of (im_contracts s) i = Some c \<longrightarrow> c_lifecycle c \<noteq> CL_Active)"

fun revives :: "SloContractId \<Rightarrow> FabricOp \<Rightarrow> bool" where
  "revives i (Op_activate j now) \<longleftrightarrow> j = i"
| "revives i (Op_add_contract c) \<longleftrightarrow> c_id c = i"
| "revives i (Op_supersede c now) \<longleftrightarrow> c_id c = i"
| "revives i (Op_load rd path fs) \<longleftrightarrow> True"
| "revives i op \<longleftrightarrow> False"

lemma dormant_same: "same_authority s t \<Longrightarrow> dormant i s \<Longrightarrow> dormant i t"
  by (simp add: same_authority_def dormant_def)

lemma modify_contract_lookup:
  "fabric_inv s \<Longrightarrow> map_of (im_contracts (snd (modify_contract f j s))) i =
     (if i = j then map_option f (map_of (im_contracts s) i) else map_of (im_contracts s) i)"
  by (auto simp: modify_contract_def fabric_inv_def omap.lookup_assign split: option.split)

lemma replace_contract_lookup:
  "fabric_inv s \<Longrightarrow> c_id c \<noteq> i \<Longrightarrow> map_of (im_contracts (snd (replace_contract c s))) i = map_of (im_contracts s) i"
  by (auto simp: replace_contract_def fabric_inv_def put_contract_def omap.lookup_assign omap.wf_assign split: option.split)

lemma fabric_step_dormant:
  assumes "fabric_step s op t" "fabric_inv s" "\<not> revives i op" "dormant i s"
  shows "dormant i t"
  using assms
proof (induction rule: fabric_step.induct)
  case (step_set_policy s p)
  then show ?case by (simp add: dormant_def set_policy_def split: option.split)
next
  case (step_evaluate sv wl now s r s')
  then show ?case using evaluate_frame dormant_same by blast
qed (auto simp: dormant_def add_contract_def supersede_contract_def activate_contract_def suspend_contract_def
      expire_contract_def retire_contract_def modify_contract_lookup replace_contract_lookup Let_def
      op_frames [unfolded same_authority_def])

lemma fabric_run_dormant:
  assumes "fabric_run s ops t" "\<forall>op \<in> set ops. \<not> revives i op" "fabric_inv s" "dormant i s"
  shows "dormant i t"
  using fabric_run_preserves [OF assms(1), of "dormant i"] assms(2-) fabric_step_dormant by blast

lemma withdraw_dormant:
  assumes "fabric_inv s"
  shows "dormant i (snd (suspend_contract i now s))" "dormant i (snd (expire_contract i now s))"
    "dormant i (snd (retire_contract i now s))"
  using assms
  by (auto simp: dormant_def suspend_contract_def expire_contract_def retire_contract_def modify_contract_lookup)

section \<open>Evidence replay\<close>

definition remembers :: "EvidenceId \<Rightarrow> nat \<Rightarrow> Impl \<Rightarrow> bool" where
  "remembers x n s \<longleftrightarrow> (\<exists>older newer. im_global_evidence_ring s = older @ x # newer \<and> length newer \<le> n)"

lemma remembersI: "im_global_evidence_ring s = older @ x # newer \<Longrightarrow> length newer \<le> n \<Longrightarrow> remembers x n s"
  unfolding remembers_def by blast

lemma remembers_mono: "remembers x n s \<Longrightarrow> n \<le> m \<Longrightarrow> remembers x m s"
  unfolding remembers_def using order_trans by blast

fun is_ingest :: "FabricOp \<Rightarrow> bool" where
  "is_ingest (Op_ingest e now) \<longleftrightarrow> True"
| "is_ingest op \<longleftrightarrow> False"

lemma ingest_ring: "im_global_evidence_ring (snd (ingest e now s)) = im_global_evidence_ring (snd (note_evidence (e_id e) s))"
  by (simp add: ingest_def split_beta Let_def split: option.split)

lemma note_evidence_remembers:
  assumes "fabric_inv s" "remembers x n s" "n < 8191"
  shows "remembers x (Suc n) (snd (note_evidence i s))"
proof -
  obtain older newer where r: "im_global_evidence_ring s = older @ x # newer" "length newer \<le> n"
    using assms(2) by (auto simp: remembers_def)
  have keep: "remembers x (Suc n) s" using assms(2) by (rule remembers_mono) simp
  have room: "older = [] \<Longrightarrow> int (length (im_global_evidence_ring s)) < 8192" using r assms(3) by simp
  have cap: "im_evidence_ring_cap s = 8192" using assms(1) by (simp add: fabric_inv_def)
  show ?thesis
  proof (cases "id_invalid i \<or> i \<in> im_global_evidence s")
    case False
    define full where "full \<longleftrightarrow> 8192 \<le> int (length (im_global_evidence_ring s))"
    have "im_global_evidence_ring (snd (note_evidence i s)) = (if full then tl older else older) @ x # (newer @ [i])"
      using False room r(1) by (cases older) (auto simp: note_evidence_def Let_def cap full_def)
    then show ?thesis by (rule remembersI) (use r(2) in simp)
  qed (use keep in \<open>auto simp: note_evidence_def\<close>)
qed

lemma note_evidence_first: "status_ok (fst (note_evidence i s)) \<Longrightarrow> remembers i 0 (snd (note_evidence i s))"
  by (auto simp: note_evidence_def Let_def split: if_splits intro: remembersI [of _ _ _ "[]"])

lemma remembers_seen: "fabric_inv s \<Longrightarrow> remembers x n s \<Longrightarrow> x \<in> im_global_evidence s"
  by (auto simp: fabric_inv_def ring_inv_def remembers_def)

lemma restore_objective_ring [simp]:
  "im_global_evidence_ring (restore_objective ps ob s) = im_global_evidence_ring s"
  by (simp add: restore_objective_def split_beta Let_def)

lemma fold_restore_ring [simp]:
  "im_global_evidence_ring (fold (restore_objective ps) obs s) = im_global_evidence_ring s"
  by (induction obs arbitrary: s) simp_all

lemma fold_restore_states_ring [simp]:
  "im_global_evidence_ring (fold (\<lambda>ps s. fold (restore_objective ps) (all_objectives s) s) pss s) = im_global_evidence_ring s"
  by (induction pss arbitrary: s) simp_all

lemma load_ring: "im_global_evidence_ring (snd (load rd path fs s)) = im_global_evidence_ring s"
  by (simp add: load_def restore_def Let_def split: option.split)

lemma contract_ops_ring:
  "im_global_evidence_ring (snd (replace_contract c s)) = im_global_evidence_ring s"
  "im_global_evidence_ring (snd (modify_contract f i s)) = im_global_evidence_ring s"
  "im_global_evidence_ring (snd (set_policy p s)) = im_global_evidence_ring s"
  "im_global_evidence_ring (snd (transition ei l now s)) = im_global_evidence_ring s"
  "im_global_evidence_ring (snd (complete_enforcement ei now s)) = im_global_evidence_ring s"
  "im_global_evidence_ring (snd (snd (dispatch x sink s))) = im_global_evidence_ring s"
  "im_global_evidence_ring (set_clock cl s) = im_global_evidence_ring s"
  by (simp_all add: replace_contract_def modify_contract_def set_policy_def put_contract_def transition_def set_clock_def
      complete_enforcement_def dispatch_def split_beta Let_def split: option.split)

lemma other_ops_ring:
  assumes "fabric_step s op t" "\<not> is_ingest op"
  shows "im_global_evidence_ring t = im_global_evidence_ring s"
  using assms
  by (induction rule: fabric_step.induct)
     (auto simp: add_contract_def supersede_contract_def activate_contract_def suspend_contract_def expire_contract_def
       retire_contract_def contract_ops_ring op_frames load_ring Let_def dest: evaluate_frame)

lemma fabric_step_remembers:
  assumes "fabric_step s op t" "fabric_inv s" "remembers x n s" "n < 8191"
  shows "remembers x (if is_ingest op then Suc n else n) t"
proof (cases "is_ingest op")
  case True
  with assms(1) obtain e now where "t = snd (ingest e now s)" by (cases rule: fabric_step.cases) auto
  then show ?thesis
    using note_evidence_remembers [OF assms(2-4), of "e_id e"] True by (simp add: remembers_def ingest_ring)
next
  case False
  then show ?thesis using other_ops_ring [OF assms(1) False] assms(3) by (simp add: remembers_def)
qed

lemma fabric_run_remembers:
  assumes "fabric_run s ops t" "fabric_inv s" "remembers x n s" "n + length (filter is_ingest ops) \<le> 8191"
  shows "remembers x 8191 t"
  using assms
proof (induction arbitrary: n rule: fabric_run.induct)
  case (run_Nil s)
  then show ?case using remembers_mono by simp
next
  case (run_Cons s op t ops u)
  let ?n = "if is_ingest op then Suc n else n"
  show ?case
  proof (cases "n < 8191")
    case True
    then have "remembers x ?n t" using fabric_step_remembers run_Cons.hyps(1) run_Cons.prems(1,2) by blast
    moreover have "?n + length (filter is_ingest ops) \<le> 8191" using run_Cons.prems(3) by auto
    ultimately show ?thesis using run_Cons.IH fabric_step_inv [OF run_Cons.hyps(1) run_Cons.prems(1)] by blast
  next
    case False
    then have "\<not> is_ingest op" "n = 8191" using run_Cons.prems(3) by (auto split: if_splits)
    then have "remembers x n t" using other_ops_ring [OF run_Cons.hyps(1)] run_Cons.prems(2) by (simp add: remembers_def)
    then show ?thesis
      using run_Cons.IH [of n] run_Cons.prems(3) fabric_step_inv [OF run_Cons.hyps(1) run_Cons.prems(1)] \<open>\<not> is_ingest op\<close>
      by simp
  qed
qed

lemma replay_refused:
  "x \<in> im_global_evidence s \<Longrightarrow> e_id e = x \<Longrightarrow> id_valid x \<Longrightarrow>
     ingest e now s = (cancelled ''duplicate evidence id'', s)"
  by (simp add: ingest_def note_evidence_def id_valid_def id_invalid_def)

section \<open>Properties\<close>

text \<open>
  Property C4.  Every state a process reaches from the constructor, by any interleaving of public operations
  (including loads of arbitrary files), satisfies the invariant of the fabric: both ordered maps are sorted and keyed
  by their entries, every accumulator belongs to its objective and satisfies its own invariant (window, budget,
  bounded and duplicate-free evidence ring, only states that evaluation assigns), the global evidence ring is bounded
  and mirrors its set, and the histories stay within the limit that persistence accepts.
\<close>

theorem fabric_invariant_reachable:
  assumes "fabric_run (new_fabric c) ops s"
  shows "fabric_inv s"
  using assms by (rule fabric_run_new)

theorem fabric_invariant_reachable_witness: "fabric_inv sample_fabric"
  using fabric_invariant_reachable [OF sample_fabric_run] .

text \<open>
  Property C1.  An authorisation rests on authority in force: if \<^verbatim>\<open>authorize\<close> succeeds, then the intent carries the
  current epoch and an action, and names an objective of a contract of its service that is active and valid now, at
  the generation in force and under a policy at the generation in force; the receipt is a fresh one for exactly that
  intent, in state \<^verbatim>\<open>Authorized\<close>, and is the newest in the history.  If it fails nothing changes, and an intent of
  another epoch fails as stale authority.
\<close>

theorem authorize_sound:
  assumes "fabric_inv s"
  shows "(if result_ok (fst (authorize i now s))
     then (\<exists>c p. authority_in_force i now s c p) \<and>
       (\<exists>rc. fst (authorize i now s) = result_value rc \<and> rc = receipt_for i (im_enforcement_counter s + 1) \<and>
          r_lifecycle rc = EL_Authorized \<and> last (im_enforcement_history (snd (authorize i now s))) = rc)
     else snd (authorize i now s) = s) \<and>
    (i_epoch i \<noteq> im_epoch s \<longrightarrow> status_code (result_status (fst (authorize i now s))) = SC_StaleAuthority)"
proof (intro conjI)
  show "if result_ok (fst (authorize i now s))
     then (\<exists>c p. authority_in_force i now s c p) \<and>
       (\<exists>rc. fst (authorize i now s) = result_value rc \<and> rc = receipt_for i (im_enforcement_counter s + 1) \<and>
          r_lifecycle rc = EL_Authorized \<and> last (im_enforcement_history (snd (authorize i now s))) = rc)
     else snd (authorize i now s) = s"
  proof (cases "result_ok (fst (authorize i now s))")
    case True
    have "last (im_enforcement_history (snd (authorize i now s))) = receipt_for i (im_enforcement_counter s + 1)"
      by (simp add: authorize_value(2) [OF True] bounded_push_def)
    then show ?thesis
      using True authorize_in_force [OF assms True] authorize_value(1) [OF True] by (simp add: receipt_for_def)
  qed (simp add: authorize_error)
  show "i_epoch i \<noteq> im_epoch s \<longrightarrow> status_code (result_status (fst (authorize i now s))) = SC_StaleAuthority"
    by (simp add: authorize_def stale_authority_def)
qed

theorem authorize_sound_witness:
  "(\<exists>c p. authority_in_force sample_intent (Duration 20) sample_fabric c p) \<and>
   status_code (result_status (fst (authorize (sample_intent\<lparr> i_epoch := Gen 2 \<rparr>) (Duration 20) sample_fabric))) = SC_StaleAuthority"
proof -
  have "result_ok (fst (authorize sample_intent (Duration 20) sample_fabric))" by code_simp
  moreover have "im_epoch sample_fabric = Gen 1" by code_simp
  ultimately show ?thesis
    using authorize_sound [OF sample_fabric_inv, of sample_intent "Duration 20"]
      authorize_sound [OF sample_fabric_inv, of "sample_intent\<lparr> i_epoch := Gen 2 \<rparr>" "Duration 20"] by simp
qed

text \<open>
  Property C7.  Within a process generations only grow: over any sequence of operations other than a load, the epoch
  stays, no policy or contract disappears, and each keeps its generation together with its content (for a contract,
  everything but its lifecycle and its period of validity) or moves to a strictly newer generation.
\<close>

theorem generations_monotone:
  assumes "fabric_run s ops t" "fabric_inv s" "\<forall>op \<in> set ops. keeps_process op"
  shows "im_epoch t = im_epoch s \<and>
    (\<forall>k p. map_of (im_policies s) k = Some p \<longrightarrow>
       (\<exists>p'. map_of (im_policies t) k = Some p' \<and> (p_gen p < p_gen p' \<or> p' = p))) \<and>
    (\<forall>k c. map_of (im_contracts s) k = Some c \<longrightarrow>
       (\<exists>c'. map_of (im_contracts t) k = Some c' \<and>
          (c_gen c < c_gen c' \<or> c_gen c' = c_gen c \<and> contract_terms c' = contract_terms c)))"
proof -
  have g: "generations_grow s t" using assms by (intro fabric_run_grows)
  have "\<exists>p'. map_of (im_policies t) k = Some p' \<and> (p_gen p < p_gen p' \<or> p' = p)" if "map_of (im_policies s) k = Some p" for k p
    using g that unfolding generations_grow_def by (auto elim!: advancesE)
  moreover have "\<exists>c'. map_of (im_contracts t) k = Some c' \<and> (c_gen c < c_gen c' \<or> c_gen c' = c_gen c \<and> contract_terms c' = contract_terms c)"
    if "map_of (im_contracts s) k = Some c" for k c
    using g that unfolding generations_grow_def by (auto elim!: advancesE)
  ultimately show ?thesis using g by (simp add: generations_grow_def)
qed

theorem generations_monotone_witness:
  "\<exists>c'. map_of (im_contracts sample_measured) (Id 1) = Some c' \<and>
     (c_gen sample_contract < c_gen c' \<or> c_gen c' = c_gen sample_contract \<and> contract_terms c' = contract_terms sample_contract)"
proof -
  have "map_of (im_contracts sample_fabric) (Id 1) = Some sample_contract" by code_simp
  then show ?thesis
    using generations_monotone [OF sample_measured_run sample_fabric_inv] by (simp add: keeps_process_def)
qed

text \<open>
  Property C6.  The receipts of a process: after any sequence of operations other than a load, the history holds at
  most 1024 receipts, which are exactly the most recent ones, numbered consecutively up to the counter and so
  distinct even after the counter wraps; every receipt went from \<^verbatim>\<open>Authorized\<close> to its present state by legal
  transitions only, and one that is effective was dispatched and acknowledged first.
\<close>

theorem receipt_history_sound:
  assumes "fabric_run (new_fabric c) ops s" "\<forall>op \<in> set ops. keeps_process op"
  shows "length (im_enforcement_history s) \<le> 1024 \<and>
    map r_id (rev (im_enforcement_history s)) =
      map (\<lambda>k. Id (im_enforcement_counter s - of_nat k)) [0..<length (im_enforcement_history s)] \<and>
    distinct (map r_id (im_enforcement_history s)) \<and>
    (\<forall>rc \<in> set (im_enforcement_history s). \<exists>ms. lifecycle_path EL_Authorized ms (r_lifecycle rc) \<and>
       (r_lifecycle rc = EL_Effective \<longrightarrow> ms = [EL_Dispatched, EL_Acknowledged, EL_Effective]))"
proof -
  have inv: "receipts_inv s" using assms by (rule fabric_run_receipts)
  have line: "ms = [EL_Dispatched, EL_Acknowledged, EL_Effective]" if "lifecycle_path EL_Authorized ms EL_Effective" for ms
    using main_line_unique [OF path_step [of EL_Proposed EL_Authorized, OF _ that]] by simp
  have "\<exists>ms. lifecycle_path EL_Authorized ms (r_lifecycle rc) \<and>
      (r_lifecycle rc = EL_Effective \<longrightarrow> ms = [EL_Dispatched, EL_Acknowledged, EL_Effective])"
    if "rc \<in> set (im_enforcement_history s)" for rc
    using inv that line unfolding receipts_inv_def follows_lifecycle_def by metis
  then show ?thesis using inv numbered_receipts_distinct by (auto simp: receipts_inv_def numbered_receipts_def)
qed

theorem receipt_history_sound_witness:
  "distinct (map r_id (im_enforcement_history (snd (authorize sample_intent (Duration 20) (snd (authorize sample_intent (Duration 20) sample_fabric))))))"
proof -
  let ?a = "Op_authorize sample_intent (Duration 20)"
  have "fabric_run (new_fabric None) (Op_set_policy sample_policy # Op_add_contract sample_contract # [?a, ?a])
      (snd (authorize sample_intent (Duration 20) (snd (authorize sample_intent (Duration 20) sample_fabric))))"
    unfolding sample_fabric_def
    by (rule run_Cons, rule step_set_policy, rule run_Cons, rule step_add_contract, rule run_Cons, rule step_authorize,
        rule run_Cons, rule step_authorize, rule run_Nil)
  from receipt_history_sound [OF this] show ?thesis by (simp add: keeps_process_def)
qed

text \<open>
  Property C8.  A withdrawn contract is silent: after \<^verbatim>\<open>suspend\<close>, \<^verbatim>\<open>expire\<close> or \<^verbatim>\<open>retire\<close>, and until it is activated,
  replaced or loaded again, no evaluation is made under that contract and no authorisation rests on it, whatever
  else happens.
\<close>

theorem withdrawn_contract_silent:
  assumes "fabric_inv s0"
    "s \<in> {snd (suspend_contract i now s0), snd (expire_contract i now s0), snd (retire_contract i now s0)}"
    "fabric_run s ops t" "\<forall>op \<in> set ops. \<not> revives i op"
  shows "(\<forall>sv wl now' r t'. evaluate sv wl now' t = Some (result_value r, t') \<longrightarrow> ex_contract_id (er_explanation r) \<noteq> i) \<and>
    (\<forall>x now' c p. authority_in_force x now' t c p \<longrightarrow> c_id c \<noteq> i)"
proof -
  have s: "fabric_inv s" "dormant i s" using assms(1,2) by (auto simp: contract_ops_inv withdraw_dormant)
  then have t: "fabric_inv t" "dormant i t" using fabric_run_inv fabric_run_dormant assms(3,4) by blast+
  have "ex_contract_id (er_explanation r) \<noteq> i" if "evaluate sv wl now' t = Some (result_value r, t')" for sv wl now' r t'
    using that
  proof (rule evaluate_value)
    fix c p s1 evals digest overall binding
    assume "select_contract sv wl now' t = Some c"
      and ex: "er_explanation r = make_explanation sv wl c p evals overall binding (er_intent r) s1"
    then have "map_of (im_contracts t) (c_id c) = Some c" "c_lifecycle c = CL_Active"
      using select_contract_some(1,4) [OF t(1)] can_authorize_iff [of c now'] by blast+
    then show "ex_contract_id (er_explanation r) \<noteq> i"
      using t(2) by (auto simp: dormant_def ex make_explanation_def Let_def)
  qed
  then show ?thesis using t(2) by (auto simp: authority_in_force_def dormant_def)
qed

theorem withdrawn_contract_silent_witness:
  "\<forall>c p. \<not> (authority_in_force sample_intent (Duration 20) (snd (suspend_contract (Id 1) (Duration 15) sample_fabric)) c p \<and>
     c_id c = Id 1)"
  using withdrawn_contract_silent [OF sample_fabric_inv _ run_Nil,
      of "snd (suspend_contract (Id 1) (Duration 15) sample_fabric)" "Id 1" "Duration 15"] by auto

text \<open>
  Property C5.  Evidence cannot be replayed: once an identity was presented for the first time, the next 8191
  presentations of evidence (in any interleaving with other operations, including loads) leave it known, and evidence
  under that identity is then refused as a duplicate without any change of state.
\<close>

theorem evidence_replay_refused:
  assumes "fabric_inv s" "id_valid (e_id e)" "e_id e \<notin> im_global_evidence s" "in_i64 (as_ns (e_time e))"
    "fabric_run (snd (ingest e now s)) ops t" "length (filter is_ingest ops) \<le> 8191" "e_id e' = e_id e"
  shows "ingest e' now' t = (cancelled ''duplicate evidence id'', t)"
proof -
  have "status_ok (fst (note_evidence (e_id e) s))"
    using assms(2,3) by (simp add: note_evidence_def id_valid_def id_invalid_def Let_def)
  then have "remembers (e_id e) 0 (snd (ingest e now s))"
    using note_evidence_first by (simp add: remembers_def ingest_ring)
  moreover have "fabric_inv (snd (ingest e now s))" using assms(1,4) by (rule ingest_inv)
  ultimately have "remembers (e_id e) 8191 t" "fabric_inv t"
    using fabric_run_remembers [OF assms(5), of "e_id e" 0] fabric_run_inv [OF assms(5)] assms(6) by simp_all
  then show ?thesis using remembers_seen replay_refused [OF _ assms(7,2)] by blast
qed

theorem evidence_replay_refused_witness:
  "ingest (sample_evidence\<lparr> e_value := VDuration (Duration 1) \<rparr>) (Duration 30) (snd (suspend_contract (Id 1) (Duration 20) sample_measured)) =
     (cancelled ''duplicate evidence id'', snd (suspend_contract (Id 1) (Duration 20) sample_measured))"
proof -
  have run: "fabric_run (snd (ingest sample_evidence (Duration 10) sample_fabric)) [Op_suspend (Id 1) (Duration 20)]
      (snd (suspend_contract (Id 1) (Duration 20) sample_measured))"
    unfolding sample_measured_def by (rule run_Cons [OF step_suspend run_Nil])
  have "id_valid (e_id sample_evidence)" "e_id sample_evidence \<notin> im_global_evidence sample_fabric" by code_simp+
  then show ?thesis
    using evidence_replay_refused [OF sample_fabric_inv _ _ sample_evidence_time run] by simp
qed

end
