(* ===== verification/Decisions.thy ===== *)
theory Decisions
  imports Authority
begin

text \<open>
  Decisions: what \<^verbatim>\<open>evaluate\<close> concludes from the evidence.  The objectives of the newest valid contract of a scope are
  judged one by one, the overall state is the most severe of them, missing or stale evidence never leads to an
  action, an action respects the cooldown, and the intent that carries it is authorised by the fabric that made it.
\<close>

section \<open>The evaluations of the objectives\<close>

definition judged :: "Duration \<Rightarrow> ObjEval \<Rightarrow> bool" where
  "judged now e \<longleftrightarrow> (\<exists>a. acc_inv a \<and> o_id (a_def a) = o_id (oe_obj e) \<and> o_gen (a_def a) = o_gen (oe_obj e) \<and>
     e = fst (snd (eval_objective (oe_obj e) now a)))"

text \<open>
  The loop over the objectives, for any invariant of the state that every iteration keeps and any property that the
  invariant gives of the accumulator that is judged.
\<close>

lemma fold_eval_evals:
  assumes "keep (fst x)"
    "\<And>ob s. ob \<in> set obs \<Longrightarrow> keep s \<Longrightarrow> good ob (fst (get_accumulator ob s)) \<and>
       keep (put_accumulator (o_id ob) (fst (eval_objective ob now (fst (get_accumulator ob s)))) (snd (get_accumulator ob s)))"
  shows "\<exists>es. fst (snd (fold (eval_step now) obs x)) = fst (snd x) @ es \<and> map oe_obj es = obs \<and>
    (\<forall>e \<in> set es. \<exists>a. good (oe_obj e) a \<and> e = fst (snd (eval_objective (oe_obj e) now a)))"
  using assms
proof (induction obs arbitrary: x)
  case (Cons ob obs)
  let ?a = "fst (get_accumulator ob (fst x))"
  let ?e = "fst (snd (eval_objective ob now ?a))"
  have step: "fst (snd (eval_step now ob x)) = fst (snd x) @ [?e]"
    "fst (eval_step now ob x) = put_accumulator (o_id ob) (fst (eval_objective ob now ?a)) (snd (get_accumulator ob (fst x)))"
    by (simp_all add: eval_step_def split_beta Let_def)
  have here: "good ob ?a" "keep (fst (eval_step now ob x))"
    unfolding step using Cons.prems(2) [of ob "fst x"] Cons.prems(1) by simp_all
  have "\<exists>es. fst (snd (fold (eval_step now) obs (eval_step now ob x))) = fst (snd (eval_step now ob x)) @ es \<and> map oe_obj es = obs \<and>
      (\<forall>e \<in> set es. \<exists>a. good (oe_obj e) a \<and> e = fst (snd (eval_objective (oe_obj e) now a)))"
    using Cons.prems(2) by (intro Cons.IH here(2)) simp
  then obtain es where es: "fst (snd (fold (eval_step now) obs (eval_step now ob x))) = fst (snd (eval_step now ob x)) @ es"
    "map oe_obj es = obs" "\<forall>e \<in> set es. \<exists>a. good (oe_obj e) a \<and> e = fst (snd (eval_objective (oe_obj e) now a))"
    by blast
  have ob: "oe_obj ?e = ob" by (simp add: eval_objective_fields)
  then have "\<exists>a. good (oe_obj ?e) a \<and> ?e = fst (snd (eval_objective (oe_obj ?e) now a))" using here(1) by metis
  then have "\<forall>e \<in> set (?e # es). \<exists>a. good (oe_obj e) a \<and> e = fst (snd (eval_objective (oe_obj e) now a))" using es(3) by simp
  then show ?case using es(1,2) step(1) ob by (intro exI [of _ "?e # es"]) simp
qed simp

lemma eval_objectives_evals:
  assumes "fabric_inv s" "eval_objectives now obs d s = (s1, evals, digest)"
  shows "map oe_obj evals = obs" "\<forall>e \<in> set evals. judged now e"
proof -
  let ?good = "\<lambda>ob a. acc_inv a \<and> o_id (a_def a) = o_id ob \<and> o_gen (a_def a) = o_gen ob"
  have "?good ob (fst (get_accumulator ob s)) \<and>
      fabric_inv (put_accumulator (o_id ob) (fst (eval_objective ob now (fst (get_accumulator ob s)))) (snd (get_accumulator ob s)))"
    if "fabric_inv s" for ob s
    using get_accumulator_inv [OF that, of ob]
    by (auto simp: eval_objective_fields intro!: fabric_inv_put_acc eval_objective_inv)
  then have "map oe_obj evals = obs \<and> (\<forall>e \<in> set evals. \<exists>a. ?good (oe_obj e) a \<and> e = fst (snd (eval_objective (oe_obj e) now a)))"
    using fold_eval_evals [of fabric_inv "(s, [], d)" obs ?good now] assms by (auto simp: eval_objectives_def)
  then show "map oe_obj evals = obs" "\<forall>e \<in> set evals. judged now e" unfolding judged_def by blast+
qed

lemma eval_objectives_same:
  assumes "eval_objectives now obs d s = (s1, evals, digest)"
  shows "im_epoch s1 = im_epoch s" "im_policies s1 = im_policies s" "im_contracts s1 = im_contracts s"
    "im_evaluation_counter s1 = im_evaluation_counter s" "im_evaluation_history s1 = im_evaluation_history s"
    "im_evaluation_by_id s1 = im_evaluation_by_id s"
  using eval_objectives_frame [where s = s and now = now and obs = obs and d = d] by (simp_all add: assms same_authority_def)

text \<open>What one judgement says.\<close>

definition conclusive :: "ComplianceState \<Rightarrow> bool" where
  "conclusive st \<longleftrightarrow> st \<in> {CS_Compliant, CS_NearLimit, CS_Violating}"

lemma judgedE:
  assumes "judged now e"
  obtains ob a where "acc_inv a" "a_last_state a \<in> assigned_states" "e = fst (snd (eval_objective ob now a))"
  using assms unfolding judged_def acc_inv_def by blast

lemma judged_states:
  assumes "judged now e"
  shows "conclusive (oe_state e) \<or> oe_state e = CS_InsufficientEvidence \<or> oe_state e = CS_RevalidationRequired"
  using assms
proof (rule judgedE)
  fix ob a assume a: "a_last_state a \<in> assigned_states" "e = fst (snd (eval_objective ob now a))"
  show ?thesis using verdict_judges [OF a(1), of ob now] by (auto simp: a(2) eval_objective_state conclusive_def)
qed

lemma judged_conclusive:
  assumes "judged now e" "conclusive (oe_state e)"
  shows "oe_severity_rank e = severity_rank_of (oe_state e)" "os_sufficient (oe_st e)"
    "os_freshness (oe_st e) \<notin> {FR_Stale, FR_Expired}"
    "os_current_value (oe_st e) = Some (make_value (expected_unit_for (o_dim (oe_obj e))) (oe_measured e))"
    "os_budget_state (oe_st e) = Some BS_Exhausted \<Longrightarrow> oe_state e \<noteq> CS_Compliant"
proof -
  obtain ob a where a: "e = fst (snd (eval_objective ob now a))" using assms(1) by (rule judgedE)
  have u: "usable a now" using assms(2) by (auto simp: a eval_objective_state conclusive_def split: if_splits)
  then show "oe_severity_rank e = severity_rank_of (oe_state e)"
    by (simp add: a eval_objective_rank eval_objective_state)
  have got: "ms_got (compute_measured a now)" "ms_sufficient (compute_measured a now)"
    "evaluate_freshness a now \<noteq> FR_Stale" "evaluate_freshness a now \<noteq> FR_Expired"
    using u by (simp_all add: usable_def)
  show "os_sufficient (oe_st e)" "os_freshness (oe_st e) \<notin> {FR_Stale, FR_Expired}"
    "os_current_value (oe_st e) = Some (make_value (expected_unit_for (o_dim (oe_obj e))) (oe_measured e))"
    using got by (simp_all add: a eval_objective_def Let_def with_budget_def objective_state_def)
  show "os_budget_state (oe_st e) = Some BS_Exhausted \<Longrightarrow> oe_state e \<noteq> CS_Compliant"
    using got by (auto simp: a eval_objective_def Let_def with_budget_def objective_state_def split: if_splits)
qed

lemma judged_fields:
  assumes "judged now e"
  shows "os_state (oe_st e) = oe_state e" "os_id (oe_st e) = o_id (oe_obj e)" "os_gen (oe_st e) = o_gen (oe_obj e)"
proof -
  obtain ob a where a: "e = fst (snd (eval_objective ob now a))" using assms by (rule judgedE)
  show "os_state (oe_st e) = oe_state e" "os_id (oe_st e) = o_id (oe_obj e)" "os_gen (oe_st e) = o_gen (oe_obj e)"
    by (simp_all add: a eval_objective_def Let_def with_budget_def objective_state_def)
qed

text \<open>The front of the ranking has the least rank, whatever the magnitudes are.\<close>

lemma insert_eval_rank:
  "sorted (map oe_severity_rank xs) \<Longrightarrow> sorted (map oe_severity_rank (insert_eval x xs))"
proof (induction xs)
  case (Cons y ys)
  have "oe_severity_rank y \<le> oe_severity_rank x" if "eval_before y x" using that by (auto simp: eval_before_def split: if_splits)
  moreover have "oe_severity_rank x \<le> oe_severity_rank y" if "\<not> eval_before y x"
    using that by (auto simp: eval_before_def split: if_splits)
  ultimately show ?case using Cons by auto
qed simp

lemma sort_evals_rank: "sorted (map oe_severity_rank (sort_evals xs))"
  by (induction xs) (simp_all add: sort_evals_def insert_eval_rank)

lemma sort_evals_hd_rank:
  assumes "e \<in> set xs"
  shows "oe_severity_rank (hd (sort_evals xs)) \<le> oe_severity_rank e"
proof -
  have "e \<in> set (sort_evals xs)" using assms by simp
  then show ?thesis using sort_evals_rank [of xs] by (cases "sort_evals xs") auto
qed

lemma decide_worst:
  assumes "\<forall>e \<in> set evals. judged now e" "decide evals = Some (overall, Some b)"
  shows "(\<exists>e \<in> set evals. oe_obj e = b \<and> oe_state e = overall) \<and>
    (\<forall>e \<in> set evals. conclusive (oe_state e) \<and> severity_rank_of overall \<le> severity_rank_of (oe_state e))"
proof -
  obtain e where e: "e \<in> set evals" "oe_obj e = b" "oe_state e = overall"
    and usable: "\<forall>e' \<in> set evals. oe_state e' \<noteq> CS_RevalidationRequired \<and> oe_state e' \<noteq> CS_InsufficientEvidence"
    and comp: "overall = CS_Compliant \<longleftrightarrow> (\<forall>e' \<in> set evals. oe_state e' = CS_Compliant)"
    using decide_binding [OF assms(2)] by metis
  let ?hard = "filter (\<lambda>e. oe_state e \<noteq> CS_Compliant) evals"
  have concl: "\<forall>e' \<in> set evals. conclusive (oe_state e')" using usable judged_states assms(1) by blast
  have rank: "oe_severity_rank e' = severity_rank_of (oe_state e')" if "e' \<in> set evals" for e'
    using that concl assms(1) judged_conclusive(1) by blast
  have "severity_rank_of overall \<le> severity_rank_of (oe_state e')" if e': "e' \<in> set evals" for e'
  proof (cases "oe_state e' = CS_Compliant")
    case True
    then show ?thesis using e concl by (auto simp: conclusive_def)
  next
    case False
    then have hard: "e' \<in> set ?hard" using e' by simp
    then have ne: "?hard \<noteq> []" by (metis empty_iff empty_set)
    have front: "hd (sort_evals ?hard) \<in> set ?hard" using sort_evals_hd(1) [OF ne] .
    have "overall = oe_state (hd (sort_evals ?hard))"
      using assms(2) usable ne by (auto simp: decide_def Let_def split: if_splits)
    then show ?thesis using sort_evals_hd_rank [OF hard] rank e' front by auto
  qed
  then show ?thesis using e concl by blast
qed

lemma foldl_none:
  assumes "foldl (\<lambda>best (_, c). if P c then Some c else best) None xs = None"
  shows "\<forall>(k, c) \<in> set xs. \<not> P c"
  using assms
proof (induction xs rule: rev_induct)
  case (snoc x xs)
  then show ?case by (cases x) (auto split: if_splits)
qed simp

section \<open>Evaluation returns\<close>

definition has_objectives :: "Impl \<Rightarrow> bool" where
  "has_objectives s \<longleftrightarrow> (\<forall>k c. map_of (im_contracts s) k = Some c \<longrightarrow> c_objectives c \<noteq> [])"

fun unchecked_contracts :: "FabricOp \<Rightarrow> bool" where
  "unchecked_contracts (Op_supersede c now) \<longleftrightarrow> True"
| "unchecked_contracts (Op_load rd path fs) \<longleftrightarrow> True"
| "unchecked_contracts op \<longleftrightarrow> False"

lemma has_objectives_same: "same_authority s t \<Longrightarrow> has_objectives s \<Longrightarrow> has_objectives t"
  by (simp add: same_authority_def has_objectives_def)

lemma modify_has_objectives:
  "fabric_inv s \<Longrightarrow> has_objectives s \<Longrightarrow> (\<And>c. c_objectives (f c) = c_objectives c) \<Longrightarrow> has_objectives (snd (modify_contract f i s))"
  by (auto simp: has_objectives_def modify_contract_lookup)

lemma add_has_objectives:
  "fabric_inv s \<Longrightarrow> has_objectives s \<Longrightarrow> has_objectives (snd (add_contract c s))"
  by (auto simp: has_objectives_def add_contract_def replace_contract_def put_contract_def fabric_inv_def Let_def
      omap.lookup_assign omap.wf_assign split: option.split)

lemma fabric_step_has_objectives:
  assumes "fabric_step s op t" "fabric_inv s" "\<not> unchecked_contracts op" "has_objectives s"
  shows "has_objectives t"
  using assms
proof (induction rule: fabric_step.induct)
  case (step_set_policy s p)
  then show ?case by (simp add: has_objectives_def set_policy_def split: option.split)
next
  case (step_evaluate sv wl now s r s')
  then show ?case using evaluate_frame has_objectives_same by blast
qed (auto simp: activate_contract_def suspend_contract_def expire_contract_def retire_contract_def Let_def
      op_frames add_has_objectives elim: has_objectives_same [rotated] intro!: modify_has_objectives)

lemma evaluate_defined:
  assumes "fabric_inv s" "has_objectives s"
  shows "\<exists>res s'. evaluate sv wl now s = Some (res, s')"
proof (cases "select_contract sv wl now s")
  case (Some c)
  have ne: "c_objectives c \<noteq> []" using select_contract_some(1) [OF assms(1) Some] assms(2) by (auto simp: has_objectives_def)
  have "\<exists>v. decide (fst (snd (eval_objectives now (c_objectives c) d (s\<lparr> im_evaluation_counter := n \<rparr>)))) = Some v" for d n
  proof -
    obtain s1 evals digest where ev: "eval_objectives now (c_objectives c) d (s\<lparr> im_evaluation_counter := n \<rparr>) = (s1, evals, digest)"
      by (rule prod_cases3)
    then have "map oe_obj evals = c_objectives c" using eval_objectives_evals(1) counter_inv(1) [OF assms(1)] by blast
    then have "evals \<noteq> []" using ne by (metis list.map_disc_iff)
    then show ?thesis using decide_defined ev by auto
  qed
  then show ?thesis
    using Some by (simp add: evaluate_def split_beta Let_def split: option.split) (metis option.distinct(1) surj_pair)
qed (simp add: evaluate_def)

section \<open>Cooldown\<close>

definition cooling :: "ObjectiveId \<Rightarrow> ObjectiveGen \<Rightarrow> Duration \<Rightarrow> Impl \<Rightarrow> bool" where
  "cooling i g t s \<longleftrightarrow>
     (\<exists>a. map_of (im_accumulators s) i = Some a \<and> o_gen (a_def a) = g \<and> a_cooldown_until a = t)"

lemma cooling_put_same:
  "fabric_inv s \<Longrightarrow> o_gen (a_def a) = g \<Longrightarrow> a_cooldown_until a = t \<Longrightarrow> cooling i g t (put_accumulator i a s)"
  by (auto simp: cooling_def put_accumulator_def fabric_inv_def hmap.lookup_assign)

lemma authorize_cooling:
  assumes "fabric_inv s" "result_ok (fst (authorize i now s))" "map_of (im_accumulators s) (i_objective_id i) = Some a"
  shows "cooling (i_objective_id i) (o_gen (a_def a)) (Duration (wrap64 (as_ns now + as_ns (i_cooldown i)))) (snd (authorize i now s))"
  using assms cooling_put_same [OF assms(1), of "a\<lparr> a_cooldown_until := Duration (wrap64 (as_ns now + as_ns (i_cooldown i))) \<rparr>"]
  by (simp add: cooling_def authorize_value(4) [OF assms(2)] set_cooldown_def)

section \<open>Hysteresis\<close>

text \<open>With distinct thresholds, a violation ends only beyond the recovery threshold and starts only beyond the breach threshold.\<close>

definition within_band :: "Objective \<Rightarrow> double \<Rightarrow> bool" where
  "within_band ob m \<longleftrightarrow>
     (if o_comparison ob = AtMost
      then dgt m (dadd (numeric_limit ob False) kEpsilon) \<and> \<not> dgt m (dadd (numeric_limit ob True) kEpsilon)
      else dlt m (dsub (numeric_limit ob False) kEpsilon) \<and> \<not> dlt m (dsub (numeric_limit ob True) kEpsilon))"

lemma band_zone: "hysteresis ob \<Longrightarrow> within_band ob m \<Longrightarrow> classify_zone ob m = Zone_Near"
  by (auto simp: within_band_def hysteresis_def classify_zone_def Let_def split: if_splits)

lemma band_keeps:
  "hysteresis ob \<Longrightarrow> \<forall>m \<in> set ms. within_band ob m \<Longrightarrow>
     fold (step_state ob) ms st = (if st = CS_Violating \<or> st = CS_Recovering \<or> ms = [] then st else CS_NearLimit)"
  by (induction ms arbitrary: st) (auto simp: step_state_def band_zone)

section \<open>Properties\<close>

text \<open>
  Property C3.  What a decision says: a successful evaluation is made under an active, valid contract of the scope of
  the newest generation there is, with its policy at the generation the contract names.  The explanation has one
  entry per objective of the contract, in order.  Stale evidence for any objective makes the result
  \<^verbatim>\<open>RevalidationRequired\<close>, else missing evidence makes it \<^verbatim>\<open>InsufficientEvidence\<close>; otherwise the result is the most
  severe of the states of the objectives, and the binding objective is one in that state.  An objective whose budget
  is exhausted is never reported compliant.
\<close>

theorem evaluate_decision_sound:
  assumes "fabric_inv s" "evaluate sv wl now s = Some (result_value r, s')"
  defines "ex \<equiv> er_explanation r"
  defines "states \<equiv> os_state ` set (ex_objectives ex)"
  shows "(\<exists>c p. map_of (im_contracts s) (c_id c) = Some c \<and> c_service c = sv \<and> c_workload c = wl \<and> can_authorize c now \<and>
       (\<forall>k d. map_of (im_contracts s) k = Some d \<and> c_service d = sv \<and> c_workload d = wl \<and> can_authorize d now \<longrightarrow> c_gen d \<le> c_gen c) \<and>
       map_of (im_policies s) (c_policy_id c) = Some p \<and> p_gen p = c_policy_gen c \<and>
       ex_contract_id ex = c_id c \<and> ex_contract_gen ex = c_gen c \<and> ex_policy_gen ex = p_gen p \<and>
       map os_id (ex_objectives ex) = map o_id (c_objectives c)) \<and>
    (if CS_RevalidationRequired \<in> states then ex_compliance ex = CS_RevalidationRequired
     else if CS_InsufficientEvidence \<in> states then ex_compliance ex = CS_InsufficientEvidence
     else (\<forall>st \<in> states. severity_rank_of (ex_compliance ex) \<le> severity_rank_of st) \<and>
       (\<exists>st \<in> set (ex_objectives ex). os_id st = ex_binding_objective ex \<and> os_state st = ex_compliance ex)) \<and>
    (\<forall>st \<in> set (ex_objectives ex). os_budget_state st = Some BS_Exhausted \<longrightarrow> os_state st \<noteq> CS_Compliant)"
  using assms(2)
proof (rule evaluate_value)
  fix c p s1 evals digest overall binding
  assume sel: "select_contract sv wl now s = Some c"
    and pol: "map_of (im_policies s) (c_policy_id c) = Some p" "p_gen p = c_policy_gen c"
    and ev: "eval_objectives now (c_objectives c) (show_u64 (gen_value (c_gen c)) @ ''|'' @ show_u64 (gen_value (p_gen p)) @ ''|'')
        (s\<lparr> im_evaluation_counter := im_evaluation_counter s + 1 \<rparr>) = (s1, evals, digest)"
    and dec: "decide evals = Some (overall, binding)"
    and ex0: "er_explanation r = make_explanation sv wl c p evals overall binding (er_intent r) s1"
  note objs = eval_objectives_evals [OF counter_inv(1) [OF assms(1)] ev]
  have ex: "ex_objectives ex = map oe_st evals" "ex_compliance ex = overall" "ex_contract_id ex = c_id c" "ex_contract_gen ex = c_gen c"
    "ex_policy_gen ex = p_gen p" "\<And>b. binding = Some b \<Longrightarrow> ex_binding_objective ex = o_id b"
    by (simp_all add: ex_def ex0 make_explanation_def Let_def)
  have st: "os_state (oe_st e) = oe_state e" "os_id (oe_st e) = o_id (oe_obj e)" if "e \<in> set evals" for e
    using that objs(2) judged_fields by blast+
  have states: "states = oe_state ` set evals" unfolding states_def ex(1) using st(1) by (force simp: image_image)
  have "map os_id (ex_objectives ex) = map o_id (map oe_obj evals)" unfolding ex(1) using st(2) by simp
  moreover have "os_state st \<noteq> CS_Compliant" if "st \<in> set (ex_objectives ex)" "os_budget_state st = Some BS_Exhausted" for st
    using that objs(2) judged_conclusive(5) st(1) by (force simp: ex(1) conclusive_def)
  moreover have "if CS_RevalidationRequired \<in> states then overall = CS_RevalidationRequired
     else if CS_InsufficientEvidence \<in> states then overall = CS_InsufficientEvidence
     else (\<forall>st \<in> states. severity_rank_of overall \<le> severity_rank_of st) \<and>
       (\<exists>st \<in> set (ex_objectives ex). os_id st = ex_binding_objective ex \<and> os_state st = overall)"
  proof (cases binding)
    case None
    then show ?thesis using decide_unusable [of evals overall] dec by (auto simp: states image_iff)
  next
    case (Some b)
    have worst: "\<exists>e \<in> set evals. oe_obj e = b \<and> oe_state e = overall"
      "\<forall>e \<in> set evals. conclusive (oe_state e) \<and> severity_rank_of overall \<le> severity_rank_of (oe_state e)"
      using decide_worst [OF objs(2)] dec Some by blast+
    then have "CS_RevalidationRequired \<notin> states" "CS_InsufficientEvidence \<notin> states" by (auto simp: states conclusive_def)
    moreover have "\<exists>st \<in> set (ex_objectives ex). os_id st = ex_binding_objective ex \<and> os_state st = overall"
      using worst(1) st ex(1,6) Some by fastforce
    ultimately show ?thesis using worst(2) by (simp add: states)
  qed
  ultimately show ?thesis
    using select_contract_some [OF assms(1) sel] pol objs(1) ex(2-5) by auto
qed

text \<open>The sample evaluation: one objective, measured at five times its limit.\<close>

lemma sample_evaluation:
  obtains r s' where "evaluate (Id 1) (Id 2) (Duration 20) sample_measured = Some (result_value r, s')"
    "i_action (er_intent r) = EA_IncreaseCapacity" "ex_contract_id (er_explanation r) = Id 1"
    "ex_binding_objective (er_explanation r) = Id 5"
proof -
  have "case evaluate (Id 1) (Id 2) (Duration 20) sample_measured of
      Some (Result (Some r) st, _) \<Rightarrow> st = ok \<and> i_action (er_intent r) = EA_IncreaseCapacity \<and>
        ex_contract_id (er_explanation r) = Id 1 \<and> ex_binding_objective (er_explanation r) = Id 5
    | _ \<Rightarrow> False" by code_simp
  then show thesis using that by (auto simp: result_value_def split: option.splits Result.splits)
qed

lemma sample_report:
  obtains r s' st v where "evaluate (Id 1) (Id 2) (Duration 20) sample_measured = Some (result_value r, s')"
    "st \<in> set (ex_objectives (er_explanation r))" "os_current_value st = Some v"
proof -
  have "case evaluate (Id 1) (Id 2) (Duration 20) sample_measured of
      Some (Result (Some r) st, _) \<Rightarrow> st = ok \<and> list_ex (\<lambda>st. os_current_value st \<noteq> None) (ex_objectives (er_explanation r))
    | _ \<Rightarrow> False" by code_simp
  then show thesis using that by (auto simp: result_value_def list_ex_iff split: option.splits Result.splits)
qed

theorem evaluate_decision_sound_witness:
  "\<exists>r s'. evaluate (Id 1) (Id 2) (Duration 20) sample_measured = Some (result_value r, s') \<and>
     (\<exists>c. map_of (im_contracts sample_measured) (c_id c) = Some c \<and> ex_contract_id (er_explanation r) = c_id c)"
proof -
  obtain r s' where r: "evaluate (Id 1) (Id 2) (Duration 20) sample_measured = Some (result_value r, s')"
    by (rule sample_evaluation)
  show ?thesis using evaluate_decision_sound [OF sample_measured_inv r] r by blast
qed

text \<open>
  Property C2.  Every action is justified: when an evaluation asks for an action, every objective of the contract has
  fresh and sufficient evidence, the action is the one assigned to the binding objective in the overall state, which
  is near its limit or violating, that objective allows enforcement and its cooldown is over.  The intent carries the
  current epoch, the generations of the contract, the policy and the objective, and the identity of this evaluation.
\<close>

theorem action_justified:
  assumes "fabric_inv s" "evaluate sv wl now s = Some (result_value r, s')" "i_action (er_intent r) \<noteq> EA_NoAction"
  defines "ex \<equiv> er_explanation r" and "i \<equiv> er_intent r"
  shows "(\<forall>st \<in> set (ex_objectives ex). os_sufficient st \<and> os_freshness st \<notin> {FR_Stale, FR_Expired}) \<and>
    ex_compliance ex \<in> {CS_NearLimit, CS_Violating} \<and>
    (\<exists>c ob. map_of (im_contracts s) (c_id c) = Some c \<and> ob \<in> set (c_objectives c) \<and> i_action i = action_for ob (ex_compliance ex) \<and>
       o_enforcement ob \<noteq> EC_None \<and> \<not> now < cooldown_of ob s' \<and> i_objective_id i = o_id ob \<and> i_objective_gen i = o_gen ob \<and>
       i_contract_gen i = c_gen c \<and> i_policy_gen i = c_policy_gen c) \<and>
    i_service i = sv \<and> i_workload i = wl \<and> i_epoch i = im_epoch s \<and>
    i_evaluation_id i = Id (im_evaluation_counter s + 1) \<and> i_evaluation_gen i = Gen (im_evaluation_counter s + 1)"
  using assms(2)
proof (rule evaluate_value)
  fix c p s1 evals digest overall binding rec
  assume sel: "select_contract sv wl now s = Some c" and pol: "p_gen p = c_policy_gen c"
    and ev: "eval_objectives now (c_objectives c) (show_u64 (gen_value (c_gen c)) @ ''|'' @ show_u64 (gen_value (p_gen p)) @ ''|'')
        (s\<lparr> im_evaluation_counter := im_evaluation_counter s + 1 \<rparr>) = (s1, evals, digest)"
    and dec: "decide evals = Some (overall, binding)" and s': "s' = record_evaluation rec s1"
    and i0: "er_intent r = make_intent sv wl c p now overall binding s1"
    and ex0: "er_explanation r = make_explanation sv wl c p evals overall binding (er_intent r) s1"
  note objs = eval_objectives_evals [OF counter_inv(1) [OF assms(1)] ev]
  obtain b where b: "binding = Some b" using assms(3) by (cases binding) (auto simp: i0 make_intent_def Let_def)
  have s1: "im_epoch s1 = im_epoch s" "im_evaluation_counter s1 = im_evaluation_counter s + 1"
    using eval_objectives_same(1,4) [OF ev] by simp_all
  have act: "i_action (er_intent r) = select_action b overall (cooldown_of b s1) now"
    by (simp add: i0 make_intent_def b Let_def)
  have worst: "\<exists>e \<in> set evals. oe_obj e = b \<and> oe_state e = overall" "\<forall>e \<in> set evals. conclusive (oe_state e)"
    using decide_worst [OF objs(2)] dec b by blast+
  have "overall \<in> {CS_NearLimit, CS_Violating}"
    using worst act assms(3) by (auto simp: conclusive_def select_action_def action_for_def split: if_splits)
  moreover have "\<forall>st \<in> set (ex_objectives ex). os_sufficient st \<and> os_freshness st \<notin> {FR_Stale, FR_Expired}"
    using worst(2) objs(2) judged_conclusive(2,3) by (auto simp: ex_def ex0 make_explanation_def Let_def)
  moreover have "b \<in> set (c_objectives c)" using worst(1) by (auto simp: objs(1) [symmetric])
  moreover have "cooldown_of b s' = cooldown_of b s1" by (simp add: cooldown_of_def s')
  moreover have "i_action i = action_for b overall" "o_enforcement b \<noteq> EC_None" "\<not> now < cooldown_of b s1"
    using act assms(3) by (simp_all add: i_def select_action_def split: if_splits)
  moreover have "ex_compliance ex = overall" "i_service i = sv" "i_workload i = wl" "i_epoch i = im_epoch s"
    "i_evaluation_id i = Id (im_evaluation_counter s + 1)" "i_evaluation_gen i = Gen (im_evaluation_counter s + 1)"
    "i_objective_id i = o_id b" "i_objective_gen i = o_gen b" "i_contract_gen i = c_gen c" "i_policy_gen i = c_policy_gen c"
    using s1 pol by (simp_all add: ex_def i_def ex0 i0 make_explanation_def make_intent_def b Let_def)
  ultimately show ?thesis using select_contract_some(1) [OF assms(1) sel] by simp metis
qed

theorem action_justified_witness:
  "\<exists>r s'. evaluate (Id 1) (Id 2) (Duration 20) sample_measured = Some (result_value r, s') \<and>
     ex_compliance (er_explanation r) \<in> {CS_NearLimit, CS_Violating} \<and> i_epoch (er_intent r) = Gen 1"
proof -
  obtain r s' where r: "evaluate (Id 1) (Id 2) (Duration 20) sample_measured = Some (result_value r, s')"
    "i_action (er_intent r) = EA_IncreaseCapacity" by (rule sample_evaluation)
  moreover have "im_epoch sample_measured = Gen 1" by code_simp
  ultimately show ?thesis using action_justified [OF sample_measured_inv r(1)] by (auto simp del: insert_iff)
qed

text \<open>
  Property C9.  Fresh intents are honoured: an intent that \<^verbatim>\<open>evaluate\<close> just returned with an action is authorised by
  the same fabric at the same time, provided no other contract of the service lists the binding objective.
\<close>

theorem fresh_intent_authorized:
  assumes "fabric_inv s" "evaluate sv wl now s = Some (result_value r, s')" "i_action (er_intent r) \<noteq> EA_NoAction"
    "\<And>k d ob. map_of (im_contracts s) k = Some d \<Longrightarrow> c_service d = sv \<Longrightarrow> ob \<in> set (c_objectives d) \<Longrightarrow>
       o_id ob = i_objective_id (er_intent r) \<Longrightarrow> k = ex_contract_id (er_explanation r)"
  shows "result_ok (fst (authorize (er_intent r) now s'))"
  using assms(2)
proof (rule evaluate_value)
  fix c p s1 evals digest overall binding rec
  assume sel: "select_contract sv wl now s = Some c"
    and pol: "map_of (im_policies s) (c_policy_id c) = Some p" "p_gen p = c_policy_gen c"
    and ev: "eval_objectives now (c_objectives c) (show_u64 (gen_value (c_gen c)) @ ''|'' @ show_u64 (gen_value (p_gen p)) @ ''|'')
        (s\<lparr> im_evaluation_counter := im_evaluation_counter s + 1 \<rparr>) = (s1, evals, digest)"
    and dec: "decide evals = Some (overall, binding)" and s': "s' = record_evaluation rec s1"
    and i0: "er_intent r = make_intent sv wl c p now overall binding s1"
    and ex0: "er_explanation r = make_explanation sv wl c p evals overall binding (er_intent r) s1"
  note objs = eval_objectives_evals [OF counter_inv(1) [OF assms(1)] ev]
  obtain b where b: "binding = Some b" using assms(3) by (cases binding) (auto simp: i0 make_intent_def Let_def)
  have i: "i_service (er_intent r) = sv" "i_epoch (er_intent r) = im_epoch s1" "i_contract_gen (er_intent r) = c_gen c"
    "i_policy_gen (er_intent r) = p_gen p" "i_objective_id (er_intent r) = o_id b"
    by (simp_all add: i0 make_intent_def b Let_def)
  have same: "im_contracts s' = im_contracts s" "im_policies s' = im_policies s" "im_epoch s' = im_epoch s1"
    using eval_objectives_same(2,3) [OF ev] by (simp_all add: s')
  have cid: "ex_contract_id (er_explanation r) = c_id c" by (simp add: ex0 make_explanation_def Let_def)
  have mem: "b \<in> set (c_objectives c)" using decide_worst [OF objs(2)] dec b by (fastforce simp: objs(1) [symmetric])
  have inv': "fabric_inv s'" using evaluate_inv [OF assms(1,2)] .
  note c = select_contract_some [OF assms(1) sel]
  have "target_contract (er_intent r) s' \<noteq> None"
  proof
    assume "target_contract (er_intent r) s' = None"
    then have "\<forall>(k, d) \<in> set (im_contracts s'). \<not> ((\<exists>ob \<in> set (c_objectives d). o_id ob = i_objective_id (er_intent r)) \<and> c_service d = i_service (er_intent r))"
      unfolding target_contract_def by (rule foldl_none)
    then show False using map_of_SomeD [OF c(1)] mem c(2) i same(1) by fastforce
  qed
  then obtain d where d: "target_contract (er_intent r) s' = Some d" by auto
  have "c_id d = c_id c"
    using target_contract_some [OF inv' d] assms(4) i(1) same(1) cid by metis
  then have "d = c" using target_contract_some(1) [OF inv' d] c(1) same(1) by (metis option.inject)
  with d have "target_contract (er_intent r) s' = Some c" by simp
  then show ?thesis
    unfolding authorize_value_iff same i(2-4) using assms(3) c(4) pol by blast
qed

theorem fresh_intent_authorized_witness:
  "\<exists>r s'. evaluate (Id 1) (Id 2) (Duration 20) sample_measured = Some (result_value r, s') \<and>
     result_ok (fst (authorize (er_intent r) (Duration 20) s'))"
proof -
  obtain r s' where r: "evaluate (Id 1) (Id 2) (Duration 20) sample_measured = Some (result_value r, s')"
    "i_action (er_intent r) = EA_IncreaseCapacity" "ex_contract_id (er_explanation r) = Id 1" by (rule sample_evaluation)
  have "im_contracts sample_measured = [(Id 1, sample_contract)]" by code_simp
  then have "k = Id 1" if "map_of (im_contracts sample_measured) k = Some d" for k d using that by (simp split: if_splits)
  then have "result_ok (fst (authorize (er_intent r) (Duration 20) s'))"
    using fresh_intent_authorized [OF sample_measured_inv r(1)] r(2,3) by simp
  then show ?thesis using r(1) by blast
qed

text \<open>
  The proviso is needed: the contract of an intent is looked up by its service and objective alone and the last
  one found wins, so where a second contract of the service, for another workload, lists the same objective, an intent
  just returned for the first one is refused.
\<close>

definition twin_contract :: SloContract where
  "twin_contract = sample_contract\<lparr> c_id := Id 2, c_gen := Gen 2, c_workload := Id 7 \<rparr>"

theorem shared_objective_confuses_authorize:
  "let s = snd (add_contract twin_contract sample_measured)
   in case evaluate (Id 1) (Id 2) (Duration 20) s of
        Some (Result (Some r) _, s') \<Rightarrow>
          i_action (er_intent r) = EA_IncreaseCapacity \<and> ex_contract_id (er_explanation r) = Id 1 \<and>
          fst (authorize (er_intent r) (Duration 20) s') = result_error (stale_authority ''contract generation does not match intent'')
      | _ \<Rightarrow> False"
  by code_simp

text \<open>
  Property C11.  Evaluation always returns in a process that only adds contracts through the checked
  \<^verbatim>\<open>add_contract\<close>: after any operations other than \<^verbatim>\<open>supersede_contract\<close> and \<^verbatim>\<open>load\<close>, which accept contracts without
  objectives, every \<^verbatim>\<open>evaluate\<close> yields a result, never the read past the end of an empty vector.  (Where several
  objectives that are not compliant are ranked and a magnitude is not a number, \<^verbatim>\<open>std::sort\<close> is undefined in the code.)
\<close>

theorem evaluate_always_returns:
  assumes "fabric_run (new_fabric c) ops s" "\<forall>op \<in> set ops. \<not> unchecked_contracts op"
  shows "\<exists>res s'. evaluate sv wl now s = Some (res, s')"
proof -
  have "has_objectives (new_fabric c)" by (simp add: has_objectives_def new_fabric_def)
  then have "has_objectives s"
    using fabric_run_preserves [OF assms(1), of has_objectives] assms(2) fabric_step_has_objectives fabric_inv_new by blast
  then show ?thesis using evaluate_defined fabric_run_new [OF assms(1)] by blast
qed

theorem evaluate_always_returns_witness:
  "\<exists>res s'. evaluate (Id 1) (Id 2) (Duration 20) sample_fabric = Some (res, s')"
  using evaluate_always_returns [OF sample_fabric_run] by (simp add: sample_setup_def)

text \<open>
  The check that \<^verbatim>\<open>evaluate\<close> relies on is missing where a contract is superseded: replacing the sample
  contract by one without objectives is accepted, and the next evaluation, at any time from its effective date, reads
  the first element of an empty vector.
\<close>

theorem superseded_empty_contract_undefined:
  "status_ok (fst (supersede_contract (sample_contract\<lparr> c_gen := Gen 2, c_objectives := [] \<rparr>) (Duration 30) sample_measured)) \<and>
   evaluate (Id 1) (Id 2) (Duration 40)
     (snd (supersede_contract (sample_contract\<lparr> c_gen := Gen 2, c_objectives := [] \<rparr>) (Duration 30) sample_measured)) = None"
  by code_simp

text \<open>
  Property C13.  No flapping: for an objective whose breach and recovery thresholds differ, measurements that stay
  between the two never change whether it is violating, however many there are; a violation ends only at a
  measurement on the good side of the recovery threshold and begins only at one beyond the breach threshold.
\<close>

theorem hysteresis_no_flapping:
  assumes "hysteresis ob" "\<forall>m \<in> set ms. within_band ob m" "st \<in> assigned_states"
  shows "fold (step_state ob) ms st = CS_Violating \<longleftrightarrow> st = CS_Violating"
  using band_keeps [OF assms(1,2), of st] assms(3) by (auto simp: assigned_states_def)

definition sample_band :: Objective where
  "sample_band = sample_objective\<lparr> o_breach_threshold := Some (VDuration (Duration 200)),
     o_recovery_threshold := Some (VDuration (Duration 100)) \<rparr>"

theorem hysteresis_no_flapping_witness:
  "fold (step_state sample_band) [d_of_int 150, d_of_int 199, d_of_int 101] CS_Violating = CS_Violating"
proof -
  have "hysteresis sample_band" "\<forall>m \<in> set [d_of_int 150, d_of_int 199, d_of_int 101]. within_band sample_band m" by code_simp+
  from hysteresis_no_flapping [OF this, of CS_Violating] show ?thesis by (simp add: assigned_states_def)
qed

text \<open>
  Classification is monotone: for an objective of at most (at least) a limit, a larger (smaller)
  measurement never lands in a better zone, and steps from the same state to a state that is no less severe.
\<close>

theorem classification_monotone:
  assumes "if o_comparison ob = AtMost then dle m m' else dle m' m" "st \<in> assigned_states"
  shows "zone_rank (classify_zone ob m) \<le> zone_rank (classify_zone ob m') \<and>
    severity_rank_of (step_state ob m' st) \<le> severity_rank_of (step_state ob m st)"
proof -
  have z: "zone_rank (classify_zone ob m) \<le> zone_rank (classify_zone ob m')"
    using assms(1) zone_at_most_mono zone_at_least_mono by (cases "o_comparison ob") (simp_all)
  then show ?thesis
    using assms(2) by (cases "classify_zone ob m"; cases "classify_zone ob m'") (auto simp: step_state_def assigned_states_def)
qed

theorem classification_monotone_witness:
  "zone_rank (classify_zone sample_band (d_of_int 150)) \<le> zone_rank (classify_zone sample_band (d_of_int 250))"
proof -
  have "o_comparison sample_band = AtMost" "dle (d_of_int 150) (d_of_int 250)" by code_simp+
  then show ?thesis using classification_monotone [of sample_band "d_of_int 150" "d_of_int 250" CS_Compliant]
    by (simp add: assigned_states_def)
qed

text \<open>
  Property C14.  Reported values are typed: in the explanation of an evaluation every current value has the unit of the
  dimension of its objective, and it has the unit of the target, when the target has the unit the contract checks ask
  for, exactly if the objective is not a throughput in tokens, bytes or operations: those are compared with a rate of
  their own but reported in requests per second.
\<close>

theorem evaluation_units:
  assumes "fabric_inv s" "evaluate sv wl now s = Some (result_value r, s')" "st \<in> set (ex_objectives (er_explanation r))"
    "os_current_value st = Some v"
  shows "unit_kind_of v = expected_unit_for (os_dim st) \<and>
    (\<exists>c ob. select_contract sv wl now s = Some c \<and> ob \<in> set (c_objectives c) \<and> os_id st = o_id ob \<and> os_target st = o_target ob \<and>
       (target_unit_matches_dimension ob \<longrightarrow>
          (unit_kind_of v = unit_kind_of (os_target st) \<longleftrightarrow> o_dim ob \<noteq> Dim_Throughput \<or> o_rate_tag ob = RT_Requests)))"
  using assms(2)
proof (rule evaluate_value)
  fix c p s1 evals digest overall binding
  assume sel: "select_contract sv wl now s = Some c"
    and ev: "eval_objectives now (c_objectives c) (show_u64 (gen_value (c_gen c)) @ ''|'' @ show_u64 (gen_value (p_gen p)) @ ''|'')
        (s\<lparr> im_evaluation_counter := im_evaluation_counter s + 1 \<rparr>) = (s1, evals, digest)"
    and ex0: "er_explanation r = make_explanation sv wl c p evals overall binding (er_intent r) s1"
  note objs = eval_objectives_evals [OF counter_inv(1) [OF assms(1)] ev]
  have "ex_objectives (er_explanation r) = map oe_st evals" by (simp add: ex0 make_explanation_def Let_def)
  then obtain e where e: "e \<in> set evals" "st = oe_st e" using assms(3) by auto
  then obtain ob a where a: "e = fst (snd (eval_objective ob now a))" using objs(2) by (blast elim: judgedE)
  then have ob: "oe_obj e = ob" "os_dim st = o_dim ob" "os_id st = o_id ob" "os_target st = o_target ob"
    "v = make_value (expected_unit_for (o_dim ob)) (oe_measured e)"
    using assms(4) by (auto simp: e(2) eval_objective_def Let_def with_budget_def objective_state_def split: if_splits)
  have "unit_kind_of (make_value (expected_unit_for d) x) = expected_unit_for d" for d x by (cases d) simp_all
  then have u: "unit_kind_of v = expected_unit_for (o_dim ob)" by (simp add: ob(5))
  have "ob \<in> set (c_objectives c)" unfolding objs(1) [symmetric] using e(1) ob(1) by auto
  moreover have "unit_kind_of v = unit_kind_of (o_target ob) \<longleftrightarrow> o_dim ob \<noteq> Dim_Throughput \<or> o_rate_tag ob = RT_Requests"
    if "target_unit_matches_dimension ob"
    using that u by (cases "o_rate_tag ob") (auto simp: target_unit_matches_dimension_def split: if_splits)
  ultimately show ?thesis using sel u ob by auto
qed

theorem evaluation_units_witness:
  "\<exists>r s' st v. evaluate (Id 1) (Id 2) (Duration 20) sample_measured = Some (result_value r, s') \<and>
     st \<in> set (ex_objectives (er_explanation r)) \<and> os_current_value st = Some v \<and> unit_kind_of v = expected_unit_for (os_dim st)"
proof -
  obtain r s' st v where r: "evaluate (Id 1) (Id 2) (Duration 20) sample_measured = Some (result_value r, s')"
    "st \<in> set (ex_objectives (er_explanation r))" "os_current_value st = Some v" by (rule sample_report)
  from evaluation_units [OF sample_measured_inv r] show ?thesis using r by blast
qed

end
