(* ===== verification/Engine_Run.thy ===== *)
theory Engine_Run
  imports Decisions
begin

text \<open>
  The engine as its clients use it: sequences of public operations of one process that add contracts only through the
  checked \<^verbatim>\<open>add_contract\<close>.  Such a sequence keeps the invariant, the epoch and that every contract has objectives, so
  that every evaluation returns.  The coordinator and the inspection tool are shown to be such clients.
\<close>

definition engine_run :: "Impl \<Rightarrow> Impl \<Rightarrow> bool" where
  "engine_run s t \<longleftrightarrow> (\<exists>ops. fabric_run s ops t \<and> (\<forall>op \<in> set ops. keeps_process op \<and> \<not> unchecked_contracts op))"

lemma engine_run_refl [simp, intro]: "engine_run s s"
  using run_Nil by (auto simp: engine_run_def intro!: exI [of _ "[]"])

lemma fabric_run_append: "fabric_run s ops t \<Longrightarrow> fabric_run t ops' u \<Longrightarrow> fabric_run s (ops @ ops') u"
  by (induction rule: fabric_run.induct) (auto intro: run_Cons)

lemma engine_run_trans [trans]: "engine_run s t \<Longrightarrow> engine_run t u \<Longrightarrow> engine_run s u"
  unfolding engine_run_def using fabric_run_append by (metis UnE set_append)

lemma engine_run_step:
  "fabric_step s op t \<Longrightarrow> keeps_process op \<Longrightarrow> \<not> unchecked_contracts op \<Longrightarrow> engine_run s t"
  unfolding engine_run_def by (intro exI [of _ "[op]"]) (auto intro: run_Cons run_Nil)

lemma engine_run_inv: "engine_run s t \<Longrightarrow> fabric_inv s \<Longrightarrow> fabric_inv t"
  using fabric_run_inv by (auto simp: engine_run_def)

lemma engine_run_epoch: "engine_run s t \<Longrightarrow> fabric_inv s \<Longrightarrow> im_epoch t = im_epoch s"
  using fabric_run_grows by (auto simp: engine_run_def generations_grow_def)

lemma engine_run_objectives: "engine_run s t \<Longrightarrow> fabric_inv s \<Longrightarrow> has_objectives s \<Longrightarrow> has_objectives t"
  unfolding engine_run_def using fabric_run_preserves [of s _ t has_objectives] fabric_step_has_objectives by blast

lemma ingest_engine: "in_i64 (as_ns (e_time e)) \<Longrightarrow> engine_run s (snd (ingest e now s))"
  using step_ingest [of e s now] by (rule engine_run_step) (simp_all add: keeps_process_def)

lemma recovery_engine: "engine_run s (snd (record_recovery_event oi ph t s))"
  using step_recovery by (rule engine_run_step) (simp_all add: keeps_process_def)

lemma evaluate_engine: "evaluate sv wl now s = Some (r, t) \<Longrightarrow> engine_run s t"
  using step_evaluate by (rule engine_run_step) (simp_all add: keeps_process_def)

lemma setup_engine:
  "engine_run s (snd (set_policy p s))" "engine_run s (snd (add_contract c s))" "engine_run s (snd (activate_contract i now s))"
  by (rule engine_run_step [OF step_set_policy] engine_run_step [OF step_add_contract] engine_run_step [OF step_activate],
      simp_all add: keeps_process_def)+

lemma budget_engine: "in_i64 (count_value n) \<Longrightarrow> engine_run s (snd (set_objective_budget oi n w s))"
  using step_budget by (rule engine_run_step) (simp_all add: keeps_process_def)

text \<open>A process that only runs such operations from its constructor on evaluates without undefined behaviour.\<close>

lemma engine_run_defined:
  assumes "engine_run (new_fabric c) s"
  shows "fabric_inv s \<and> (\<exists>res s'. evaluate sv wl now s = Some (res, s') \<and> engine_run (new_fabric c) s')"
proof -
  have inv: "fabric_inv s" using assms fabric_inv_new by (rule engine_run_inv)
  have "has_objectives s"
    using engine_run_objectives [OF assms fabric_inv_new] by (simp add: has_objectives_def new_fabric_def)
  from evaluate_defined [OF inv this] obtain res s' where "evaluate sv wl now s = Some (res, s')" by blast
  then show ?thesis using inv evaluate_engine assms engine_run_trans by blast
qed

end
