(* ===== verification/Cli_Parse.thy ===== *)
theory Cli_Parse
  imports Binary64 Identities
begin

text \<open>
  The argument parsers of the inspection tool (\<^verbatim>\<open>slofabric_cli.cpp\<close>) over models of \<^verbatim>\<open>strtoll\<close>, \<^verbatim>\<open>strtoull\<close> and
  \<^verbatim>\<open>strtod\<close> in the C locale, and the stream output of a double, which is \<^verbatim>\<open>printf\<close> with \<^verbatim>\<open>%g\<close>.
\<close>

section \<open>Scanning numbers\<close>

text \<open>\<^verbatim>\<open>c_str\<close> ends at the first null character.\<close>

definition c_str :: "string \<Rightarrow> string" where
  "c_str s = takeWhile (\<lambda>c. c \<noteq> CHR 0x00) s"

definition is_space :: "char \<Rightarrow> bool" where
  "is_space c \<longleftrightarrow> c \<in> {CHR '' '', CHR 0x09, CHR 0x0A, CHR 0x0B, CHR 0x0C, CHR 0x0D}"

definition is_digit :: "char \<Rightarrow> bool" where
  "is_digit c \<longleftrightarrow> 48 \<le> (of_char c :: int) \<and> (of_char c :: int) \<le> 57"

definition scan_sign :: "string \<Rightarrow> bool \<times> string" where
  "scan_sign s = (case s of
     c # cs \<Rightarrow> if c = CHR ''-'' then (True, cs) else if c = CHR ''+'' then (False, cs) else (False, s)
   | [] \<Rightarrow> (False, s))"

definition scan_digits :: "(char \<Rightarrow> bool) \<Rightarrow> string \<Rightarrow> string \<times> string" where
  "scan_digits p s = (takeWhile p s, dropWhile p s)"

definition scan_integer :: "string \<Rightarrow> bool \<times> string \<times> string" where
  "scan_integer s =
     (let (neg, s) = scan_sign (dropWhile is_space s); (ds, rest) = scan_digits is_digit s in (neg, ds, rest))"

text \<open>
  An empty digit string is \<^verbatim>\<open>end == str\<close>, a non-empty rest is \<^verbatim>\<open>*end != 0\<close>, and a value out of range sets \<^verbatim>\<open>errno\<close>.
  \<^verbatim>\<open>strtoull\<close> accepts a minus sign and negates modulo \<open>2 ^ 64\<close>.
\<close>

definition parse_i64 :: "string \<Rightarrow> i64 option" where
  "parse_i64 s =
     (if s = [] then None
      else let (neg, ds, rest) = scan_integer (c_str s);
               v = (if neg then - read_nonneg ds else read_nonneg ds)
           in if \<not> in_i64 v \<or> ds = [] \<or> rest \<noteq> [] then None else Some v)"

definition parse_u64 :: "string \<Rightarrow> u64 option" where
  "parse_u64 s =
     (if s = [] then None
      else let (neg, ds, rest) = scan_integer (c_str s);
               m = read_nonneg ds
           in if 18446744073709551615 < m \<or> ds = [] \<or> rest \<noteq> [] then None
              else Some (word_of_int (if neg then - m else m)))"

section \<open>Floating point\<close>

definition is_xdigit :: "char \<Rightarrow> bool" where
  "is_xdigit c \<longleftrightarrow> is_digit c \<or> (let n = of_char c :: int in (65 \<le> n \<and> n \<le> 70) \<or> (97 \<le> n \<and> n \<le> 102))"

definition xdigit_val :: "char \<Rightarrow> int" where
  "xdigit_val c = (let n = of_char c in if n \<le> 57 then n - 48 else if n \<le> 70 then n - 55 else n - 87)"

text \<open>The digits of a mantissa around an optional point, and what follows.\<close>

definition scan_mantissa :: "(char \<Rightarrow> bool) \<Rightarrow> string \<Rightarrow> string \<times> string \<times> string" where
  "scan_mantissa p s =
     (let (ip, rest) = scan_digits p s
      in case rest of
           c # cs \<Rightarrow> if c = CHR ''.'' \<and> (ip \<noteq> [] \<or> (cs \<noteq> [] \<and> p (hd cs)))
                    then (let (fp, rest) = scan_digits p cs in (ip, fp, rest)) else (ip, [], rest)
         | [] \<Rightarrow> (ip, [], []))"

text \<open>An exponent is read only when digits follow its letter.\<close>

definition scan_exponent :: "char set \<Rightarrow> string \<Rightarrow> int \<times> string" where
  "scan_exponent letters s =
     (case s of
        c # cs \<Rightarrow>
          if c \<in> letters
          then (let (neg, r) = scan_sign cs; (ds, rest) = scan_digits is_digit r
                in if ds = [] then (0, s) else (if neg then - read_nonneg ds else read_nonneg ds, rest))
          else (0, s)
      | [] \<Rightarrow> (0, s))"

definition scan_decimal :: "bool \<Rightarrow> string \<Rightarrow> (double \<times> string) option" where
  "scan_decimal neg s =
     (let (ip, fp, rest) = scan_mantissa is_digit s;
          (e, rest) = scan_exponent {CHR ''e'', CHR ''E''} rest;
          m = read_nonneg (ip @ fp);
          k = e - int (length fp)
      in if ip @ fp = [] then None
         else Some (mk_double neg (if 0 \<le> k then round_mag (m * 10 ^ nat k) 1 0 else round_mag m (10 ^ nat (- k)) 0), rest))"

definition scan_hex :: "bool \<Rightarrow> string \<Rightarrow> (double \<times> string) option" where
  "scan_hex neg s =
     (let (ip, fp, rest) = scan_mantissa is_xdigit s;
          (e, rest) = scan_exponent {CHR ''p'', CHR ''P''} rest;
          m = foldl (\<lambda>a c. 16 * a + xdigit_val c) 0 (ip @ fp)
      in if ip @ fp = [] then None else Some (mk_double neg (round_mag m 1 (e - 4 * int (length fp))), rest))"

text \<open>
  \<^verbatim>\<open>strtod\<close> without the spellings of infinities and not-a-numbers, which the caller rejects like text without a number;
  a hexadecimal prefix without digits leaves the number zero before the letter x.
\<close>

definition strtod :: "string \<Rightarrow> (double \<times> string) option" where
  "strtod s =
     (let (neg, s) = scan_sign (dropWhile is_space s)
      in if take 2 s \<in> {''0x'', ''0X''}
         then (case scan_hex neg (drop 2 s) of None \<Rightarrow> Some (mk_double neg 0, drop 1 s) | Some r \<Rightarrow> Some r)
         else scan_decimal neg s)"

definition parse_double :: "string \<Rightarrow> double option" where
  "parse_double s =
     (if s = [] then None
      else case strtod (c_str s) of
        None \<Rightarrow> None
      | Some (v, rest) \<Rightarrow> if rest \<noteq> [] then None else if is_nan v \<or> is_inf v then None else Some v)"

definition make_id :: "string \<Rightarrow> 'tag Id" where
  "make_id s = Id (case parse_u64 s of Some v \<Rightarrow> v | None \<Rightarrow> 0)"

section \<open>Stream output of a double\<close>

text \<open>
  \<^verbatim>\<open>%g\<close> with precision 6: the decimal exponent \<open>x\<close> of the value rounded to six significant digits \<open>q\<close>, ties to even;
  fixed notation for exponents from -4 to 5; trailing zeros removed.
\<close>

definition decimal_exponent :: "int \<Rightarrow> int \<Rightarrow> int" where
  "decimal_exponent n d =
     (if d \<le> n then int (length (show_nonneg (n div d))) - 1
      else - int (length (show_nonneg ((d + n - 1) div n - 1))))"

definition six_digits :: "int \<Rightarrow> int \<Rightarrow> int \<times> int" where
  "six_digits n d =
     (let x = decimal_exponent n d;
          q = rne (n * 10 ^ nat (5 - x)) (d * 10 ^ nat (x - 5))
      in if q = 1000000 then (100000, x + 1) else (q, x))"

definition strip_zeros :: "string \<Rightarrow> string" where
  "strip_zeros s = rev (dropWhile (\<lambda>c. c = CHR ''0'') (rev s))"

definition with_point :: "string \<Rightarrow> string \<Rightarrow> string" where
  "with_point ip fp = (let fp = strip_zeros fp in if fp = [] then ip else ip @ ''.'' @ fp)"

definition d_to_stream :: "double \<Rightarrow> string" where
  "d_to_stream v =
     (if is_nan v then ''nan''
      else (if dsign v then ''-'' else '''') @
        (if is_inf v then ''inf''
         else if dmant v = 0 then ''0''
         else let (q, x) = six_digits (dmant v * pow2 (dexp v)) (pow2 (- dexp v));
                  ds = show_nonneg q
              in if - 4 \<le> x \<and> x < 6
                 then (if 0 \<le> x then with_point (take (nat x + 1) ds) (drop (nat x + 1) ds)
                       else with_point ''0'' (replicate (nat (- x) - 1) CHR ''0'' @ ds))
                 else with_point (take 1 ds) (drop 1 ds) @ ''e'' @ (if x < 0 then ''-'' else ''+'') @
                        pad_left 2 (show_nonneg \<bar>x\<bar>)))"

section \<open>Printed numbers are scanned back\<close>

lemma show_nonneg_all: "0 \<le> n \<Longrightarrow> show_nonneg n \<noteq> [] \<and> (\<forall>c \<in> set (show_nonneg n). is_digit c)"
proof (induction n rule: show_nonneg.induct)
  case (1 n)
  have d: "is_digit (digit_char k)" if "0 \<le> k" "k < 10" for k
    using that by (simp add: is_digit_def digit_char_def)
  show ?case
  proof (cases "n < 10")
    case True
    then show ?thesis using d [of n] 1(2) by (simp add: show_nonneg.simps [of n])
  next
    case False
    then show ?thesis using 1 d [of "n mod 10"] by (auto simp: show_nonneg.simps [of n])
  qed
qed

lemma scan_shown: "0 \<le> n \<Longrightarrow> scan_integer (show_nonneg n) = (False, show_nonneg n, [])"
  "0 \<le> n \<Longrightarrow> scan_integer (CHR ''-'' # show_nonneg n) = (True, show_nonneg n, [])"
proof -
  have sp: "\<not> is_space c" "c \<noteq> CHR ''-''" "c \<noteq> CHR ''+''" if "is_digit c" for c
    using that by (auto simp: is_digit_def is_space_def)
  assume "0 \<le> n"
  then obtain c cs where c: "show_nonneg n = c # cs" "is_digit c" "\<forall>c \<in> set cs. is_digit c"
    using show_nonneg_all [of n] by (cases "show_nonneg n") auto
  then have ds: "takeWhile is_digit (show_nonneg n) = show_nonneg n" "dropWhile is_digit (show_nonneg n) = []"
    by (simp_all add: takeWhile_eq_all_conv)
  show "scan_integer (show_nonneg n) = (False, show_nonneg n, [])"
    using c sp [OF c(2)] ds by (simp add: scan_integer_def scan_sign_def scan_digits_def)
  show "scan_integer (CHR ''-'' # show_nonneg n) = (True, show_nonneg n, [])"
    using c ds by (simp add: scan_integer_def scan_sign_def scan_digits_def is_space_def)
qed

lemma c_str_shown: "0 \<le> n \<Longrightarrow> c_str (show_nonneg n) = show_nonneg n" "0 \<le> n \<Longrightarrow> c_str (CHR ''-'' # show_nonneg n) = CHR ''-'' # show_nonneg n"
proof -
  assume n: "0 \<le> n"
  have "c \<noteq> CHR 0x00" if "is_digit c" for c using that by (auto simp: is_digit_def)
  then have "takeWhile (\<lambda>c. c \<noteq> CHR 0x00) (show_nonneg n) = show_nonneg n"
    using show_nonneg_all [OF n] by (auto simp: takeWhile_eq_all_conv)
  then show "c_str (show_nonneg n) = show_nonneg n" "c_str (CHR ''-'' # show_nonneg n) = CHR ''-'' # show_nonneg n"
    by (simp_all add: c_str_def)
qed

end
