(* ===== verification/Cli.thy ===== *)
theory Cli
  imports Engine_Run Cli_Parse
begin

text \<open>
  The inspection tool (\<^verbatim>\<open>slofabric_cli.cpp\<close>): the fixed demonstration scenario, one function per subcommand that yields the
  text it prints, and \<^verbatim>\<open>main\<close> as a function of the arguments and the file system to the output and the exit code.
  \<open>None\<close> is undefined behaviour: the evaluation of a contract without objectives, a signed overflow in the tool's own
  arithmetic on times, or its conversion of a double that is no int64.
\<close>

section \<open>Output\<close>

definition line :: "string list \<Rightarrow> string" where
  "line parts = concat parts @ [CHR 0x0A]"

definition show_bool :: "bool \<Rightarrow> string" where
  "show_bool b = (if b then ''true'' else ''false'')"

definition show_ns :: "Duration \<Rightarrow> string" where
  "show_ns d = show_int (as_ns d) @ ''ns''"

definition failure_line :: "string \<Rightarrow> Status \<Rightarrow> string" where
  "failure_line what st = line [what, '' failed: '', status_code_name (status_code st), '': '', status_message st]"

section \<open>Demonstration scenario\<close>

definition kNsPerSecond :: i64 where
  "kNsPerSecond = 1000000000"

definition kPolicyId :: u64 where "kPolicyId = 1"

definition kContractId :: u64 where "kContractId = 1"

definition kServiceId :: u64 where "kServiceId = 100"

definition kWorkloadId :: u64 where "kWorkloadId = 200"

definition kLatencyOid :: u64 where "kLatencyOid = 7"

definition kCostOid :: u64 where "kCostOid = 8"

definition kLatencyGen :: u64 where "kLatencyGen = 1"

definition kCostGen :: u64 where "kCostGen = 1"

definition make_demo_policy :: SloPolicy where
  "make_demo_policy = \<lparr> p_id = Id kPolicyId, p_gen = Gen 1, p_mode = PM_HardThenSoft, p_tie_break = TB_ByName,
     p_name = ''hard-then-soft-policy'', p_description = ''resolve hard objectives first, then soft ranking'' \<rparr>"

definition demo_latency :: Objective where
  "demo_latency = default_objective\<lparr> o_id := Id kLatencyOid, o_gen := Gen kLatencyGen, o_name := ''p99-latency'',
     o_dim := Dim_Latency, o_kind := K_LatencyPercentile, o_percentile_rank := dec 99 100, o_comparison := AtMost, o_hard := Hard,
     o_enforcement := EC_Authorized, o_target := VDuration (milliseconds 100), o_min_evidence := Count 32,
     o_window_type := WT_Sliding, o_window_duration := seconds 60, o_window_count := Count 64, o_priority := Priority 1 \<rparr>"

definition demo_cost :: Objective where
  "demo_cost = default_objective\<lparr> o_id := Id kCostOid, o_gen := Gen kCostGen, o_name := ''cost-budget'', o_dim := Dim_Cost,
     o_kind := K_CostWindowBudget, o_comparison := AtMost, o_hard := Hard, o_enforcement := EC_Authorized,
     o_target := VCostMicros (CostMicros 1000000), o_min_evidence := Count 1, o_window_type := WT_Sliding,
     o_window_duration := seconds 60, o_window_count := Count 64, o_priority := Priority 2 \<rparr>"

definition make_demo_contract :: SloContract where
  "make_demo_contract = \<lparr> c_id = Id kContractId, c_gen = Gen 1, c_service = Id kServiceId, c_workload = Id kWorkloadId,
     c_tenant = Id 1, c_objectives = [demo_latency, demo_cost], c_policy_id = Id kPolicyId, c_policy_gen = Gen 1,
     c_effective_from = Duration 0, c_expiration = None, c_epoch = Gen 1, c_lifecycle = CL_Active, c_name = ''demo-contract'',
     c_provenance = ''cli-demo'' \<rparr>"

text \<open>
  The records of one of the two loops: \<open>n\<close> samples one second apart, the last one second before \<open>t\<close>, numbered from \<open>i0\<close>.
  The subtraction from \<open>t\<close> is a signed one; where it overflows there is no record.
\<close>

definition demo_sample :: "Dimension \<Rightarrow> u64 \<Rightarrow> u64 \<Rightarrow> ObjectiveValue \<Rightarrow> i64 \<Rightarrow> u64 \<Rightarrow> Duration \<Rightarrow> i64 \<Rightarrow> EvidenceRecord option" where
  "demo_sample dim oid gen v n i0 t i =
     (if in_i64 (as_ns t - (n - i) * kNsPerSecond)
      then Some (default_evidence\<lparr> e_id := Id (i0 + word_of_int i), e_gen := Gen 1, e_dimension := dim, e_objective_id := Id oid,
             e_objective_gen := Gen gen, e_source := Id 1, e_source_gen := Gen 1, e_epoch := Gen 1,
             e_time := Duration (as_ns t - (n - i) * kNsPerSecond), e_value := v \<rparr>)
      else None)"

definition demo_evidence :: "Duration \<Rightarrow> EvidenceRecord list option" where
  "demo_evidence t = those
     (map (demo_sample Dim_Latency kLatencyOid kLatencyGen (VDuration (Duration 120000000)) 40 1000 t) [0..39] @
      map (demo_sample Dim_Cost kCostOid kCostGen (VCostMicros (CostMicros 40000)) 10 1040 t) [0..9])"

definition ingest_demo_evidence :: "Duration \<Rightarrow> Impl \<Rightarrow> Impl option" where
  "ingest_demo_evidence t s = map_option (\<lambda>es. fold (\<lambda>e s. snd (ingest e (e_time e) s)) es s) (demo_evidence t)"

definition setup_check :: "Status \<Rightarrow> string \<Rightarrow> string" where
  "setup_check st op = (if status_ok st then [] else failure_line (''[setup] '' @ op) st)"

definition build_demo :: "Duration \<Rightarrow> Impl \<Rightarrow> (string \<times> Impl) option" where
  "build_demo t s =
     (let (st1, s) = set_policy make_demo_policy s;
          (st2, s) = add_contract make_demo_contract s;
          (st3, s) = activate_contract (Id kContractId) t s;
          (st4, s) = set_objective_budget (Id kCostOid) (Count 1000) (seconds 60) s;
          msgs = setup_check st1 ''set_policy'' @ setup_check st2 ''add_contract'' @ setup_check st3 ''activate_contract'' @
                 setup_check st4 ''set_objective_budget''
      in case ingest_demo_evidence t s of
           None \<Rightarrow> None
         | Some s \<Rightarrow>
         case evaluate (Id kServiceId) (Id kWorkloadId) t s of
           None \<Rightarrow> None
         | Some (r, s) \<Rightarrow>
             Some (msgs @ (if result_ok r then [] else failure_line ''[setup] baseline evaluate'' (result_status r)), s))"

section \<open>Subcommands\<close>

definition print_objective :: "nat \<Rightarrow> Objective \<Rightarrow> string" where
  "print_objective i ob =
     line [''    ['', show_int (int i), ''] id='', id_to_string (o_id ob), '' gen='', gen_to_string (o_gen ob), '' name='', o_name ob] @
     line [''        dim='', dimension_name (o_dim ob), '' kind='', objective_kind_name (o_kind ob)] @
     (if o_kind ob = K_LatencyPercentile then line [''        percentile_rank='', d_to_stream (o_percentile_rank ob)] else []) @
     line [''        target='', value_to_string (o_target ob), '' unit='', unit_kind_name (unit_kind_of (o_target ob))] @
     line [''        comparison='', comparison_name (o_comparison ob), '' hard='', hardsoft_name (o_hard ob),
           '' enforcement='', enforcement_class_name (o_enforcement ob)] @
     line [''        min_evidence='', show_int (count_value (o_min_evidence ob)), '' window='', window_type_name (o_window_type ob),
           '' duration='', show_ns (o_window_duration ob), '' priority='', show_int (priority_value (o_priority ob))]"

definition cmd_inspect_contract :: "SloContractId \<Rightarrow> Impl \<Rightarrow> string" where
  "cmd_inspect_contract i s =
     (case find_contract i s of
        None \<Rightarrow> line [''contract not found: '', id_to_string i]
      | Some c \<Rightarrow>
          line [''contract: '', id_to_string (c_id c), '' (gen '', gen_to_string (c_gen c), '')''] @
          line [''  name: '', c_name c] @
          line [''  lifecycle: '', contract_lifecycle_name (c_lifecycle c)] @
          line [''  service: '', id_to_string (c_service c), ''  workload: '', id_to_string (c_workload c),
                ''  tenant: '', id_to_string (c_tenant c)] @
          line [''  policy: '', id_to_string (c_policy_id c), '' (gen '', gen_to_string (c_policy_gen c), '')''] @
          line [''  epoch: '', gen_to_string (c_epoch c)] @
          line [''  effective_from: '', show_ns (c_effective_from c)] @
          (case c_expiration c of
             Some d \<Rightarrow> line [''  expiration: '', show_ns d]
           | None \<Rightarrow> line [''  expiration: none'']) @
          line [''  objectives:''] @
          concat (map (\<lambda>(i, ob). print_objective i ob) (enumerate 0 (c_objectives c))))"

text \<open>The evaluation every evaluating subcommand starts with, and its error branch.\<close>

definition with_evaluation :: "ServiceId \<Rightarrow> WorkloadId \<Rightarrow> Duration \<Rightarrow> (EvaluationResult \<Rightarrow> string) \<Rightarrow> Impl \<Rightarrow> string option" where
  "with_evaluation svc wl t body s =
     (case evaluate svc wl t s of
        None \<Rightarrow> None
      | Some (r, _) \<Rightarrow>
          (case (result_ok r, result_data r) of
             (True, Some er) \<Rightarrow> Some (body er)
           | _ \<Rightarrow> Some (failure_line ''evaluate'' (result_status r))))"

definition print_evaluation :: "EvaluationResult \<Rightarrow> string" where
  "print_evaluation er =
     (let ex = er_explanation er in
      line [''status: '', status_code_name (status_code (er_status er))] @
      line [''evaluation_id: '', id_to_string (ex_evaluation_id ex), '' gen '', gen_to_string (ex_evaluation_gen ex)] @
      line [''compliance: '', compliance_state_name (ex_compliance ex)] @
      line [''binding_dimension: '', dimension_name (ex_binding_dimension ex)] @
      line [''binding_objective: '', id_to_string (ex_binding_objective ex)] @
      line [''selected_action: '', enforcement_action_name (ex_selected_action ex)] @
      line [''policy_rationale: '', ex_policy_rationale ex] @
      line [''objectives:''] @
      concat (map (\<lambda>os.
        line [''  - id='', id_to_string (os_id os), '' name='', os_name os, '' state='', compliance_state_name (os_state os),
          case os_current_value os of Some v \<Rightarrow> '' value='' @ value_to_string v | None \<Rightarrow> [],
          '' target='', value_to_string (os_target os), '' samples='', show_int (count_value (os_sample_count os)),
          '' freshness='', freshness_name (os_freshness os)]) (ex_objectives ex)) @
      line [''ranked_intents:''] @
      concat (map (\<lambda>ri.
        line [''  - action='', enforcement_action_name (ri_action ri), '' selected='', show_bool (ri_selected ri),
          '' rationale='', ri_rationale ri]) (ex_ranked_intents ex)))"

definition cmd_evaluate :: "ServiceId \<Rightarrow> WorkloadId \<Rightarrow> Duration \<Rightarrow> Impl \<Rightarrow> string option" where
  "cmd_evaluate svc wl t s = with_evaluation svc wl t print_evaluation s"

text \<open>The value a sample gets: \<open>v\<close> is the number that was parsed, \<open>iv\<close> the same converted to an int64.\<close>

definition sample_value :: "string \<Rightarrow> double \<Rightarrow> i64 \<Rightarrow> (Dimension \<times> ObjectiveValue) option" where
  "sample_value dim v iv =
     (if dim = ''latency'' then Some (Dim_Latency, VDuration (Duration iv))
      else if dim = ''cost'' then Some (Dim_Cost, VCostMicros (CostMicros iv))
      else if dim = ''availability'' then Some (Dim_Availability, VBasisPoints (BasisPoints iv))
      else if dim = ''throughput'' then Some (Dim_Throughput, VRequestsPerSecond (Rate v))
      else if dim = ''memory_pressure'' then Some (Dim_MemoryPressure, VPressureRatio (PressureRatio v))
      else None)"

definition cmd_ingest_sample :: "ObjectiveId \<Rightarrow> string \<Rightarrow> string \<Rightarrow> Duration \<Rightarrow> Impl \<Rightarrow> string option" where
  "cmd_ingest_sample oid dim value_str t s =
     (case parse_double value_str of
        None \<Rightarrow> Some (line [''invalid value: '', value_str])
      | Some v \<Rightarrow>
      case d_cast_i64 v of
        None \<Rightarrow> None
      | Some iv \<Rightarrow>
          (case sample_value dim v iv of
             None \<Rightarrow> Some (line [''unknown dimension: '', dim])
           | Some (d, ov) \<Rightarrow>
               let e = default_evidence\<lparr> e_id := Id 9000001, e_gen := Gen 1, e_source := Id 1, e_source_gen := Gen 1,
                         e_epoch := im_epoch s, e_time := t, e_dimension := d, e_value := ov, e_objective_id := oid,
                         e_objective_gen := Gen 1 \<rparr>;
                   st = fst (ingest e t s)
               in Some (line [''ingest result: '', status_code_name (status_code st),
                        if status_message st = [] then [] else '': '' @ status_message st])))"

definition print_compliance :: "EvaluationResult \<Rightarrow> string" where
  "print_compliance er =
     (let ex = er_explanation er in
      line [''compliance: '', compliance_state_name (ex_compliance ex)] @
      line [''objectives:''] @
      concat (map (\<lambda>os.
        line [''  - '', os_name os, '' ['', dimension_name (os_dim os), '']''] @
        line [''      state: '', compliance_state_name (os_state os)] @
        (case os_current_value os of Some v \<Rightarrow> line [''      current_value: '', value_to_string v] | None \<Rightarrow> []) @
        line [''      target: '', value_to_string (os_target os)] @
        line [''      samples: '', show_int (count_value (os_sample_count os)), '' sufficient: '', show_bool (os_sufficient os)] @
        line [''      freshness: '', freshness_name (os_freshness os)] @
        line [''      predicted: '', predicted_risk_name (os_predicted os)] @
        (case os_budget_state os of Some b \<Rightarrow> line [''      budget: '', budget_state_name b] | None \<Rightarrow> [])) (ex_objectives ex)))"

definition cmd_show_compliance :: "ServiceId \<Rightarrow> WorkloadId \<Rightarrow> Duration \<Rightarrow> Impl \<Rightarrow> string option" where
  "cmd_show_compliance svc wl t s = with_evaluation svc wl t print_compliance s"

definition cmd_show_budgets :: "SloContractId \<Rightarrow> Impl \<Rightarrow> string" where
  "cmd_show_budgets i s =
     (let os = objective_statuses i s
      in if os = [] then line [''contract not found: '', id_to_string i]
         else concat (map (\<lambda>st. line [''objective '', o_name (ot_objective st), '' ('', id_to_string (o_id (ot_objective st)), ''): '',
                  case ot_budget_state st of Some b \<Rightarrow> ''state='' @ budget_state_name b | None \<Rightarrow> ''none'']) os) @
              (if \<exists>st \<in> set os. ot_budget_state st \<noteq> None then [] else line [''no budgets set'']))"

definition print_binding :: "EvaluationResult \<Rightarrow> string" where
  "print_binding er =
     (let ex = er_explanation er in
      line [''binding_dimension: '', dimension_name (ex_binding_dimension ex)] @
      line [''binding_objective: '', id_to_string (ex_binding_objective ex)] @
      line (''secondary_constraints:'' #
        (if ex_secondary_constraints ex = [] then ['' none'']
         else map (\<lambda>i. '' '' @ id_to_string i) (ex_secondary_constraints ex))))"

definition cmd_show_binding :: "ServiceId \<Rightarrow> WorkloadId \<Rightarrow> Duration \<Rightarrow> Impl \<Rightarrow> string option" where
  "cmd_show_binding svc wl t s = with_evaluation svc wl t print_binding s"

definition print_intent :: "EvaluationResult \<Rightarrow> string" where
  "print_intent er =
     (let it = er_intent er in
      line [''action: '', enforcement_action_name (i_action it)] @
      line [''class: '', enforcement_class_name (i_cls it)] @
      line [''dimension: '', dimension_name (i_dimension it)] @
      line [''objective_id: '', id_to_string (i_objective_id it), '' gen '', gen_to_string (i_objective_gen it)] @
      line [''service: '', id_to_string (i_service it), '' workload: '', id_to_string (i_workload it)] @
      line [''epoch: '', gen_to_string (i_epoch it)] @
      line [''contract_gen: '', gen_to_string (i_contract_gen it), '' policy_gen: '', gen_to_string (i_policy_gen it)] @
      line [''evidence_gen: '', gen_to_string (i_evidence_gen it), '' evaluation_id: '', id_to_string (i_evaluation_id it),
            '' evaluation_gen: '', gen_to_string (i_evaluation_gen it)] @
      line [''workload_gen: '', gen_to_string (i_workload_gen it)] @
      line [''cooldown: '', show_ns (i_cooldown it)] @
      line [''reason: '', i_reason it])"

definition cmd_show_intent :: "ServiceId \<Rightarrow> WorkloadId \<Rightarrow> Duration \<Rightarrow> Impl \<Rightarrow> string option" where
  "cmd_show_intent svc wl t s = with_evaluation svc wl t print_intent s"

definition print_changes :: "EvaluationResult \<Rightarrow> string" where
  "print_changes er =
     (let w = ex_what_would_change (er_explanation er) in
      line [''reasons:''] @
      (if wwc_reasons w = [] then line [''  (none)'']
       else concat (map (\<lambda>rc. line [''  - '', change_reason_name rc]) (wwc_reasons w))) @
      line [''required_changes:''] @
      (if wwc_required_changes w = [] then line [''  (none)'']
       else concat (map (\<lambda>rc. line [''  - reason='', change_reason_name (rc_reason rc), '': '', rc_description rc])
              (wwc_required_changes w))))"

definition cmd_what_would_change :: "ServiceId \<Rightarrow> WorkloadId \<Rightarrow> Duration \<Rightarrow> Impl \<Rightarrow> string option" where
  "cmd_what_would_change svc wl t s = with_evaluation svc wl t print_changes s"

definition print_durable :: "DurableState \<Rightarrow> string" where
  "print_durable st =
     line [''format_version: '', show_nonneg (uint (ds_format_version st))] @
     line [''epoch: '', gen_to_string (ds_epoch st)] @
     line [''policies:''] @
     concat (map (\<lambda>p. line [''  - id='', id_to_string (p_id p), '' gen='', gen_to_string (p_gen p), '' name='', p_name p,
       '' mode='', policy_mode_name (p_mode p)]) (ds_policies st)) @
     line [''contracts:''] @
     concat (map (\<lambda>c. line [''  - id='', id_to_string (c_id c), '' gen='', gen_to_string (c_gen c), '' name='', c_name c,
       '' lifecycle='', contract_lifecycle_name (c_lifecycle c), '' objectives='', show_int (int (length (c_objectives c)))])
       (ds_contracts st)) @
     line [''objective_states:''] @
     concat (map (\<lambda>ob. line [''  - id='', id_to_string (ps_objective_id ob), '' gen='', gen_to_string (ps_objective_gen ob),
       '' last_state='', compliance_state_name (ps_last_state ob), '' budget_total='', show_int (count_value (ps_budget_total ob)),
       '' budget_consumed='', show_int (count_value (ps_budget_consumed ob))]) (ds_objective_states st)) @
     line [''enforcement_history: '', show_int (int (length (ds_enforcement_history st)))] @
     line [''evaluation_history: '', show_int (int (length (ds_evaluation_history st)))]"

definition cmd_inspect_state :: "bool \<Rightarrow> path \<Rightarrow> FileSystem \<Rightarrow> string" where
  "cmd_inspect_state readable path fs =
     (let r = load_state readable path fs
      in case (result_ok r, result_data r) of
           (True, Some st) \<Rightarrow> print_durable st
         | _ \<Rightarrow> failure_line ''load'' (result_status r))"

definition print_evaluation_record :: "EvaluationRecord \<Rightarrow> string" where
  "print_evaluation_record rec =
     line [''evaluation_id: '', id_to_string (ev_evaluation_id rec), '' gen '', gen_to_string (ev_evaluation_gen rec)] @
     line [''contract_gen: '', gen_to_string (ev_contract_gen rec), '' policy_gen: '', gen_to_string (ev_policy_gen rec),
           '' evidence_gen: '', gen_to_string (ev_evidence_gen rec)] @
     line [''epoch: '', gen_to_string (ev_epoch rec)] @
     line [''time: '', show_ns (ev_time rec)] @
     line [''compliance: '', compliance_state_name (ev_compliance rec)] @
     line [''binding_dimension: '', dimension_name (ev_binding_dimension rec)] @
     line [''binding_objective: '', id_to_string (ev_binding_objective rec)] @
     line [''selected_action: '', enforcement_action_name (ev_selected_action rec)] @
     line [''digest: '', show_u64 (ev_digest rec)]"

definition cmd_replay :: "EvaluationId \<Rightarrow> Impl \<Rightarrow> string" where
  "cmd_replay i s =
     (let r = get_evaluation i s
      in case (result_ok r, result_data r) of
           (True, Some rec) \<Rightarrow> print_evaluation_record rec
         | _ \<Rightarrow> line [''evaluation not found: '', id_to_string i])"

section \<open>Entry point\<close>

definition usage :: string where
  "usage =
     line [''usage: slofabric_cli [--at <ns>] <subcommand> [args...]''] @ line [] @ line [''inspect-contract <id>''] @
     line [''evaluate <svc> <wl> <at_ns>''] @ line [''ingest-sample <obj_id> <dim> <value> <at_ns>''] @
     line [''show-compliance <svc> <wl> <at_ns>''] @ line [''show-budgets <contract_id>''] @
     line [''show-binding <svc> <wl> <at_ns>''] @ line [''show-intent <svc> <wl> <at_ns>''] @
     line [''what-would-change <svc> <wl> <at_ns>''] @ line [''inspect-state <path>''] @ line [''replay <evaluation_id>'']"

text \<open>The loop over the arguments: the subcommand, its arguments and the time of \<^verbatim>\<open>--at\<close>, or the error line.\<close>

fun scan_args :: "string list \<Rightarrow> string \<Rightarrow> string list \<Rightarrow> i64 option \<Rightarrow> string + string \<times> string list \<times> i64 option" where
  "scan_args [] subcmd args t = Inr (subcmd, args, t)"
| "scan_args (a # as) subcmd args t =
     (if a = ''--at'' then
        (case as of
           [] \<Rightarrow> Inl (line [''error: --at requires a value''])
         | v # as' \<Rightarrow>
             (case parse_i64 v of
                None \<Rightarrow> Inl (line [''error: invalid --at value: '', v])
              | Some n \<Rightarrow> scan_args as' subcmd args (Some n)))
      else if take 5 a = ''--at='' then
        (case parse_i64 (drop 5 a) of
           None \<Rightarrow> Inl (line [''error: invalid --at value: '', drop 5 a])
         | Some n \<Rightarrow> scan_args as subcmd args (Some n))
      else if subcmd = [] then scan_args as a args t
      else scan_args as subcmd (args @ [a]) t)"

text \<open>The number of arguments of a subcommand and whether the last one is a time.\<close>

definition subcommands :: "(string \<times> nat \<times> bool) list" where
  "subcommands =
     [(''inspect-contract'', 1, False), (''evaluate'', 3, True), (''ingest-sample'', 4, True), (''show-compliance'', 3, True),
      (''show-budgets'', 1, False), (''show-binding'', 3, True), (''show-intent'', 3, True), (''what-would-change'', 3, True),
      (''inspect-state'', 1, False), (''replay'', 1, False)]"

definition run_command :: "string \<Rightarrow> string list \<Rightarrow> Duration \<Rightarrow> Impl \<Rightarrow> (string \<times> int) option" where
  "run_command subcmd args t s =
     (if subcmd = ''inspect-contract'' then Some (cmd_inspect_contract (make_id (args ! 0)) s, 0)
      else if subcmd = ''evaluate'' then map_option (\<lambda>out. (out, 0)) (cmd_evaluate (make_id (args ! 0)) (make_id (args ! 1)) t s)
      else if subcmd = ''ingest-sample'' then map_option (\<lambda>out. (out, 0)) (cmd_ingest_sample (make_id (args ! 0)) (args ! 1) (args ! 2) t s)
      else if subcmd = ''show-compliance'' then map_option (\<lambda>out. (out, 0)) (cmd_show_compliance (make_id (args ! 0)) (make_id (args ! 1)) t s)
      else if subcmd = ''show-budgets'' then Some (cmd_show_budgets (make_id (args ! 0)) s, 0)
      else if subcmd = ''show-binding'' then map_option (\<lambda>out. (out, 0)) (cmd_show_binding (make_id (args ! 0)) (make_id (args ! 1)) t s)
      else if subcmd = ''show-intent'' then map_option (\<lambda>out. (out, 0)) (cmd_show_intent (make_id (args ! 0)) (make_id (args ! 1)) t s)
      else if subcmd = ''what-would-change'' then map_option (\<lambda>out. (out, 0)) (cmd_what_would_change (make_id (args ! 0)) (make_id (args ! 1)) t s)
      else if subcmd = ''replay'' then Some (cmd_replay (make_id (args ! 0)) s, 0)
      else Some (usage, 2))"

definition cli_main :: "bool \<Rightarrow> FileSystem \<Rightarrow> string list \<Rightarrow> (string \<times> int) option" where
  "cli_main readable fs argv =
     (case scan_args argv [] [] None of
        Inl msg \<Rightarrow> Some (msg, 2)
      | Inr (subcmd, args, g_at) \<Rightarrow>
     if subcmd = [] then Some (usage, 2)
     else case map_of subcommands subcmd of
        None \<Rightarrow> Some (line [''unknown subcommand: '', subcmd] @ usage, 2)
      | Some (expected, has_at_pos) \<Rightarrow>
     if length args \<noteq> expected
     then Some (line [''wrong argument count for '', [CHR 0x27], subcmd, [CHR 0x27], '' (expected '', show_int (int expected), '', got '',
                  show_int (int (length args)), '')''], 2)
     else case (if has_at_pos then map_option Duration (parse_i64 (last args))
                else Some (case g_at of Some n \<Rightarrow> Duration n | None \<Rightarrow> seconds 70)) of
        None \<Rightarrow> Some (line [''invalid at_ns: '', last args], 2)
      | Some t \<Rightarrow>
     if subcmd = ''inspect-state'' then Some (cmd_inspect_state readable (args ! 0) fs, 0)
     else case build_demo t (new_fabric (Some (GivenClock 0))) of
        None \<Rightarrow> None
      | Some (out, s) \<Rightarrow> map_option (\<lambda>(out', code). (out @ out', code)) (run_command subcmd args t s))"

section \<open>Facts\<close>

lemma those_none: "those xs = None \<longleftrightarrow> None \<in> set xs"
  by (induction xs) (auto split: option.split)

lemma those_some: "those xs = Some ys \<Longrightarrow> y \<in> set ys \<Longrightarrow> Some y \<in> set xs"
  by (induction xs arbitrary: ys) (auto split: option.splits)

lemma demo_sample_none: "None = demo_sample dim oid gen v n i0 t i \<longleftrightarrow> \<not> in_i64 (as_ns t - (n - i) * kNsPerSecond)"
  by (simp add: demo_sample_def)

text \<open>The earliest sample is forty seconds before the time of the scenario.\<close>

lemma demo_evidence_none:
  assumes "in_i64 (as_ns t)"
  shows "demo_evidence t = None \<longleftrightarrow> as_ns t < i64_min + 40000000000"
proof -
  let ?bad = "\<lambda>n i. \<not> in_i64 (as_ns t - (n - i) * kNsPerSecond)"
  have "demo_evidence t = None \<longleftrightarrow> (\<exists>i \<in> {0..39}. ?bad 40 i) \<or> (\<exists>i \<in> {0..9}. ?bad 10 i)"
    unfolding demo_evidence_def those_none set_append set_map Un_iff image_iff demo_sample_none set_upto by (rule refl)
  also have "\<dots> \<longleftrightarrow> as_ns t < i64_min + 40000000000"
  proof
    assume "as_ns t < i64_min + 40000000000"
    then have "?bad 40 0" by (simp add: in_i64_def kNsPerSecond_def)
    then show "(\<exists>i \<in> {0..39}. ?bad 40 i) \<or> (\<exists>i \<in> {0..9}. ?bad 10 i)" by (intro disjI1 bexI [of _ 0]) simp_all
  qed (use assms in \<open>auto simp: in_i64_def kNsPerSecond_def i64_min_def i64_max_def\<close>)
  finally show ?thesis .
qed

lemma demo_evidence_times: "demo_evidence t = Some es \<Longrightarrow> e \<in> set es \<Longrightarrow> in_i64 (as_ns (e_time e))"
  using those_some [of _ es e] unfolding demo_evidence_def
  by (fastforce simp: demo_sample_def simp del: set_upto split: if_splits)

lemma demo_evidence_engine:
  assumes "ingest_demo_evidence t s = Some s'"
  shows "engine_run s s'"
proof -
  have fold: "\<forall>e \<in> set es. in_i64 (as_ns (e_time e)) \<Longrightarrow> engine_run s (fold (\<lambda>e s. snd (ingest e (e_time e) s)) es s)" for es s
    by (induction es arbitrary: s) (auto intro: engine_run_trans [OF ingest_engine])
  obtain es where "demo_evidence t = Some es" "s' = fold (\<lambda>e s. snd (ingest e (e_time e) s)) es s"
    using assms by (auto simp: ingest_demo_evidence_def)
  then show ?thesis using fold demo_evidence_times by blast
qed

lemma build_demo_engine:
  assumes "in_i64 (as_ns t)"
  shows "if as_ns t < i64_min + 40000000000 then build_demo t (new_fabric c) = None
    else \<exists>out s. build_demo t (new_fabric c) = Some (out, s) \<and> engine_run (new_fabric c) s"
proof -
  define s1 where "s1 = snd (set_policy make_demo_policy (new_fabric c))"
  define s2 where "s2 = snd (add_contract make_demo_contract s1)"
  define s3 where "s3 = snd (activate_contract (Id kContractId) t s2)"
  define s4 where "s4 = snd (set_objective_budget (Id kCostOid) (Count 1000) (seconds 60) s3)"
  have "engine_run (new_fabric c) s1" "engine_run s1 s2" "engine_run s2 s3" unfolding s1_def s2_def s3_def by (rule setup_engine)+
  moreover have "engine_run s3 s4" unfolding s4_def by (rule budget_engine) (simp add: in_i64_def i64_min_def i64_max_def)
  ultimately have run: "engine_run (new_fabric c) s4" by (meson engine_run_trans)
  show ?thesis
  proof (cases "ingest_demo_evidence t s4")
    case None
    then have "as_ns t < i64_min + 40000000000" using demo_evidence_none [OF assms] by (simp add: ingest_demo_evidence_def)
    then show ?thesis using None by (simp add: build_demo_def Let_def split_beta s1_def s2_def s3_def s4_def)
  next
    case (Some s5)
    then have lim: "\<not> as_ns t < i64_min + 40000000000" using demo_evidence_none [OF assms] by (auto simp: ingest_demo_evidence_def)
    have "engine_run (new_fabric c) s5" using run demo_evidence_engine [OF Some] by (rule engine_run_trans)
    from engine_run_defined [OF this] obtain res s' where
      "evaluate (Id kServiceId) (Id kWorkloadId) t s5 = Some (res, s')" "engine_run (new_fabric c) s'" by blast
    then show ?thesis using lim Some by (simp add: build_demo_def Let_def split_beta s1_def s2_def s3_def s4_def)
  qed
qed

text \<open>A value the tool's conversion is not defined for.\<close>

definition bad_value :: "string \<Rightarrow> string list \<Rightarrow> bool" where
  "bad_value subcmd args \<longleftrightarrow>
     subcmd = ''ingest-sample'' \<and> (case parse_double (args ! 2) of None \<Rightarrow> False | Some v \<Rightarrow> d_cast_i64 v = None)"

lemma run_command_defined:
  assumes "engine_run (new_fabric c) s" "map_of subcommands subcmd = Some x" "subcmd \<noteq> ''inspect-state''"
  shows "if bad_value subcmd args then run_command subcmd args t s = None else \<exists>out. run_command subcmd args t s = Some (out, 0)"
proof -
  have "\<exists>out. with_evaluation svc wl t body s = Some out" for svc wl body
    using engine_run_defined [OF assms(1), of svc wl t] by (auto simp: with_evaluation_def split: option.split bool.split)
  then have ev: "\<exists>out. cmd_evaluate svc wl t s = Some out" "\<exists>out. cmd_show_compliance svc wl t s = Some out"
    "\<exists>out. cmd_show_binding svc wl t s = Some out" "\<exists>out. cmd_show_intent svc wl t s = Some out"
    "\<exists>out. cmd_what_would_change svc wl t s = Some out" for svc wl
    by (simp_all add: cmd_evaluate_def cmd_show_compliance_def cmd_show_binding_def cmd_show_intent_def cmd_what_would_change_def)
  show ?thesis
  proof (cases "subcmd = ''ingest-sample''")
    case True
    then show ?thesis
      by (auto simp: bad_value_def run_command_def cmd_ingest_sample_def Let_def split: option.split)
  next
    case False
    have "subcmd \<in> fst ` set subcommands" using map_of_SomeD [OF assms(2)] by force
    then have "\<exists>out. run_command subcmd args t s = Some (out, 0)"
      using assms(3) False ev by (auto simp: subcommands_def run_command_def)
    then show ?thesis using False by (simp add: bad_value_def)
  qed
qed

section \<open>What the usage text promises\<close>

text \<open>The lines of the usage text after the first one, each a subcommand and its parameters.\<close>

fun split_on :: "char \<Rightarrow> string \<Rightarrow> string list" where
  "split_on c [] = [[]]"
| "split_on c (x # xs) =
     (if x = c then [] # split_on c xs else (case split_on c xs of [] \<Rightarrow> [[x]] | w # ws \<Rightarrow> (x # w) # ws))"

definition usage_entries :: "(string \<times> string list) list" where
  "usage_entries = map (\<lambda>l. (hd (split_on CHR 0x20 l), tl (split_on CHR 0x20 l))) (filter (\<lambda>l. l \<noteq> []) (tl (split_on CHR 0x0A usage)))"

text \<open>The arguments without the options, and the values of \<^verbatim>\<open>--at\<close>, of which the last one counts; \<open>None\<close> if one has no value.\<close>

fun cut_options :: "string list \<Rightarrow> (string list \<times> string list) option" where
  "cut_options [] = Some ([], [])"
| "cut_options (a # as) =
     (if a = ''--at'' then (case as of [] \<Rightarrow> None | v # as' \<Rightarrow> map_option (\<lambda>(vs, ws). (v # vs, ws)) (cut_options as'))
      else if take 5 a = ''--at='' then map_option (\<lambda>(vs, ws). (drop 5 a # vs, ws)) (cut_options as)
      else map_option (\<lambda>(vs, ws). (vs, a # ws)) (cut_options as))"

text \<open>
  The request a command line makes according to that text: the subcommand, its arguments and the time, which is the last
  argument where the parameter is called \<^verbatim>\<open><at_ns>\<close>, else the last \<^verbatim>\<open>--at\<close>, else seventy seconds.
\<close>

definition request :: "string list \<Rightarrow> (string \<times> string list \<times> i64) option" where
  "request argv =
     (case cut_options argv of
        None \<Rightarrow> None
      | Some (vs, ws) \<Rightarrow>
          if \<exists>v \<in> set vs. parse_i64 v = None then None
          else case dropWhile (\<lambda>w. w = []) ws of
            [] \<Rightarrow> None
          | subcmd # args \<Rightarrow>
              (case map_of usage_entries subcmd of
                 None \<Rightarrow> None
               | Some ps \<Rightarrow>
                   if length args \<noteq> length ps then None
                   else if last ps = ''<at_ns>'' then map_option (\<lambda>n. (subcmd, args, n)) (parse_i64 (last args))
                   else Some (subcmd, args, if vs = [] then 70000000000 else the (parse_i64 (last vs)))))"

lemma usage_table: "map (\<lambda>(c, ps). (c, length ps, last ps = ''<at_ns>'')) usage_entries = subcommands"
  by code_simp

lemma usage_lookup: "map_of subcommands c = map_option (\<lambda>ps. (length ps, last ps = ''<at_ns>'')) (map_of usage_entries c)"
  unfolding usage_table [symmetric] by (simp add: map_of_map [where f = "\<lambda>ps. (length ps, last ps = ''<at_ns>'')"])

lemma scan_args_refuses:
  "cut_options argv = None \<or> (\<exists>vs ws. cut_options argv = Some (vs, ws) \<and> (\<exists>v \<in> set vs. parse_i64 v = None)) \<Longrightarrow>
     \<exists>msg. scan_args argv subcmd args t = Inl msg"
proof (induction argv subcmd args t rule: scan_args.induct)
  case (2 a as subcmd args t)
  consider (option) "a = ''--at''" | (joined) "a \<noteq> ''--at''" "take 5 a = ''--at=''" | (word) "a \<noteq> ''--at''" "take 5 a \<noteq> ''--at=''" by blast
  then show ?case
  proof cases
    case option
    show ?thesis
    proof (cases as)
      case Nil
      then show ?thesis by (simp add: option)
    next
      case (Cons v as')
      then show ?thesis using "2.IH"(1) [OF option Cons] "2.prems" by (cases "parse_i64 v") (force simp: option)+
    qed
  next
    case joined
    then show ?thesis using "2.IH"(2) [OF joined] "2.prems" by (cases "parse_i64 (drop 5 a)") force+
  next
    case word
    then show ?thesis using "2.IH"(3,4) [OF word] "2.prems" by auto
  qed
qed simp

lemma scan_args_words:
  "cut_options argv = Some (vs, ws) \<Longrightarrow> \<forall>v \<in> set vs. parse_i64 v \<noteq> None \<Longrightarrow>
     scan_args argv subcmd args t =
       (let t' = (if vs = [] then t else parse_i64 (last vs))
        in if subcmd \<noteq> [] then Inr (subcmd, args @ ws, t')
           else case dropWhile (\<lambda>w. w = []) ws of [] \<Rightarrow> Inr ([], args, t') | c # as \<Rightarrow> Inr (c, args @ as, t'))"
proof (induction argv subcmd args t arbitrary: vs ws rule: scan_args.induct)
  case (2 a as subcmd args t)
  consider (option) "a = ''--at''" | (joined) "a \<noteq> ''--at''" "take 5 a = ''--at=''" | (word) "a \<noteq> ''--at''" "take 5 a \<noteq> ''--at=''" by blast
  then show ?case
  proof cases
    case option
    then obtain v as' vs' where as: "as = v # as'" "cut_options as' = Some (vs', ws)" "vs = v # vs'"
      using "2.prems"(1) by (auto split: list.splits)
    then obtain n where n: "parse_i64 v = Some n" using "2.prems"(2) by auto
    show ?thesis using "2.IH"(1) [OF option as(1) n as(2)] "2.prems"(2) 
      by (cases "dropWhile (\<lambda>w. w = []) ws") (simp_all add: option as(1,3) n Let_def del: dropWhile_eq_Nil_conv)
  next
    case joined
    then obtain vs' where as: "cut_options as = Some (vs', ws)" "vs = drop 5 a # vs'" using "2.prems"(1) by auto
    then obtain n where n: "parse_i64 (drop 5 a) = Some n" using "2.prems"(2) by auto
    show ?thesis using "2.IH"(2) [OF joined n as(1)] "2.prems"(2) joined 
      by (cases "dropWhile (\<lambda>w. w = []) ws") (simp_all add: as(2) n Let_def del: dropWhile_eq_Nil_conv)
  next
    case word
    then obtain ws' where as: "cut_options as = Some (vs, ws')" "ws = a # ws'" using "2.prems"(1) by auto
    show ?thesis
    proof (cases "subcmd = []")
      case True
      then show ?thesis using "2.IH"(3) [OF word True as(1) "2.prems"(2)] word by (auto simp: as(2) Let_def)
    next
      case False
      then show ?thesis using "2.IH"(4) [OF word False as(1) "2.prems"(2)] word by (auto simp: as(2) Let_def)
    qed
  qed
qed simp

lemma parse_i64_range: "parse_i64 s = Some n \<Longrightarrow> in_i64 n"
  by (auto simp: parse_i64_def Let_def split: if_splits prod.splits)

lemma in_i64_70: "in_i64 70000000000"
  by (simp add: in_i64_def i64_min_def i64_max_def)

lemma request_refused:
  assumes "request argv = None"
  shows "\<exists>out. cli_main readable fs argv = Some (out, 2)"
proof (cases "\<exists>msg. scan_args argv [] [] None = Inl msg")
  case False
  then obtain vs ws where cut: "cut_options argv = Some (vs, ws)" "\<forall>v \<in> set vs. parse_i64 v \<noteq> None"
    using scan_args_refuses [of argv "[]" "[]" None] by (cases "cut_options argv") fastforce+
  note scan = scan_args_words [OF cut, of "[]" "[]" None]
  show ?thesis
  proof (cases "dropWhile (\<lambda>w. w = []) ws")
    case Nil
    then have "scan_args argv [] [] None = Inr ([], [], if vs = [] then None else parse_i64 (last vs))"
      using scan by (simp add: Let_def del: dropWhile_eq_Nil_conv)
    then show ?thesis by (simp add: cli_main_def)
  next
    case (Cons c as)
    then have ne: "c \<noteq> []" using hd_dropWhile [of "\<lambda>w. w = []" ws] by auto
    let ?t = "if vs = [] then None else parse_i64 (last vs)"
    have inr: "scan_args argv [] [] None = Inr (c, as, ?t)" using scan by (simp add: Cons Let_def)
    have req: "request argv = (case map_of usage_entries c of None \<Rightarrow> None | Some ps \<Rightarrow>
        if length as \<noteq> length ps then None
        else if last ps = ''<at_ns>'' then map_option (\<lambda>n. (c, as, n)) (parse_i64 (last as))
        else Some (c, as, if vs = [] then 70000000000 else the (parse_i64 (last vs))))"
      using cut by (auto simp: request_def Cons)
    show ?thesis
    proof (cases "map_of usage_entries c")
      case None
      then show ?thesis by (simp add: cli_main_def inr ne usage_lookup)
    next
      case (Some ps)
      show ?thesis
      proof (cases "length as = length ps")
        case True
        then have "last ps = ''<at_ns>''" "parse_i64 (last as) = None" using assms req Some by (simp_all split: if_splits)
        then show ?thesis using True by (simp add: cli_main_def inr ne usage_lookup Some)
      qed (simp add: cli_main_def inr ne usage_lookup Some)
    qed
  qed
qed (auto simp: cli_main_def)

lemma request_accepted:
  assumes "request argv = Some (subcmd, args, n)"
  shows "cli_main readable fs argv =
      (if subcmd = ''inspect-state'' then Some (cmd_inspect_state readable (args ! 0) fs, 0)
       else case build_demo (Duration n) (new_fabric (Some (GivenClock 0))) of
         None \<Rightarrow> None
       | Some (out, s) \<Rightarrow> map_option (\<lambda>(out', code). (out @ out', code)) (run_command subcmd args (Duration n) s))"
    "map_of subcommands subcmd \<noteq> None" "in_i64 n"
proof -
  from assms obtain vs ws ps where cut: "cut_options argv = Some (vs, ws)" "\<forall>v \<in> set vs. parse_i64 v \<noteq> None"
    and words: "dropWhile (\<lambda>w. w = []) ws = subcmd # args" and entry: "map_of usage_entries subcmd = Some ps" "length args = length ps"
    and time: "if last ps = ''<at_ns>'' then parse_i64 (last args) = Some n else n = (if vs = [] then 70000000000 else the (parse_i64 (last vs)))"
    by (auto simp: request_def split: option.splits if_splits list.splits prod.splits)
  have ne: "subcmd \<noteq> []" using words hd_dropWhile [of "\<lambda>w. w = []" ws] by auto
  have scan: "scan_args argv [] [] None = Inr (subcmd, args, if vs = [] then None else parse_i64 (last vs))"
    using scan_args_words [OF cut, of "[]" "[]" None] by (simp add: words Let_def)
  have lookup: "map_of subcommands subcmd = Some (length ps, last ps = ''<at_ns>'')" by (simp add: usage_lookup entry(1))
  then show "map_of subcommands subcmd \<noteq> None" by simp
  have last: "vs = [] \<or> (\<exists>m. parse_i64 (last vs) = Some m)" using cut(2) by (cases "vs = []") auto
  show "in_i64 n" using time last by (auto split: if_splits dest: parse_i64_range simp: in_i64_70)
  have "(if last ps = ''<at_ns>'' then map_option Duration (parse_i64 (last args))
      else Some (case (if vs = [] then None else parse_i64 (last vs)) of Some n \<Rightarrow> Duration n | None \<Rightarrow> seconds 70)) = Some (Duration n)"
    using time last by (auto simp: seconds_def wrap64_def split: if_splits)
  then show "cli_main readable fs argv =
      (if subcmd = ''inspect-state'' then Some (cmd_inspect_state readable (args ! 0) fs, 0)
       else case build_demo (Duration n) (new_fabric (Some (GivenClock 0))) of
         None \<Rightarrow> None
       | Some (out, s) \<Rightarrow> map_option (\<lambda>(out', code). (out @ out', code)) (run_command subcmd args (Duration n) s))"
    using scan lookup entry(2) ne unfolding cli_main_def by simp
qed

section \<open>Properties\<close>

text \<open>
  Property C29.  The tool does what its usage text promises, with two exceptions.  A command line that is not one of the
  lines of that text, options aside, with an integer where the line says \<^verbatim>\<open><at_ns>\<close>, ends with exit code 2; any other ends
  with exit code 0, whatever its other arguments are, except where the arithmetic of the tool itself is undefined: the
  time is less than forty seconds above the least int64 (and the subcommand is not the one that reads a file), or the value of a
  sample, of any dimension, is a number that is no int64.  (Arithmetic on times within the engine wraps in the model.)
\<close>

theorem cli_exit_code:
  "case request argv of
     None \<Rightarrow> \<exists>out. cli_main readable fs argv = Some (out, 2)
   | Some (subcmd, args, n) \<Rightarrow>
       if subcmd \<noteq> ''inspect-state'' \<and> (n < i64_min + 40000000000 \<or> bad_value subcmd args)
       then cli_main readable fs argv = None
       else \<exists>out. cli_main readable fs argv = Some (out, 0)"
proof (cases "request argv")
  case None
  then show ?thesis using request_refused by simp
next
  case (Some r)
  obtain subcmd args n where r: "r = (subcmd, args, n)" by (cases r) auto
  note main = request_accepted [OF Some [unfolded r]]
  show ?thesis
  proof (cases "subcmd = ''inspect-state''")
    case True
    then show ?thesis using Some main(1) by (simp add: r)
  next
    case False
    obtain x where x: "map_of subcommands subcmd = Some x" using main(2) by auto
    show ?thesis
    proof (cases "n < i64_min + 40000000000")
      case True
      then have "build_demo (Duration n) (new_fabric (Some (GivenClock 0))) = None"
        using build_demo_engine [of "Duration n" "Some (GivenClock 0)"] main(3) by simp
      then show ?thesis using Some main(1) False True by (simp add: r)
    next
      case late: False
      then obtain out s where s: "build_demo (Duration n) (new_fabric (Some (GivenClock 0))) = Some (out, s)"
        "engine_run (new_fabric (Some (GivenClock 0))) s"
        using build_demo_engine [of "Duration n" "Some (GivenClock 0)"] main(3) by auto
      show ?thesis
        using Some main(1) False late s(1) run_command_defined [OF s(2) x False, of args "Duration n"] by (auto simp: r split: if_splits)
    qed
  qed
qed

theorem cli_exit_code_witness:
  "(\<exists>out. cli_main True \<lparr> fs_files = Map.empty, fs_tmp_seq = 0 \<rparr> [''evaluate'', ''100'', ''--at=5'', ''200'', ''70000000000''] = Some (out, 0)) \<and>
   (\<exists>out. cli_main True \<lparr> fs_files = Map.empty, fs_tmp_seq = 0 \<rparr> [''evaluate'', ''100'', ''200''] = Some (out, 2)) \<and>
   cli_main True \<lparr> fs_files = Map.empty, fs_tmp_seq = 0 \<rparr> [''ingest-sample'', ''7'', ''throughput'', ''1e300'', ''70000000000''] = None \<and>
   cli_main True \<lparr> fs_files = Map.empty, fs_tmp_seq = 0 \<rparr> [''replay'', ''1'', ''--at'', ''-9223372036854775808''] = None"
proof -
  let ?a = "[''evaluate'', ''100'', ''--at=5'', ''200'', ''70000000000'']" and ?b = "[''evaluate'', ''100'', ''200'']"
    and ?c = "[''ingest-sample'', ''7'', ''throughput'', ''1e300'', ''70000000000'']"
    and ?fs = "\<lparr> fs_files = Map.empty, fs_tmp_seq = 0 \<rparr>" and ?d = "[''replay'', ''1'', ''--at'', ''-9223372036854775808'']"
  have r: "request ?a = Some (''evaluate'', [''100'', ''200'', ''70000000000''], 70000000000)" "request ?b = None"
    "request ?c = Some (''ingest-sample'', [''7'', ''throughput'', ''1e300'', ''70000000000''], 70000000000)"
    "request ?d = Some (''replay'', [''1''], -9223372036854775808)" by code_simp+
  have b: "\<not> bad_value ''evaluate'' xs" "bad_value ''ingest-sample'' [''7'', ''throughput'', ''1e300'', ''70000000000'']" for xs
    by (simp add: bad_value_def) code_simp
  show ?thesis
    using cli_exit_code [where argv = ?a and readable = True and fs = ?fs] cli_exit_code [where argv = ?b and readable = True and fs = ?fs]
      cli_exit_code [where argv = ?c and readable = True and fs = ?fs] cli_exit_code [where argv = ?d and readable = True and fs = ?fs] b
    unfolding r by (simp add: i64_min_def)
qed

text \<open>
  What the tool prints it can read back: a number printed by \<^verbatim>\<open>std::to_string\<close> is parsed to itself, and an
  identity printed by any subcommand, given as an argument to another one, denotes the same identity.
\<close>

theorem cli_numbers_round_trip:
  assumes "in_i64 n"
  shows "parse_i64 (show_int n) = Some n \<and> parse_u64 (show_u64 w) = Some w \<and> make_id (id_to_string i) = i"
proof -
  have u: "parse_u64 (show_u64 w) = Some w" for w
  proof -
    have "0 \<le> uint w" "uint w < 18446744073709551616" using uint_bounded [of w] by simp_all
    then show ?thesis
      using show_nonneg_all [of "uint w"] by (simp add: parse_u64_def show_u64_def c_str_shown scan_shown read_show_nonneg)
  qed
  have "parse_i64 (show_int n) = Some n"
    using assms show_nonneg_all [of n] show_nonneg_all [of "- n"]
    by (cases "n < 0") (simp_all add: parse_i64_def show_int_def c_str_shown scan_shown read_show_nonneg)
  then show ?thesis using u [of w] u [of "id_value i"] by (simp add: make_id_def id_to_string_def)
qed

theorem cli_numbers_round_trip_witness:
  "parse_i64 ''-17'' = Some (- 17) \<and> make_id (id_to_string (Id 7 :: ObjectiveId)) = (Id 7 :: ObjectiveId)"
proof -
  have "show_int (- 17) = ''-17''" by code_simp
  moreover have "in_i64 (- 17)" by code_simp
  ultimately show ?thesis using cli_numbers_round_trip [of "- 17" 0 "Id 7 :: ObjectiveId"] by simp
qed

end
