(* ===== verification/Restart.thy ===== *)
theory Restart
  imports Decisions
begin

text \<open>
  Restart: a save followed by a load in another process.  The configuration and the histories come back as they were,
  the budgets, cooldowns and the last times come back for the objectives in force, the epoch moves on so that intents
  and evidence of the previous process are refused, and no action is asked for before new evidence arrives.
\<close>

section \<open>Saving and loading\<close>

text \<open>A fabric whose state is within the limits of the file format, in some iteration order of its accumulators.\<close>

definition storable :: "iteration_order \<Rightarrow> Impl \<Rightarrow> bool" where
  "storable order s \<longleftrightarrow>
     fabric_inv s \<and> durable_wf (snapshot order s) \<and> int (length (serialize_state (snapshot order s))) \<le> kMaxPersistenceBytes"

lemma load_file:
  assumes "durable_wf st" "int (length (serialize_state st)) \<le> kMaxPersistenceBytes" "fs_files fs path = Some (file_of_state st)"
  shows "load True path fs t = (ok, restore st t)"
proof -
  have "int (length (file_of_state st)) \<le> kMaxPersistenceBytes + 4" "4 \<le> length (file_of_state st)"
    using assms(2) by (simp_all add: file_of_state_eq)
  then have "load_state True path fs = result_value st" using load_file_of_state [OF assms(1,2)] by (simp add: load_state_def assms(3))
  then show ?thesis by (simp add: load_def Let_def)
qed

lemma load_saved:
  assumes "durable_wf (snapshot order s)" "int (length (serialize_state (snapshot order s))) \<le> kMaxPersistenceBytes"
  shows "load True path (snd (save order WO_ok path s fs)) t = (ok, restore (snapshot order s) t)"
  using assms by (intro load_file) (simp_all add: save_def save_state_def save_bytes_target)

lemma restore_objective_frame [simp]:
  "im_epoch (restore_objective ps ob s) = im_epoch s" "im_policies (restore_objective ps ob s) = im_policies s"
  "im_contracts (restore_objective ps ob s) = im_contracts s"
  by (simp_all add: restore_objective_def split_beta Let_def)

lemma fold_restore_frame [simp]:
  "im_epoch (fold (restore_objective ps) obs s) = im_epoch s" "im_policies (fold (restore_objective ps) obs s) = im_policies s"
  "im_contracts (fold (restore_objective ps) obs s) = im_contracts s"
  by (induction obs arbitrary: s) simp_all

lemma fold_states_frame:
  "im_epoch (fold (\<lambda>ps s. fold (restore_objective ps) (all_objectives s) s) pss s) = im_epoch s"
  "im_policies (fold (\<lambda>ps s. fold (restore_objective ps) (all_objectives s) s) pss s) = im_policies s"
  "im_contracts (fold (\<lambda>ps s. fold (restore_objective ps) (all_objectives s) s) pss s) = im_contracts s"
  by (induction pss arbitrary: s) simp_all

lemma rebuild_keyed:
  assumes "map_wf m" "\<forall>(i, x) \<in> set m. key x = i"
  shows "fold (\<lambda>x. map_assign (key x) x) (map snd m) [] = m"
proof -
  have "fold (\<lambda>x. map_assign (key x) x) (map snd m) [] = fold (\<lambda>(k, v). map_assign k v) m []"
    unfolding fold_map using assms(2) by (intro fold_cong) auto
  then show ?thesis using map_assign_rebuild [of "[]" m] assms(1) by simp
qed

lemma restore_configuration:
  assumes "fabric_inv s"
  shows "im_epoch (restore (snapshot order s) t) = gen_next (im_epoch s)"
    "im_policies (restore (snapshot order s) t) = im_policies s"
    "im_contracts (restore (snapshot order s) t) = im_contracts s"
    "im_enforcement_history (restore (snapshot order s) t) = im_enforcement_history s"
    "im_evaluation_history (restore (snapshot order s) t) = im_evaluation_history s"
  using assms rebuild_keyed [of "im_policies s" p_id] rebuild_keyed [of "im_contracts s" c_id]
  by (simp_all add: restore_def snapshot_def Let_def fold_states_frame fabric_inv_def)

section \<open>Objectives\<close>

definition restored_budget :: "PersistedObjectiveState \<Rightarrow> ErrorBudget" where
  "restored_budget ps = snd (consume_count (ps_budget_consumed ps)
     (set_window_start (ps_budget_window_start ps) (error_budget (ps_budget_total ps) (ps_budget_window ps))))"

definition restored :: "PersistedObjectiveState \<Rightarrow> Impl \<Rightarrow> bool" where
  "restored ps s \<longleftrightarrow> (\<exists>a. map_of (im_accumulators s) (ps_objective_id ps) = Some a \<and>
     o_gen (a_def a) = ps_objective_gen ps \<and> a_last_state a = CS_RevalidationRequired \<and>
     a_last_state_time a = ps_last_state_time ps \<and> a_cooldown_until a = ps_cooldown_until ps \<and>
     (count_value (ps_budget_total ps) \<noteq> 0 \<longrightarrow> a_has_budget a \<and> a_budget a = restored_budget ps))"

lemma restore_objective_match:
  assumes "fabric_inv s" "o_id ob = ps_objective_id ps" "o_gen ob = ps_objective_gen ps"
  shows "restored ps (restore_objective ps ob s)"
  using assms get_accumulator_inv(1,4) [OF assms(1), of ob]
  by (auto simp: restored_def restore_objective_def restored_budget_def split_beta Let_def put_accumulator_def
      fabric_inv_def hmap.lookup_assign)

lemma restore_objective_other:
  assumes "fabric_inv s" "restored ps s" "ps_objective_id ps' \<noteq> ps_objective_id ps"
  shows "restored ps (restore_objective ps' ob s)"
proof (cases "o_id ob = ps_objective_id ps' \<and> o_gen ob = ps_objective_gen ps'")
  case True
  then have ne: "o_id ob \<noteq> ps_objective_id ps" using assms(3) by simp
  have look: "map_of (im_accumulators (put_accumulator j a u)) (ps_objective_id ps) = map_of (im_accumulators u) (ps_objective_id ps)"
    if "fabric_inv u" "j \<noteq> ps_objective_id ps" for j a u
    using that by (simp add: put_accumulator_def fabric_inv_def hmap.lookup_assign)
  have "map_of (im_accumulators (snd (get_accumulator ob s))) (ps_objective_id ps) = map_of (im_accumulators s) (ps_objective_id ps)"
    using assms(1) ne by (cases rule: get_accumulator_cases [OF assms(1), of ob]) (simp_all add: look)
  then show ?thesis
    using assms(2,3) look [OF get_accumulator_inv(1) [OF assms(1), of ob]]
    by (simp add: restored_def restore_objective_def split_beta Let_def)
qed (use assms(2) in \<open>auto simp: restore_objective_def\<close>)

lemma restore_objective_keeps:
  assumes "fabric_inv s" "restored ps s"
  shows "restored ps (restore_objective ps ob s)"
  using assms restore_objective_match [OF assms(1)]
  by (cases "o_id ob = ps_objective_id ps \<and> o_gen ob = ps_objective_gen ps") (auto simp: restore_objective_def)

lemma fold_restore_match:
  assumes "fabric_inv s" "objstate_wf ps" "restored ps s \<or> (\<exists>ob \<in> set obs. o_id ob = ps_objective_id ps \<and> o_gen ob = ps_objective_gen ps)"
  shows "restored ps (fold (restore_objective ps) obs s)"
  using assms
proof (induction obs arbitrary: s)
  case (Cons ob obs)
  have "fabric_inv (restore_objective ps ob s)" using Cons.prems(1,2) by (rule restore_objective_inv)
  moreover have "restored ps (restore_objective ps ob s) \<or> (\<exists>ob \<in> set obs. o_id ob = ps_objective_id ps \<and> o_gen ob = ps_objective_gen ps)"
    using Cons.prems restore_objective_match restore_objective_keeps by auto
  ultimately show ?case using Cons.IH Cons.prems(2) by simp
qed simp

lemma fold_restore_other:
  "fabric_inv s \<Longrightarrow> objstate_wf ps' \<Longrightarrow> restored ps s \<Longrightarrow> ps_objective_id ps' \<noteq> ps_objective_id ps \<Longrightarrow>
     restored ps (fold (restore_objective ps') obs s)"
  by (induction obs arbitrary: s) (simp_all add: restore_objective_other restore_objective_inv)

lemma fold_states_restored:
  assumes "fabric_inv s" "\<forall>ps \<in> set pss. objstate_wf ps" "distinct (map ps_objective_id pss)"
    "(ps \<in> set pss \<and> (\<exists>ob \<in> set (all_objectives s). o_id ob = ps_objective_id ps \<and> o_gen ob = ps_objective_gen ps)) \<or>
     (restored ps s \<and> ps_objective_id ps \<notin> ps_objective_id ` set pss)"
  shows "restored ps (fold (\<lambda>ps s. fold (restore_objective ps) (all_objectives s) s) pss s)"
  using assms
proof (induction pss arbitrary: s)
  case (Cons p pss)
  let ?s = "fold (restore_objective p) (all_objectives s) s"
  have inv: "fabric_inv ?s" using Cons.prems by (simp add: fold_restore_inv)
  have same: "all_objectives ?s = all_objectives s" by (simp add: all_objectives_def)
  have "(ps \<in> set pss \<and> (\<exists>ob \<in> set (all_objectives ?s). o_id ob = ps_objective_id ps \<and> o_gen ob = ps_objective_gen ps)) \<or>
     (restored ps ?s \<and> ps_objective_id ps \<notin> ps_objective_id ` set pss)"
    using Cons.prems fold_restore_match [of s p "all_objectives s"] fold_restore_other [of s p ps "all_objectives s"]
    by (auto simp: same)
  then show ?case using Cons.IH [OF inv] Cons.prems(2,3) by simp
qed simp

lemma restored_budget_exact:
  assumes "a_has_budget a" "budget_inv (a_budget a)" "0 < count_value (b_total (a_budget a))"
  shows "restored_budget (persisted_objective (i, a)) = a_budget a"
  using assms
  by (cases "b_consumed (a_budget a)")
     (auto simp: restored_budget_def persisted_objective_def consume_count_def set_window_start_def error_budget_def
       budget_inv_def in_i64_def Let_def)

section \<open>No evidence\<close>

text \<open>An accumulator that has seen no evidence.\<close>

definition blank :: "ObjectiveAccumulator \<Rightarrow> bool" where
  "blank a \<longleftrightarrow> window_empty (a_window a) \<and> \<not> has_denominator (a_avail a) \<and> cw_items (a_cost a) = [] \<and>
     \<not> rt_authoritative (a_recovery a)"

definition all_blank :: "Impl \<Rightarrow> bool" where
  "all_blank s \<longleftrightarrow> (\<forall>(i, a) \<in> set (im_accumulators s). blank a)"

lemma blank_route: "window_empty (sample_window ty d n)" "\<not> has_denominator (new_availability\<lparr> av_mode := m \<rparr>)"
  by (simp_all add: window_empty_def sample_window_def has_denominator_def new_availability_def)

lemma blank_new: "blank (new_accumulator ob)" "blank (reset_for_new_gen ob a)"
  by (simp_all add: blank_def new_accumulator_def reset_for_new_gen_def blank_route new_cost_window_def new_recovery_def)

lemma blank_update [simp]:
  "blank (a\<lparr> a_last_state := x \<rparr>) = blank a" "blank (a\<lparr> a_last_state_time := t \<rparr>) = blank a"
  "blank (a\<lparr> a_cooldown_until := t \<rparr>) = blank a" "blank (a\<lparr> a_has_budget := h \<rparr>) = blank a"
  "blank (a\<lparr> a_budget := b \<rparr>) = blank a" "blank (roll_budget now a) = blank a"
  by (simp_all add: blank_def roll_budget_def)

lemma all_blank_put: "all_blank s \<Longrightarrow> blank a \<Longrightarrow> all_blank (put_accumulator i a s)"
  using umap_assign_subset [of i a "im_accumulators s"] by (auto simp: all_blank_def put_accumulator_def)

lemma get_accumulator_blank:
  assumes "all_blank s"
  shows "blank (fst (get_accumulator ob s))" "all_blank (snd (get_accumulator ob s))"
proof -
  have r: "route_for ob (new_accumulator ob) = new_accumulator ob" by (simp add: new_accumulator_def route_for_idem)
  have "blank a" if "map_of (im_accumulators s) (o_id ob) = Some a" for a
    using assms map_of_SomeD [OF that] by (auto simp: all_blank_def)
  then show "blank (fst (get_accumulator ob s))" "all_blank (snd (get_accumulator ob s))"
    using assms by (auto simp: get_accumulator_def Let_def r blank_new all_blank_put split: option.split)
qed

lemma restore_objective_blank: "all_blank s \<Longrightarrow> all_blank (restore_objective ps ob s)"
  by (simp add: restore_objective_def split_beta Let_def get_accumulator_blank all_blank_put)

lemma fold_restore_blank: "all_blank s \<Longrightarrow> all_blank (fold (restore_objective ps) obs s)"
  by (induction obs arbitrary: s) (simp_all add: restore_objective_blank)

lemma fold_states_blank: "all_blank s \<Longrightarrow> all_blank (fold (\<lambda>ps s. fold (restore_objective ps) (all_objectives s) s) pss s)"
  by (induction pss arbitrary: s) (simp_all add: fold_restore_blank)

lemma restore_blank: "all_blank (restore st t)"
proof -
  have "all_blank (t\<lparr> im_epoch := e, im_policies := ps, im_contracts := cs, im_accumulators := [] \<rparr>)" for e ps cs
    by (simp add: all_blank_def)
  from fold_states_blank [OF this] show ?thesis by (simp add: restore_def Let_def all_blank_def)
qed

text \<open>A blank accumulator is insufficient evidence, except for a recovery-time objective, which measures zero.\<close>

lemma blank_insufficient:
  assumes "blank a" "acc_inv a" "o_dim (a_def a) \<noteq> Dim_RecoveryTime"
  shows "\<not> usable a now" "evaluate_freshness a now \<noteq> FR_Stale"
  using assms
  by (auto simp: usable_def blank_def compute_measured_def not_measured_def evaluate_freshness_def acc_inv_def Let_def)

lemma blank_fresh: "blank a \<Longrightarrow> acc_inv a \<Longrightarrow> evaluate_freshness a now \<noteq> FR_Stale"
  by (auto simp: blank_def evaluate_freshness_def Let_def)

text \<open>Every accumulator was made for an objective of a contract.\<close>

definition defs_known :: "Impl \<Rightarrow> bool" where
  "defs_known s \<longleftrightarrow> (\<forall>(i, a) \<in> set (im_accumulators s). a_def a \<in> set (all_objectives s))"

lemma all_objectives_put [simp]: "all_objectives (put_accumulator i a s) = all_objectives s"
  by (simp add: all_objectives_def)

lemma defs_known_put: "defs_known s \<Longrightarrow> a_def a \<in> set (all_objectives s) \<Longrightarrow> defs_known (put_accumulator i a s)"
  using umap_assign_subset [of i a "im_accumulators s"]
  by (fastforce simp: defs_known_def put_accumulator_def all_objectives_def)

lemma get_accumulator_known:
  assumes "defs_known s" "ob \<in> set (all_objectives s)"
  shows "a_def (fst (get_accumulator ob s)) \<in> set (all_objectives s)" "defs_known (snd (get_accumulator ob s))"
    "all_objectives (snd (get_accumulator ob s)) = all_objectives s"
proof -
  have "a_def a \<in> set (all_objectives s)" if "map_of (im_accumulators s) (o_id ob) = Some a" for a
    using assms(1) map_of_SomeD [OF that] by (auto simp: defs_known_def)
  then show "a_def (fst (get_accumulator ob s)) \<in> set (all_objectives s)" "defs_known (snd (get_accumulator ob s))"
    using assms by (auto simp: get_accumulator_def Let_def new_accumulator_def reset_for_new_gen_def defs_known_put split: option.split)
qed (simp add: all_objectives_def)

lemma restore_objective_known:
  "defs_known s \<Longrightarrow> ob \<in> set (all_objectives s) \<Longrightarrow> defs_known (restore_objective ps ob s)"
  by (simp add: restore_objective_def split_beta Let_def get_accumulator_known defs_known_put)

lemma all_objectives_restore [simp]: "all_objectives (restore_objective ps ob s) = all_objectives s"
  by (simp add: all_objectives_def)

lemma fold_restore_known:
  "defs_known s \<Longrightarrow> set obs \<subseteq> set (all_objectives s) \<Longrightarrow> defs_known (fold (restore_objective ps) obs s)"
  by (induction obs arbitrary: s) (simp_all add: restore_objective_known)

lemma fold_states_known:
  "defs_known s \<Longrightarrow> defs_known (fold (\<lambda>ps s. fold (restore_objective ps) (all_objectives s) s) pss s)"
  by (induction pss arbitrary: s) (simp_all add: fold_restore_known)

lemma restore_known: "defs_known (restore st t)"
proof -
  have "defs_known (t\<lparr> im_epoch := e, im_policies := ps, im_contracts := cs, im_accumulators := [] \<rparr>)" for e ps cs
    by (simp add: defs_known_def)
  from fold_states_known [OF this] show ?thesis by (simp add: restore_def Let_def defs_known_def all_objectives_def)
qed

section \<open>Properties\<close>

text \<open>
  Property C15.  A restart restores: when the state of a fabric is within the limits of the file format, saving it and
  loading the file in any process, in whatever order the accumulators were iterated, succeeds and gives the same
  policies, contracts and histories under the next epoch; and every accumulator of an objective in force comes back
  with its cooldown, the time of its last state, its budget exactly (if its total is positive), and in a state that
  requires revalidation.
\<close>

theorem restart_restores:
  fixes path :: path and fs :: FileSystem
  assumes "fabric_inv s" "set (order (im_accumulators s)) = set (im_accumulators s)" "distinct (order (im_accumulators s))"
    "durable_wf (snapshot order s)" "int (length (serialize_state (snapshot order s))) \<le> kMaxPersistenceBytes" "fabric_inv t"
  defines "r \<equiv> load True path (snd (save order WO_ok path s fs)) t"
  shows "status_ok (fst r) \<and> im_epoch (snd r) = gen_next (im_epoch s) \<and> im_policies (snd r) = im_policies s \<and>
    im_contracts (snd r) = im_contracts s \<and> im_enforcement_history (snd r) = im_enforcement_history s \<and>
    im_evaluation_history (snd r) = im_evaluation_history s \<and>
    (\<forall>i a ob. map_of (im_accumulators s) i = Some a \<and> ob \<in> set (all_objectives s) \<and> o_id ob = i \<and> o_gen ob = o_gen (a_def a) \<longrightarrow>
       (\<exists>a'. map_of (im_accumulators (snd r)) i = Some a' \<and> a_cooldown_until a' = a_cooldown_until a \<and>
          a_last_state a' = CS_RevalidationRequired \<and> a_last_state_time a' = a_last_state_time a \<and>
          (a_has_budget a \<and> 0 < count_value (b_total (a_budget a)) \<longrightarrow> a_has_budget a' \<and> a_budget a' = a_budget a)))"
proof -
  have r: "r = (ok, restore (snapshot order s) t)" unfolding r_def using assms(4,5) by (rule load_saved)
  note conf = restore_configuration [OF assms(1), of order t]
  have "\<exists>a'. map_of (im_accumulators (snd r)) i = Some a' \<and> a_cooldown_until a' = a_cooldown_until a \<and>
      a_last_state a' = CS_RevalidationRequired \<and> a_last_state_time a' = a_last_state_time a \<and>
      (a_has_budget a \<and> 0 < count_value (b_total (a_budget a)) \<longrightarrow> a_has_budget a' \<and> a_budget a' = a_budget a)"
    if a: "map_of (im_accumulators s) i = Some a" and ob: "ob \<in> set (all_objectives s)" "o_id ob = i" "o_gen ob = o_gen (a_def a)"
    for i a ob
  proof -
    let ?ps = "persisted_objective (i, a)" and ?pss = "map persisted_objective (order (im_accumulators s))"
    let ?s0 = "t\<lparr> im_epoch := gen_next (im_epoch s), im_policies := im_policies s, im_contracts := im_contracts s, im_accumulators := [] \<rparr>"
    have keys: "distinct (map fst (order (im_accumulators s)))"
      using assms(1-3) by (auto simp: fabric_inv_def umap_wf_def distinct_map)
    have ids: "map ps_objective_id ?pss = map fst (order (im_accumulators s))"
      by (simp add: persisted_objective_def split_beta)
    have eq: "im_accumulators (restore (snapshot order s) t) =
        im_accumulators (fold (\<lambda>ps s. fold (restore_objective ps) (all_objectives s) s) ?pss ?s0)"
      using assms(1) rebuild_keyed [of "im_policies s" p_id] rebuild_keyed [of "im_contracts s" c_id]
      by (simp add: restore_def snapshot_def Let_def fabric_inv_def)
    have inv0: "fabric_inv ?s0" using assms(1,6) by (simp add: fabric_inv_def hmap.wf_Nil)
    have "?ps \<in> set ?pss" using map_of_SomeD [OF a] assms(2) by force
    moreover have "\<exists>ob \<in> set (all_objectives ?s0). o_id ob = ps_objective_id ?ps \<and> o_gen ob = ps_objective_gen ?ps"
      using ob by (auto simp: all_objectives_def persisted_objective_def)
    ultimately have src: "?ps \<in> set ?pss \<and> (\<exists>ob \<in> set (all_objectives ?s0). o_id ob = ps_objective_id ?ps \<and> o_gen ob = ps_objective_gen ?ps)"
      by blast
    have wf: "\<forall>ps \<in> set ?pss. objstate_wf ps" using assms(4) by (simp add: durable_wf_def snapshot_def)
    have "restored ?ps (fold (\<lambda>ps s. fold (restore_objective ps) (all_objectives s) s) ?pss ?s0)"
      by (rule fold_states_restored [OF inv0 wf _ disjI1 [OF src]]) (simp only: ids keys)
    then obtain a' where a': "map_of (im_accumulators (snd r)) i = Some a'" "a_cooldown_until a' = a_cooldown_until a"
      "a_last_state a' = CS_RevalidationRequired" "a_last_state_time a' = a_last_state_time a"
      "count_value (ps_budget_total ?ps) \<noteq> 0 \<longrightarrow> a_has_budget a' \<and> a_budget a' = restored_budget ?ps"
      by (auto simp: restored_def r eq persisted_objective_def)
    have "budget_inv (a_budget a)" using fabric_inv_acc [OF assms(1) a] by (simp add: acc_inv_def)
    then show ?thesis using a' restored_budget_exact [of a i] by (auto simp: persisted_objective_def)
  qed
  then show ?thesis using conf by (auto simp: r)
qed

lemma sample_snapshot_ok:
  "durable_wf (snapshot (\<lambda>xs. xs) sample_measured)"
  "int (length (serialize_state (snapshot (\<lambda>xs. xs) sample_measured))) \<le> kMaxPersistenceBytes"
  by code_simp+

theorem restart_restores_witness:
  "im_contracts (snd (load True ''f'' (snd (save (\<lambda>xs. xs) WO_ok ''f'' sample_measured \<lparr> fs_files = Map.empty, fs_tmp_seq = 0 \<rparr>))
     (new_fabric None))) = im_contracts sample_measured"
proof -
  have "distinct (map fst (im_accumulators sample_measured))"
    using sample_measured_inv by (simp add: fabric_inv_def umap_wf_def)
  then have "distinct (im_accumulators sample_measured)" by (simp add: distinct_map)
  from restart_restores [OF sample_measured_inv _ this sample_snapshot_ok fabric_inv_new] show ?thesis by simp
qed

text \<open>
  Property C16.  A restart fences the previous process: after a state was loaded the epoch is the one after the saved
  epoch, and as long as the process loads nothing else, whatever operations it makes, every intent of any other epoch,
  the saved one among them, is refused as stale authority, without effect, and so is every
  piece of evidence of any other epoch than the current one (evidence that carries epoch zero is not fenced), which
  leaves all accumulators as they were.
\<close>

theorem restart_fences_authority:
  assumes "fabric_inv t" "durable_wf st" "fabric_run (restore st t) ops u" "\<forall>op \<in> set ops. keeps_process op"
  shows "im_epoch u = gen_next (ds_epoch st) \<and> ds_epoch st \<noteq> im_epoch u \<and>
    (\<forall>i now. i_epoch i \<noteq> im_epoch u \<longrightarrow>
       authorize i now u = (result_error (stale_authority ''intent coordinator epoch is stale''), u)) \<and>
    (\<forall>e now. e_epoch e \<noteq> im_epoch u \<and> gen_valid (e_epoch e) \<longrightarrow>
       \<not> status_ok (fst (ingest e now u)) \<and> im_accumulators (snd (ingest e now u)) = im_accumulators u \<and>
       (id_valid (e_id e) \<and> e_id e \<notin> im_global_evidence u \<longrightarrow> status_code (fst (ingest e now u)) = SC_StaleAuthority))"
proof -
  have e: "im_epoch (restore st t) = gen_next (ds_epoch st)" by (simp add: restore_def Let_def fold_states_frame)
  then have u: "im_epoch u = gen_next (ds_epoch st)"
    using fabric_run_grows [OF assms(3,4) restore_inv [OF assms(1,2)]] by (simp add: generations_grow_def)
  have "gen_next g \<noteq> g" for g :: CoordinatorEpoch by (simp add: gen_next_def gen_eq_iff)
  then have ne: "ds_epoch st \<noteq> im_epoch u" by (metis u)
  have noted: "im_epoch (snd (note_evidence i u)) = im_epoch u" for i by simp
  have code: "status_code (stale_authority m) = SC_StaleAuthority" for m by (simp add: stale_authority_def)
  show ?thesis
    using u ne by (auto simp: authorize_def ingest_def split_beta Let_def noted note_evidence_def id_valid_def id_invalid_def code)
qed

theorem restart_fences_authority_witness:
  "let u = snd (suspend_contract (Id 1) (Duration 15) (restore (snapshot (\<lambda>xs. xs) sample_measured) (new_fabric None)))
   in authorize sample_intent (Duration 20) u = (result_error (stale_authority ''intent coordinator epoch is stale''), u)"
proof -
  let ?st = "snapshot (\<lambda>xs. xs) sample_measured"
  let ?s = "restore ?st (new_fabric None)"
  have run: "fabric_run ?s [Op_suspend (Id 1) (Duration 15)] (snd (suspend_contract (Id 1) (Duration 15) ?s))"
    by (rule run_Cons [OF step_suspend run_Nil])
  have ops: "\<forall>op \<in> set [Op_suspend (Id 1) (Duration 15)]. keeps_process op" by (simp add: keeps_process_def)
  have i: "i_epoch sample_intent = ds_epoch ?st" by code_simp
  note fences = restart_fences_authority [OF fabric_inv_new sample_snapshot_ok(1) run ops]
  show ?thesis unfolding Let_def
    by (rule fences [THEN conjunct2, THEN conjunct2, THEN conjunct1, rule_format]) (rule fences [THEN conjunct2, THEN conjunct1, folded i])
qed

text \<open>The intent of the sample scenario, issued again under the epoch of the restarted process.\<close>

definition restarted_intent :: EnforcementIntent where
  "restarted_intent = sample_intent\<lparr> i_epoch := Gen 2 \<rparr>"

text \<open>
  The counter of receipts is not part of the saved state: a process that restored a history with the
  receipt number 1 gives the number 1 to its first receipt again, and a transition by that number then moves the old
  receipt and leaves the new one where it is.
\<close>

theorem receipt_ids_collide_after_restart:
  "let s = restore (snapshot (\<lambda>xs. xs) (snd (authorize sample_intent (Duration 20) sample_measured))) (new_fabric None);
       s' = snd (authorize restarted_intent (Duration 30) s);
       s'' = snd (transition (Id 1) EL_Dispatched (Duration 31) s')
   in result_ok (fst (authorize restarted_intent (Duration 30) s)) \<and> map r_id (im_enforcement_history s') = [Id 1, Id 1] \<and>
      map r_lifecycle (im_enforcement_history s'') = [EL_Dispatched, EL_Authorized]"
  by code_simp

text \<open>
  A budget of zero is lost at a restart: an objective with an exhausted budget of total zero comes back
  without any budget.
\<close>

theorem zero_budget_lost_at_restart:
  "let s = snd (set_objective_budget (Id 5) (Count 0) (Duration 100) sample_measured);
       s' = restore (snapshot (\<lambda>xs. xs) s) (new_fabric None)
   in map ot_budget_state (objective_statuses (Id 1) s) = [Some BS_Exhausted] \<and>
      map ot_budget_state (objective_statuses (Id 1) s') = [None]"
  by code_simp

end
