(* ===== verification/Net.thy ===== *)
theory Net
  imports Persistence
begin

text \<open>
  The framed transport (\<^verbatim>\<open>net.hpp\<close>, \<^verbatim>\<open>net.cpp\<close>): frames with magic, length and checksum, their decoder, and the loops
  that send and receive exactly the bytes of a frame over a stream socket that may transfer any part of a request.
  The system calls \<^verbatim>\<open>recv\<close> and \<^verbatim>\<open>send\<close> are arguments; what the code relies on of a stream socket is stated by
  \<open>stream_recv\<close> and \<open>stream_send\<close>.
\<close>

unbundle bit_operations_syntax

section \<open>Frames\<close>

definition kFrameMagic :: u32 where
  "kFrameMagic = 0x534C4631"

definition kMaxFramePayload :: int where
  "kMaxFramePayload = 4 * 1024 * 1024"

text \<open>\<open>FK_unnamed\<close> is the value of a byte outside the enumerators: the cast from a byte accepts every byte.\<close>

datatype FrameKind =
    FK_Hello | FK_RegisterAck | FK_Evidence | FK_Heartbeat | FK_EvaluateRequest | FK_EvaluateReply | FK_Enforcement
  | FK_EnforcementAck | FK_Kill | FK_Shutdown | FK_Unknown | FK_unnamed u8

fun frame_kind_name :: "FrameKind \<Rightarrow> string" where
  "frame_kind_name FK_Hello = ''hello''"
| "frame_kind_name FK_RegisterAck = ''register_ack''"
| "frame_kind_name FK_Evidence = ''evidence''"
| "frame_kind_name FK_Heartbeat = ''heartbeat''"
| "frame_kind_name FK_EvaluateRequest = ''evaluate_request''"
| "frame_kind_name FK_EvaluateReply = ''evaluate_reply''"
| "frame_kind_name FK_Enforcement = ''enforcement''"
| "frame_kind_name FK_EnforcementAck = ''enforcement_ack''"
| "frame_kind_name FK_Kill = ''kill''"
| "frame_kind_name FK_Shutdown = ''shutdown''"
| "frame_kind_name FK_Unknown = ''unknown''"
| "frame_kind_name (FK_unnamed b) = ''unknown''"

fun frame_kind_code :: "FrameKind \<Rightarrow> u8" where
  "frame_kind_code FK_Hello = 0"
| "frame_kind_code FK_RegisterAck = 1"
| "frame_kind_code FK_Evidence = 2"
| "frame_kind_code FK_Heartbeat = 3"
| "frame_kind_code FK_EvaluateRequest = 4"
| "frame_kind_code FK_EvaluateReply = 5"
| "frame_kind_code FK_Enforcement = 6"
| "frame_kind_code FK_EnforcementAck = 7"
| "frame_kind_code FK_Kill = 8"
| "frame_kind_code FK_Shutdown = 9"
| "frame_kind_code FK_Unknown = 255"
| "frame_kind_code (FK_unnamed b) = b"

definition frame_kind_cast :: "u8 \<Rightarrow> FrameKind" where
  "frame_kind_cast b =
     (if b = 255 then FK_Unknown
      else if b \<le> 9
      then [FK_Hello, FK_RegisterAck, FK_Evidence, FK_Heartbeat, FK_EvaluateRequest, FK_EvaluateReply, FK_Enforcement,
            FK_EnforcementAck, FK_Kill, FK_Shutdown] ! unat b
      else FK_unnamed b)"

record Frame =
  f_kind :: FrameKind
  f_flags :: u8
  f_payload :: bytes

definition append_u32 :: "bytes \<Rightarrow> u32 \<Rightarrow> bytes" where
  "append_u32 v x = v @ map (\<lambda>i. ucast (drop_bit (8 * i) x AND 0xFF)) [0, 1, 2, 3]"

definition encode_frame :: "Frame \<Rightarrow> bytes" where
  "encode_frame f =
     (let out = append_u32 [] kFrameMagic;
          out = out @ [frame_kind_code (f_kind f)];
          out = out @ [f_flags f];
          len = of_nat (length (f_payload f)) :: u32;
          out = append_u32 out len;
          out = out @ f_payload f;
          crc = crc32 out 0xFFFFFFFF
      in append_u32 out crc)"

text \<open>The little-endian word in four bytes, as the decoders spell it out.\<close>

definition le32 :: "bytes \<Rightarrow> u32" where
  "le32 b = ucast (b ! 0) OR push_bit 8 (ucast (b ! 1)) OR push_bit 16 (ucast (b ! 2)) OR push_bit 24 (ucast (b ! 3))"

definition decode_frame :: "bytes option \<Rightarrow> Frame Result" where
  "decode_frame input =
     (case input of
        None \<Rightarrow> result_error (persistence_corrupt ''frame too short'')
      | Some d \<Rightarrow>
     if length d < 14 then result_error (persistence_corrupt ''frame too short'')
     else case read_u32 (reader_from d) of
        None \<Rightarrow> result_error (protocol_error ''bad frame magic'')
      | Some (magic, _) \<Rightarrow>
     if magic \<noteq> kFrameMagic then result_error (protocol_error ''bad frame magic'')
     else let len = le32 (drop 6 d) in
     if kMaxFramePayload < uint len then result_error (protocol_error ''oversized frame'')
     else let tot = 10 + unat len + 4 in
     if length d < tot then result_error (protocol_error ''truncated frame'')
     else if tot < length d then result_error (protocol_error ''trailing garbage'')
     else let stored = le32 (drop (10 + unat len) d);
              computed = crc32 (take (10 + unat len) d) 0xFFFFFFFF
          in if computed \<noteq> stored then result_error (protocol_error ''frame checksum mismatch'')
             else result_value \<lparr> f_kind = frame_kind_cast (d ! 4), f_flags = d ! 5, f_payload = take (unat len) (drop 10 d) \<rparr>)"

section \<open>Stream sockets\<close>

text \<open>
  \<open>recv n w\<close> asks the operating system in state \<open>w\<close> for up to \<open>n\<close> bytes: \<open>None\<close> is a negative return, \<open>Some []\<close> a
  return of zero.  \<open>send bs w\<close> offers bytes and returns how many were taken, negative for an error.
\<close>

type_synonym 'w recv_call = "nat \<Rightarrow> 'w \<Rightarrow> bytes option \<times> 'w"
type_synonym 'w send_call = "bytes \<Rightarrow> 'w \<Rightarrow> int \<times> 'w"

function recv_exact :: "'w recv_call \<Rightarrow> nat \<Rightarrow> 'w \<Rightarrow> bytes option \<times> 'w" where
  "recv_exact recv n w =
     (if n = 0 then (Some [], w)
      else case recv n w of
        (None, w) \<Rightarrow> (None, w)
      | (Some bs, w) \<Rightarrow>
          if bs = [] then (None, w)
          else let (rest, w) = recv_exact recv (n - length bs) w in (map_option (\<lambda>r. bs @ r) rest, w))"
  by pat_completeness auto
termination by (relation "measure (\<lambda>(recv, n, w). n)") auto

declare recv_exact.simps [simp del]

function send_exact :: "'w send_call \<Rightarrow> bytes \<Rightarrow> 'w \<Rightarrow> bool \<times> 'w" where
  "send_exact send bs w =
     (if bs = [] then (True, w)
      else let (r, w) = send bs w
           in if r \<le> 0 then (False, w) else send_exact send (drop (nat r) bs) w)"
  by pat_completeness auto
termination by (relation "measure (\<lambda>(send, bs, w). length bs)") auto

declare send_exact.simps [simp del]

definition send_frame :: "'w send_call \<Rightarrow> Frame \<Rightarrow> 'w \<Rightarrow> Status \<times> 'w" where
  "send_frame send f w =
     (let bytes = encode_frame f
      in if kMaxFramePayload + 14 < int (length bytes) then (protocol_error ''oversized frame to send'', w)
         else let (sent, w) = send_exact send bytes w
              in (if sent then ok else protocol_error ''send failed'', w))"

text \<open>The frame is an out-parameter; it is given here on success, which is when callers look at it.\<close>

definition recv_frame :: "'w recv_call \<Rightarrow> int \<Rightarrow> 'w \<Rightarrow> Frame Result \<times> 'w" where
  "recv_frame recv max_payload w =
     (case recv_exact recv 10 w of
        (None, w) \<Rightarrow> (result_error (protocol_error ''recv header failed''), w)
      | (Some hdr, w) \<Rightarrow>
     if le32 hdr \<noteq> kFrameMagic then (result_error (protocol_error ''bad frame magic''), w)
     else let len = le32 (drop 6 hdr) in
     if min (word_of_int max_payload) (word_of_int kMaxFramePayload) < len
     then (result_error (protocol_error ''oversized frame''), w)
     else case recv_exact recv (unat len) w of
        (None, w) \<Rightarrow> (result_error (protocol_error ''recv payload failed''), w)
      | (Some payload, w) \<Rightarrow>
     case recv_exact recv 4 w of
        (None, w) \<Rightarrow> (result_error (protocol_error ''recv checksum failed''), w)
      | (Some crcb, w) \<Rightarrow>
     if crc32 (hdr @ payload) 0xFFFFFFFF \<noteq> le32 crcb then (result_error (protocol_error ''frame checksum mismatch''), w)
     else (result_value \<lparr> f_kind = frame_kind_cast (hdr ! 4), f_flags = hdr ! 5, f_payload = payload \<rparr>, w))"

subsection \<open>What a stream socket promises\<close>

text \<open>
  A stream delivers the bytes still to come, \<open>pending w\<close>, in order and without loss, any non-empty part of a request
  at a time, and reports the end of the stream, or an error, only when nothing is left to deliver.
\<close>

definition stream_recv :: "'w recv_call \<Rightarrow> ('w \<Rightarrow> bytes) \<Rightarrow> bool" where
  "stream_recv recv pending \<longleftrightarrow>
     (\<forall>n w. 0 < n \<longrightarrow>
        (case recv n w of
           (Some bs, w') \<Rightarrow> length bs \<le> n \<and> pending w = bs @ pending w' \<and> (bs = [] \<longrightarrow> pending w = [])
         | (None, w') \<Rightarrow> pending w = []))"

text \<open>A stream takes some prefix of what it is offered; an error takes nothing.\<close>

definition stream_send :: "'w send_call \<Rightarrow> ('w \<Rightarrow> bytes) \<Rightarrow> bool" where
  "stream_send send sent \<longleftrightarrow>
     (\<forall>bs w. bs \<noteq> [] \<longrightarrow>
        (let (r, w') = send bs w in r \<le> int (length bs) \<and> sent w' = sent w @ take (nat r) bs))"

section \<open>Facts\<close>

subsection \<open>Frames\<close>

lemma append_u32_eq: "append_u32 v x = v @ write_u32 x"
  by (simp add: append_u32_def write_u32_def)

lemma le32_le_word: "4 \<le> length b \<Longrightarrow> le32 b = le_word (take 4 b)"
proof -
  assume "4 \<le> length b"
  then have "le_word (take 4 b) = le_word [take 4 b ! 0, take 4 b ! 1, take 4 b ! 2, take 4 b ! 3]"
    by (intro arg_cong [where f = le_word] four_bytes) simp
  then show ?thesis by (simp add: le_word_4 le32_def del: le_word.simps)
qed

lemma le32_write [simp]: "le32 (write_u32 v @ rest) = v"
  by (simp add: le32_le_word le_word_write_u32)

lemma write_le_word: "length b = 4 \<Longrightarrow> write_u32 (le_word b) = b"
  by (rule le_word_inj) (simp_all add: le_word_write_u32)

lemma write_le32: "4 \<le> length b \<Longrightarrow> write_u32 (le32 b) = take 4 b"
  by (simp add: le32_le_word write_le_word)

lemma kind_code_cast [simp]: "frame_kind_code (frame_kind_cast b) = b"
proof (cases "b \<le> 9")
  case True
  then have "unat b \<in> {0, 1, 2, 3, 4, 5, 6, 7, 8, 9}" by (auto simp: word_le_nat_alt)
  moreover have "b = of_nat (unat b)" by simp
  ultimately have "b \<in> of_nat ` {0, 1, 2, 3, 4, 5, 6, 7, 8, 9}" by blast
  then show ?thesis by (auto simp: frame_kind_cast_def)
qed (simp add: frame_kind_cast_def)

text \<open>A frame that can travel: its kind is the cast of a byte and its payload is within the limit.\<close>

definition frame_wf :: "Frame \<Rightarrow> bool" where
  "frame_wf f \<longleftrightarrow> frame_kind_cast (frame_kind_code (f_kind f)) = f_kind f \<and> int (length (f_payload f)) \<le> kMaxFramePayload"

lemma named_kinds_wf:
  "f_kind f \<in> {FK_Hello, FK_RegisterAck, FK_Evidence, FK_Heartbeat, FK_EvaluateRequest, FK_EvaluateReply, FK_Enforcement,
     FK_EnforcementAck, FK_Kill, FK_Shutdown, FK_Unknown} \<Longrightarrow>
   frame_kind_cast (frame_kind_code (f_kind f)) = f_kind f"
  by (auto simp: frame_kind_cast_def)

definition frame_header :: "Frame \<Rightarrow> bytes" where
  "frame_header f =
     write_u32 kFrameMagic @ [frame_kind_code (f_kind f), f_flags f] @ write_u32 (of_nat (length (f_payload f)))"

lemma length_frame_header [simp]: "length (frame_header f) = 10"
  by (simp add: frame_header_def)

lemma encode_frame_eq:
  "encode_frame f = frame_header f @ f_payload f @ write_u32 (crc32_bytes (frame_header f @ f_payload f))"
  by (simp add: encode_frame_def frame_header_def append_u32_eq crc32_bytes_def Let_def)

lemma length_encode_frame [simp]: "length (encode_frame f) = length (f_payload f) + 14"
  by (simp add: encode_frame_eq)

lemma payload_length: "int (length p) \<le> kMaxFramePayload \<Longrightarrow> unat (of_nat (length p) :: u32) = length p"
  by (simp add: kMaxFramePayload_def unat_of_nat)

lemma le32_write_alone [simp]: "le32 (write_u32 v) = v"
  using le32_write [of v "[]"] by simp

lemma header_fields [simp]:
  "le32 (frame_header f) = kFrameMagic" "le32 (frame_header f @ rest) = kFrameMagic"
  "frame_header f ! 4 = frame_kind_code (f_kind f)" "frame_header f ! 5 = f_flags f"
  "drop 6 (frame_header f) = write_u32 (of_nat (length (f_payload f)))"
  by (simp_all add: frame_header_def nth_append)

lemma read_magic: "14 \<le> length d \<Longrightarrow> length d < 18446744073709551616 \<Longrightarrow> \<exists>r. read_u32 (reader_from d) = Some (le32 d, r)"
proof -
  assume d: "14 \<le> length d" "length d < 18446744073709551616"
  have "d = write_u32 (le32 d) @ drop 4 d" using d(1) by (simp add: write_le32)
  then have "read_u32 (at [] d) = Some (le32 d, at (write_u32 (le32 d)) (drop 4 d))"
    using read_u32_at [of "[]" "le32 d" "drop 4 d"] d(2) by (simp add: fits_def)
  then show ?thesis by (simp add: at_Nil)
qed

lemma header_split: "14 \<le> length d \<Longrightarrow> d = take 4 d @ [d ! 4, d ! 5] @ take 4 (drop 6 d) @ drop 10 d"
proof -
  assume d: "14 \<le> length d"
  have "drop 4 d = d ! 4 # d ! 5 # drop 6 d" using d by (simp add: Cons_nth_drop_Suc numeral_eq_Suc)
  moreover have "drop 6 d = take 4 (drop 6 d) @ drop 10 d" using append_take_drop_id [of 4 "drop 6 d"] by simp
  ultimately show ?thesis using append_take_drop_id [of 4 d] by (metis append_Cons append_Nil)
qed

text \<open>The decoder accepts exactly the encodings of frames.\<close>

lemma decode_encode_frame: "frame_wf f \<Longrightarrow> decode_frame (Some (encode_frame f)) = result_value f"
proof -
  assume wf: "frame_wf f"
  let ?d = "encode_frame f"
  have n: "unat (of_nat (length (f_payload f)) :: u32) = length (f_payload f)"
    "uint (of_nat (length (f_payload f)) :: u32) = int (length (f_payload f))"
    using wf payload_length [of "f_payload f"] by (simp_all add: frame_wf_def uint_nat)
  have "length ?d < 18446744073709551616" using wf by (simp add: frame_wf_def kMaxFramePayload_def)
  then obtain r where r: "read_u32 (reader_from ?d) = Some (kFrameMagic, r)"
    using read_magic [of ?d] by (auto simp: encode_frame_eq)
  show ?thesis
    using wf by (simp add: decode_frame_def r) (simp add: encode_frame_eq n frame_wf_def crc32_bytes_def nth_append Let_def)
qed

lemma decode_frame_tail:
  assumes "14 \<le> length d" "read_u32 (reader_from d) = Some (kFrameMagic, r)"
  shows "decode_frame (Some d) =
     (if kMaxFramePayload < uint (le32 (drop 6 d)) then result_error (protocol_error ''oversized frame'')
      else if length d < 10 + unat (le32 (drop 6 d)) + 4 then result_error (protocol_error ''truncated frame'')
      else if 10 + unat (le32 (drop 6 d)) + 4 < length d then result_error (protocol_error ''trailing garbage'')
      else if crc32 (take (10 + unat (le32 (drop 6 d))) d) 0xFFFFFFFF \<noteq> le32 (drop (10 + unat (le32 (drop 6 d))) d)
      then result_error (protocol_error ''frame checksum mismatch'')
      else result_value \<lparr> f_kind = frame_kind_cast (d ! 4), f_flags = d ! 5,
             f_payload = take (unat (le32 (drop 6 d))) (drop 10 d) \<rparr>)"
proof -
  have "(length d < 14) = False" using assms(1) by simp
  then show ?thesis by (simp only: decode_frame_def option.case prod.case Let_def assms(2) if_False simp_thms)
qed

lemma decode_frame_value:
  assumes "decode_frame (Some d) = result_value f"
  shows "d = encode_frame f \<and> frame_wf f"
proof -
  define L where "L = le32 (drop 6 d)"
  define k where "k = unat L"
  from assms have d: "14 \<le> length d" by (auto simp: decode_frame_def split: if_splits)
  from assms obtain m r where m: "read_u32 (reader_from d) = Some (m, r)" "m = kFrameMagic"
    using d by (auto simp: decode_frame_def split: option.splits if_splits)
  have len: "uint L \<le> kMaxFramePayload" "length d = 10 + k + 4"
    and crc: "crc32 (take (10 + k) d) 0xFFFFFFFF = le32 (drop (10 + k) d)"
    and f: "f = \<lparr> f_kind = frame_kind_cast (d ! 4), f_flags = d ! 5, f_payload = take k (drop 10 d) \<rparr>"
    using assms unfolding decode_frame_tail [OF d m(1) [unfolded m(2)]] L_def [symmetric] k_def [symmetric]
    by (simp_all only: result_value_neq_error result_value_inject split: if_split_asm)
  have "int k \<le> kMaxFramePayload" using len(1) by (simp add: k_def)
  then have n: "k \<le> 4194304" unfolding kMaxFramePayload_def by linarith
  have magic: "take 4 d = write_u32 kFrameMagic"
    using read_magic [OF d] m d len(2) n by (auto simp: write_le32 [symmetric])
  have L: "take 4 (drop 6 d) = write_u32 L" "of_nat k = L" using d by (simp_all add: write_le32 L_def k_def)
  have "drop 10 d = take k (drop 10 d) @ drop (10 + k) d" by (metis append_take_drop_id drop_drop add.commute)
  then have split: "d = (write_u32 kFrameMagic @ [d ! 4, d ! 5] @ write_u32 L) @ take k (drop 10 d) @ drop (10 + k) d"
    using header_split [OF d] magic L(1) by (metis append_assoc)
  have pl: "length (f_payload f) = k" using f len(2) by simp
  have hdr: "frame_header f = write_u32 kFrameMagic @ [d ! 4, d ! 5] @ write_u32 L"
    by (simp add: frame_header_def pl L(2)) (simp add: f)
  have payload: "f_payload f = take k (drop 10 d)" by (simp add: f)
  have eq: "d = frame_header f @ f_payload f @ drop (10 + k) d" using split unfolding hdr payload by metis
  then have body: "take (10 + k) d = frame_header f @ f_payload f"
    by (metis append_assoc append_eq_conv_conj length_append length_frame_header pl)
  have tail: "drop (10 + k) d = write_u32 (crc32_bytes (frame_header f @ f_payload f))"
    using crc write_le32 [of "drop (10 + k) d"] len(2) unfolding body by (simp add: crc32_bytes_def)
  have "d = frame_header f @ f_payload f @ write_u32 (crc32_bytes (frame_header f @ f_payload f))"
    using eq unfolding tail .
  then have "d = encode_frame f" unfolding encode_frame_eq .
  moreover have "int (length (f_payload f)) \<le> kMaxFramePayload" unfolding pl kMaxFramePayload_def using n by linarith
  moreover have "frame_kind_cast (frame_kind_code (f_kind f)) = f_kind f" unfolding f by simp
  ultimately show ?thesis unfolding frame_wf_def by blast
qed

lemma decode_frame_cases:
  "(\<exists>m. decode_frame x = result_error (persistence_corrupt m)) \<or> (\<exists>m. decode_frame x = result_error (protocol_error m)) \<or>
   (\<exists>f. decode_frame x = result_value f)"
  unfolding decode_frame_def Let_def by (cases x) (simp_all only: option.case split: option.split prod.split if_split, blast+)

lemma checksum_ok_append: "checksum_ok (b @ write_u32 (crc32_bytes b))"
  by (simp add: checksum_ok_def le_word_write_u32)

lemma encode_frame_residue: "foldl crc32_step 0xFFFFFFFF (encode_frame f) = crc_residue"
proof -
  have "checksum_ok (encode_frame f)"
    using checksum_ok_append [of "frame_header f @ f_payload f"] by (simp only: encode_frame_eq append_assoc)
  moreover have "4 \<le> length (encode_frame f)" by simp
  ultimately show ?thesis using checksum_ok_iff by blast
qed

subsection \<open>Streams\<close>

lemma stream_recvD:
  assumes "stream_recv recv pending" "0 < n" "recv n w = (r, w')"
  shows "case r of Some bs \<Rightarrow> length bs \<le> n \<and> pending w = bs @ pending w' \<and> (bs = [] \<longrightarrow> pending w = []) | None \<Rightarrow> pending w = []"
proof -
  have "case recv n w of (Some bs, w') \<Rightarrow> length bs \<le> n \<and> pending w = bs @ pending w' \<and> (bs = [] \<longrightarrow> pending w = [])
      | (None, w') \<Rightarrow> pending w = []"
    using assms(1) [unfolded stream_recv_def, rule_format, OF assms(2), of w] .
  then show ?thesis using assms(3) by (simp split: option.splits)
qed

lemma recv_exact_sound:
  assumes "stream_recv recv pending"
  shows "recv_exact recv n w = (Some bs, w') \<Longrightarrow> length bs = n \<and> pending w = bs @ pending w'"
proof (induction n arbitrary: w bs rule: less_induct)
  case (less n)
  show ?case
  proof (cases "n = 0")
    case True
    then show ?thesis using less.prems by (simp add: recv_exact.simps [of recv 0])
  next
    case False
    obtain r w1 where r: "recv n w = (r, w1)" by fastforce
    from less.prems False obtain c where "r = Some c" "c \<noteq> []"
      unfolding recv_exact.simps [of recv n w] r by (auto split: option.splits if_splits)
    moreover obtain x w2 where "recv_exact recv (n - length c) w1 = (x, w2)" by fastforce
    ultimately obtain rest where c: "r = Some c" "c \<noteq> []" "recv_exact recv (n - length c) w1 = (Some rest, w')" "bs = c @ rest"
      using less.prems False unfolding recv_exact.simps [of recv n w] r by auto
    have len: "length c \<le> n" "pending w = c @ pending w1" using stream_recvD [OF assms _ r] False c(1) by auto
    have "n - length c < n" using False c(2) by simp
    from less.IH [OF this c(3)] show ?thesis using len c(4) by simp
  qed
qed

lemma recv_exact_complete:
  assumes "stream_recv recv pending"
  shows "n \<le> length (pending w) \<Longrightarrow> \<exists>w'. recv_exact recv n w = (Some (take n (pending w)), w') \<and> pending w' = drop n (pending w)"
proof (induction n arbitrary: w rule: less_induct)
  case (less n)
  show ?case
  proof (cases "n = 0")
    case True
    then show ?thesis by (simp add: recv_exact.simps [of recv 0])
  next
    case False
    obtain r w1 where r: "recv n w = (r, w1)" by fastforce
    have "pending w \<noteq> []" using less.prems False by auto
    with stream_recvD [OF assms _ r] False obtain c where c: "r = Some c" "c \<noteq> []" "length c \<le> n" "pending w = c @ pending w1"
      by (cases r) auto
    have "n - length c < n" "n - length c \<le> length (pending w1)" using c less.prems False by auto
    from less.IH [OF this] obtain w' where "recv_exact recv (n - length c) w1 = (Some (take (n - length c) (pending w1)), w')"
      "pending w' = drop (n - length c) (pending w1)" by blast
    then show ?thesis using False c by (simp add: recv_exact.simps [of recv n w] r)
  qed
qed

lemma recv_frame_delivers:
  assumes "stream_recv recv pending" "frame_wf f" "int (length (f_payload f)) \<le> lim" "lim < 4294967296"
    "pending w = encode_frame f @ rest"
  shows "\<exists>w'. recv_frame recv lim w = (result_value f, w') \<and> pending w' = rest"
proof -
  let ?n = "length (f_payload f)" and ?crc = "write_u32 (crc32_bytes (frame_header f @ f_payload f))"
  have p: "pending w = frame_header f @ f_payload f @ ?crc @ rest" using assms(5) by (simp add: encode_frame_eq)
  obtain w1 where 1: "recv_exact recv 10 w = (Some (frame_header f), w1)" "pending w1 = f_payload f @ ?crc @ rest"
    using recv_exact_complete [OF assms(1), of 10 w] p by auto
  obtain w2 where 2: "recv_exact recv ?n w1 = (Some (f_payload f), w2)" "pending w2 = ?crc @ rest"
    using recv_exact_complete [OF assms(1), of ?n w1] 1(2) by auto
  obtain w3 where 3: "recv_exact recv 4 w2 = (Some ?crc, w3)" "pending w3 = rest"
    using recv_exact_complete [OF assms(1), of 4 w2] 2(2) by auto
  have len: "unat (of_nat ?n :: u32) = ?n" using assms(2) payload_length [of "f_payload f"] by (simp add: frame_wf_def)
  then have "uint (of_nat ?n :: u32) = int ?n" by (simp only: uint_nat)
  then have "(of_nat ?n :: u32) \<le> word_of_int lim" "(of_nat ?n :: u32) \<le> word_of_int kMaxFramePayload"
    using assms(2-4) by (simp_all add: frame_wf_def kMaxFramePayload_def word_le_def uint_word_of_int)
  then have "\<not> min (word_of_int lim) (word_of_int kMaxFramePayload) < (of_nat ?n :: u32)" by (simp add: min_def not_less)
  then show ?thesis using 1(1) 2(1) 3 assms(2) len by (simp add: recv_frame_def Let_def crc32_bytes_def frame_wf_def)
qed


lemma recv_frame_sound:
  assumes "stream_recv recv pending" "recv_frame recv lim w = (result_value f, w')"
  shows "pending w = encode_frame f @ pending w' \<and> frame_wf f"
proof -
  obtain hx w1 where 1: "recv_exact recv 10 w = (hx, w1)" by fastforce
  obtain hdr where h: "hx = Some hdr" using assms(2) 1 by (cases hx) (auto simp: recv_frame_def)
  define L where "L = le32 (drop 6 hdr)"
  obtain px w2 where 2: "recv_exact recv (unat L) w1 = (px, w2)" by fastforce
  have magic: "le32 hdr = kFrameMagic" and lim: "\<not> min (word_of_int lim) (word_of_int kMaxFramePayload) < L"
    using assms(2) unfolding recv_frame_def 1 h by (auto simp: L_def Let_def split: if_splits)
  obtain payload where p: "px = Some payload"
    using assms(2) magic lim 2 unfolding recv_frame_def 1 h by (cases px) (auto simp: L_def [symmetric] Let_def)
  obtain cx w3 where 3: "recv_exact recv 4 w2 = (cx, w3)" by fastforce
  obtain crcb where c: "cx = Some crcb"
    using assms(2) magic lim 2 3 unfolding recv_frame_def 1 h p by (cases cx) (auto simp: L_def [symmetric] Let_def)
  have crc: "crc32 (hdr @ payload) 0xFFFFFFFF = le32 crcb" "w' = w3"
    and f: "f = \<lparr> f_kind = frame_kind_cast (hdr ! 4), f_flags = hdr ! 5, f_payload = payload \<rparr>"
    using assms(2) magic lim 2 3 unfolding recv_frame_def 1 h p c by (auto simp: L_def [symmetric] Let_def split: if_splits)
  note parts = recv_exact_sound [OF assms(1) 1 [unfolded h]] recv_exact_sound [OF assms(1) 2 [unfolded p]]
    recv_exact_sound [OF assms(1) 3 [unfolded c]]
  let ?d = "hdr @ payload @ crcb"
  have "L \<le> word_of_int kMaxFramePayload" using lim by (simp add: min_def not_less split: if_splits)
  then have L1: "uint L \<le> kMaxFramePayload" by (simp add: kMaxFramePayload_def word_le_def uint_word_of_int)
  moreover have "int (unat L) = uint L" by simp
  ultimately have L: "uint L \<le> kMaxFramePayload" "unat L \<le> 4194304" unfolding kMaxFramePayload_def by linarith+
  have len: "14 \<le> length ?d" "length ?d < 18446744073709551616" "length ?d = 10 + unat L + 4" using parts L(2) by simp_all
  have le: "le32 (hdr @ xs) = le32 hdr" "le32 (drop 6 hdr @ xs) = L" for xs
    using parts by (simp_all add: L_def le32_le_word)
  from read_magic [OF len(1,2)] obtain r where "read_u32 (reader_from ?d) = Some (kFrameMagic, r)" by (auto simp: le magic)
  from decode_frame_tail [OF len(1) this] have "decode_frame (Some ?d) = result_value f"
    using parts crc(1) L(1) by (simp add: le f nth_append)
  from decode_frame_value [OF this] show ?thesis using parts crc(2) by (metis append_assoc)
qed

lemma encode_frame_prefix_free:
  assumes "frame_wf f" "frame_wf g" "encode_frame g @ rest = take m (encode_frame f)"
  shows "g = f \<and> length (encode_frame f) \<le> m"
proof -
  have len: "14 \<le> length (take m (encode_frame f))" using arg_cong [OF assms(3), of length] by simp
  have "take 10 (take m (encode_frame f)) = frame_header f" using len by (simp add: encode_frame_eq)
  moreover have "take 10 (encode_frame g @ rest) = frame_header g" by (simp add: encode_frame_eq)
  ultimately have "le32 (drop 6 (frame_header g)) = le32 (drop 6 (frame_header f))" using assms(3) by simp
  then have "length (f_payload g) = length (f_payload f)"
    using payload_length [of "f_payload f"] payload_length [of "f_payload g"] assms(1,2)
    by (simp add: frame_wf_def)
  then have "length (encode_frame f) \<le> m" using arg_cong [OF assms(3), of length] by simp
  moreover from this have "encode_frame g @ rest = encode_frame f" using assms(3) by simp
  ultimately show ?thesis
    using \<open>length (f_payload g) = length (f_payload f)\<close> decode_encode_frame [OF assms(1)] decode_encode_frame [OF assms(2)]
    by (metis append_eq_append_conv append_Nil2 length_encode_frame result_value_inject)
qed

subsection \<open>Frames over a stream\<close>

text \<open>
  A peer that sends frames until a send fails, with the number of frames reported as sent, and a peer that receives
  frames until a receive fails, as the client loop of the coordinator does; \<open>fuel\<close> bounds the frames taken.
\<close>

fun send_frames :: "'w send_call \<Rightarrow> Frame list \<Rightarrow> 'w \<Rightarrow> nat \<times> 'w" where
  "send_frames send [] w = (0, w)"
| "send_frames send (f # fs) w =
     (let (st, w) = send_frame send f w
      in if status_ok st then (let (n, w) = send_frames send fs w in (Suc n, w)) else (0, w))"

fun recv_frames :: "'w recv_call \<Rightarrow> nat \<Rightarrow> 'w \<Rightarrow> Frame list \<times> 'w" where
  "recv_frames recv 0 w = ([], w)"
| "recv_frames recv (Suc fuel) w =
     (let (r, w) = recv_frame recv kMaxFramePayload w
      in case result_data r of
           None \<Rightarrow> ([], w)
         | Some f \<Rightarrow> let (fs, w) = recv_frames recv fuel w in (f # fs, w))"

lemma send_exact_prefix:
  assumes "stream_send send sent"
  shows "send_exact send bs w = (b, w') \<Longrightarrow>
    \<exists>m. sent w' = sent w @ take m bs \<and> (if b then m = length bs else m < length bs)"
proof (induction bs arbitrary: w rule: length_induct)
  case (1 bs)
  show ?case
  proof (cases "bs = []")
    case True
    then show ?thesis using 1(2) by (auto simp: send_exact.simps [of send "[]"])
  next
    case False
    obtain r w1 where r: "send bs w = (r, w1)" by fastforce
    have s: "r \<le> int (length bs)" "sent w1 = sent w @ take (nat r) bs"
      using assms [unfolded stream_send_def, rule_format, OF False, of w] by (simp_all add: r)
    show ?thesis
    proof (cases "r \<le> 0")
      case True
      then show ?thesis using 1(2) False s(2) by (intro exI [of _ 0]) (auto simp: send_exact.simps [of send bs] r)
    next
      case pos: False
      have "length (drop (nat r) bs) < length bs" using False pos by simp
      moreover have "send_exact send (drop (nat r) bs) w1 = (b, w')" using 1(2) False pos by (simp add: send_exact.simps [of send bs] r)
      ultimately obtain m where m: "sent w' = sent w1 @ take m (drop (nat r) bs)"
        "if b then m = length (drop (nat r) bs) else m < length (drop (nat r) bs)" using 1(1) by blast
      have "sent w' = sent w @ take (nat r + m) bs" using m(1) s(2) by (simp add: take_add)
      moreover have "nat r \<le> length bs" using s(1) by simp
      ultimately show ?thesis using m(2) by (intro exI [of _ "nat r + m"]) (auto split: if_splits)
    qed
  qed
qed

lemma send_frame_prefix:
  assumes "stream_send send sent" "frame_wf f" "send_frame send f w = (st, w')"
  shows "\<exists>m. sent w' = sent w @ take m (encode_frame f) \<and>
    (if status_ok st then m = length (encode_frame f) else m < length (encode_frame f))"
proof -
  obtain b w1 where b: "send_exact send (encode_frame f) w = (b, w1)" by fastforce
  have "\<not> kMaxFramePayload + 14 < int (length (encode_frame f))" using assms(2) by (simp add: frame_wf_def)
  then have "w' = w1" "status_ok st = b"
    using assms(3) b by (auto simp: send_frame_def protocol_error_def status_ok_def ok_def split: if_splits)
  then show ?thesis using send_exact_prefix [OF assms(1) b] by simp
qed

text \<open>What the sent frames put on the stream: the encodings of the frames reported as sent, then at most a part of the next.\<close>

lemma send_frames_stream:
  assumes "stream_send send sent"
  shows "\<forall>f \<in> set fs. frame_wf f \<Longrightarrow> send_frames send fs w = (n, w') \<Longrightarrow>
    n \<le> length fs \<and> (\<exists>torn. sent w' = sent w @ concat (map encode_frame (take n fs)) @ torn \<and>
      (torn = [] \<or> (\<exists>m. n < length fs \<and> torn = take m (encode_frame (fs ! n)) \<and> m < length (encode_frame (fs ! n)))))"
proof (induction fs arbitrary: w w' n)
  case (Cons f fs)
  obtain st w1 where st: "send_frame send f w = (st, w1)" by fastforce
  obtain k w2 where k: "send_frames send fs w1 = (k, w2)" by fastforce
  from send_frame_prefix [OF assms _ st] Cons.prems(1) obtain m where m: "sent w1 = sent w @ take m (encode_frame f)"
    "if status_ok st then m = length (encode_frame f) else m < length (encode_frame f)" by auto
  show ?case
  proof (cases "status_ok st")
    case True
    then have n: "n = Suc k" "w' = w2" using Cons.prems(2) by (simp_all add: st k)
    show ?thesis using Cons.IH [OF _ k] Cons.prems(1) m True by (simp add: n)
  next
    case False
    then have n: "n = 0" "w' = w1" using Cons.prems(2) by (simp_all add: st)
    then show ?thesis using m False by auto
  qed
qed simp

text \<open>A connection that always takes something takes every frame.\<close>

lemma send_exact_total:
  assumes "\<And>bs w. bs \<noteq> [] \<Longrightarrow> 0 < fst (send bs w)"
  shows "fst (send_exact send bs w)"
proof (induction bs arbitrary: w rule: length_induct)
  case (1 bs)
  show ?case
  proof (cases "bs = []")
    case False
    with assms [OF this, of w] have "fst (send_exact send (drop (nat (fst (send bs w))) bs) (snd (send bs w)))"
      by (intro 1 [rule_format]) simp
    then show ?thesis using assms [OF False, of w] False by (simp add: send_exact.simps [of send bs] split_beta)
  qed (simp add: send_exact.simps [of send "[]"])
qed

lemma send_frames_total:
  assumes "\<And>bs w. bs \<noteq> [] \<Longrightarrow> 0 < fst (send bs w)"
  shows "\<forall>f \<in> set fs. frame_wf f \<Longrightarrow> fst (send_frames send fs w) = length fs"
proof (induction fs arbitrary: w)
  case (Cons f fs)
  have "\<not> kMaxFramePayload + 14 < int (length (encode_frame f))" using Cons.prems by (simp add: frame_wf_def)
  moreover have "fst (send_exact send (encode_frame f) w)" using assms by (rule send_exact_total)
  ultimately have "fst (send_frame send f w) = ok" by (simp add: send_frame_def split_beta)
  then show ?case using Cons by (simp add: split_beta status_ok_def ok_def)
qed simp

text \<open>A receive that fails has not seen a complete frame.\<close>

lemma recv_frame_data: "result_data (fst (recv_frame recv lim w)) = Some f \<Longrightarrow> fst (recv_frame recv lim w) = result_value f"
  by (auto simp: recv_frame_def Let_def split: option.splits prod.splits if_splits)

lemma recv_frame_torn:
  assumes "stream_recv recv pending" "torn = [] \<or> (\<exists>f m. frame_wf f \<and> torn = take m (encode_frame f) \<and> m < length (encode_frame f))"
    "pending w = torn"
  shows "result_data (fst (recv_frame recv kMaxFramePayload w)) = None"
proof (rule ccontr)
  assume "result_data (fst (recv_frame recv kMaxFramePayload w)) \<noteq> None"
  then obtain g w1 where "recv_frame recv kMaxFramePayload w = (result_value g, w1)"
    using recv_frame_data [of recv kMaxFramePayload w] by (metis not_None_eq prod.collapse)
  then have g: "torn = encode_frame g @ pending w1" "frame_wf g"
    using recv_frame_sound [OF assms(1)] assms(3) by auto
  then have "torn \<noteq> []" by (simp add: encode_frame_eq frame_header_def)
  with assms(2) obtain f m where f: "frame_wf f" "torn = take m (encode_frame f)" "m < length (encode_frame f)" by blast
  have "encode_frame g @ pending w1 = take m (encode_frame f)" using g(1) f(2) by simp
  from encode_frame_prefix_free [OF f(1) g(2) this] f(3) show False by linarith
qed

lemma recv_frames_stream:
  assumes "stream_recv recv pending" "torn = [] \<or> (\<exists>f m. frame_wf f \<and> torn = take m (encode_frame f) \<and> m < length (encode_frame f))"
  shows "\<forall>f \<in> set fs. frame_wf f \<Longrightarrow> pending w = concat (map encode_frame fs) @ torn \<Longrightarrow> length fs < fuel \<Longrightarrow>
    fst (recv_frames recv fuel w) = fs"
proof (induction fs arbitrary: w fuel)
  case Nil
  obtain k where k: "fuel = Suc k" using Nil.prems(3) by (cases fuel) auto
  have "result_data (fst (recv_frame recv kMaxFramePayload w)) = None"
    using recv_frame_torn [OF assms] Nil.prems(2) by simp
  then show ?case by (simp add: k split_beta)
next
  case (Cons f fs)
  obtain k where k: "fuel = Suc k" using Cons.prems(3) by (cases fuel) auto
  have "\<exists>w'. recv_frame recv kMaxFramePayload w = (result_value f, w') \<and> pending w' = concat (map encode_frame fs) @ torn"
    using Cons.prems by (intro recv_frame_delivers [OF assms(1)]) (simp_all add: frame_wf_def, simp add: kMaxFramePayload_def)
  then obtain w' where w': "recv_frame recv kMaxFramePayload w = (result_value f, w')" "pending w' = concat (map encode_frame fs) @ torn"
    by blast
  have "fst (recv_frames recv k w') = fs" using Cons.IH [OF _ w'(2)] Cons.prems(1,3) k by simp
  then show ?case by (simp add: k w'(1) split_beta)
qed

text \<open>A frame, and streams that move at most five and at most three bytes at a time, for the concrete instances below.\<close>

definition sample_frame :: "FrameKind \<Rightarrow> Frame" where
  "sample_frame k = \<lparr> f_kind = k, f_flags = 0, f_payload = [1, 2, 3, 5] \<rparr>"

definition narrow_send :: "bytes send_call" where
  "narrow_send bs w = (int (min 5 (length bs)), w @ take 5 bs)"

definition narrow_recv :: "bytes recv_call" where
  "narrow_recv n w = (Some (take (min n 3) w), drop (min n 3) w)"

lemma narrow_streams: "stream_send narrow_send (\<lambda>w. w)" "stream_recv narrow_recv (\<lambda>w. w)"
  by (auto simp: stream_send_def stream_recv_def narrow_send_def narrow_recv_def min_def)

lemma sample_frame_wf: "k \<in> {FK_Hello, FK_Evidence, FK_Shutdown} \<Longrightarrow> frame_wf (sample_frame k)"
  by (auto simp: frame_wf_def sample_frame_def kMaxFramePayload_def frame_kind_cast_def)

section \<open>Properties\<close>

text \<open>
  Property C27.  The frame decoder accepts exactly the encodings of frames: it returns a frame if and only if the input is
  the encoding of that frame, its kind byte read back and its payload within the limit.
\<close>

theorem frame_codec_exact:
  "decode_frame (Some d) = result_value f \<longleftrightarrow> d = encode_frame f \<and> frame_wf f"
  using decode_frame_value decode_encode_frame by blast

text \<open>
  A frame damaged in transit is rejected: whatever up to four adjacent bytes of an encoding are changed
  into, header, payload or checksum, the decoder reports an error.
\<close>

theorem frame_burst_rejected:
  assumes "encode_frame f = u @ v @ w" "length v' = length v" "length v \<le> 4" "v' \<noteq> v"
  shows "\<not> result_ok (decode_frame (Some (u @ v' @ w)))"
proof
  assume ok: "result_ok (decode_frame (Some (u @ v' @ w)))"
  then obtain g where "decode_frame (Some (u @ v' @ w)) = result_value g"
    using decode_frame_cases [of "Some (u @ v' @ w)"] by (auto simp: persistence_corrupt_def protocol_error_def status_ok_def)
  then have "u @ v' @ w = encode_frame g" using decode_frame_value by blast
  then have "foldl crc32_step 0xFFFFFFFF (u @ v' @ w) = foldl crc32_step 0xFFFFFFFF (u @ v @ w)"
    using encode_frame_residue assms(1) by metis
  then show False using burst_detected [of v' v "0xFFFFFFFF" u w] assms(2-4) by simp
qed

theorem frame_burst_rejected_witness:
  "\<not> result_ok (decode_frame (Some (frame_header (sample_frame FK_Hello) @ [1, 2, 3, 6] @
     write_u32 (crc32_bytes (frame_header (sample_frame FK_Hello) @ [1, 2, 3, 5])))))"
  by (rule frame_burst_rejected [of "sample_frame FK_Hello" _ "[1, 2, 3, 5]"]) (simp_all add: encode_frame_eq sample_frame_def)

text \<open>
  Frames arrive complete, in order and unaltered over any stream, however the stream splits what is sent
  and received: a receiver that reads what a sender put on the stream gets exactly the frames whose sending was
  reported as successful and then an error, and never a frame of which only a part was sent.
\<close>

theorem frames_delivered_in_order:
  assumes "stream_send send sent" "stream_recv recv pending" "\<forall>f \<in> set fs. frame_wf f" "sent w = []"
    "send_frames send fs w = (n, w')" "pending v = sent w'" "length fs < fuel"
  shows "fst (recv_frames recv fuel v) = take n fs"
proof -
  from send_frames_stream [OF assms(1,3,5)] obtain torn where n: "n \<le> length fs"
    and torn: "sent w' = concat (map encode_frame (take n fs)) @ torn"
      "torn = [] \<or> (\<exists>m. n < length fs \<and> torn = take m (encode_frame (fs ! n)) \<and> m < length (encode_frame (fs ! n)))"
    using assms(4) by auto
  have "torn = [] \<or> (\<exists>f m. frame_wf f \<and> torn = take m (encode_frame f) \<and> m < length (encode_frame f))"
    using torn(2) assms(3) nth_mem by blast
  then show ?thesis
    using recv_frames_stream [OF assms(2), of torn "take n fs" v fuel] assms(3,6,7) torn(1) n by (auto dest: in_set_takeD)
qed

theorem frames_delivered_in_order_witness:
  "fst (recv_frames narrow_recv 3 (snd (send_frames narrow_send [sample_frame FK_Hello, sample_frame FK_Evidence] []))) =
     [sample_frame FK_Hello, sample_frame FK_Evidence]"
proof -
  let ?fs = "[sample_frame FK_Hello, sample_frame FK_Evidence]"
  have "fst (send_frames narrow_send ?fs []) = length ?fs"
    by (rule send_frames_total) (simp_all add: narrow_send_def sample_frame_wf)
  then have s: "send_frames narrow_send ?fs [] = (2, snd (send_frames narrow_send ?fs []))" by (metis prod.collapse length_Cons list.size(3) numeral_2_eq_2)
  have wf: "\<forall>f \<in> set ?fs. frame_wf f" by (simp add: sample_frame_wf)
  show ?thesis
    using frames_delivered_in_order [where sent = "\<lambda>w. w" and pending = "\<lambda>w. w", OF narrow_streams wf refl s refl, of 3] by simp
qed

end
