(* ===== verification/Protocol.thy ===== *)
theory Protocol
  imports Net Codecs
begin

text \<open>
  The payloads of the distributed protocol (\<^verbatim>\<open>distributed_protocol.hpp\<close>): registration, its acknowledgement, evidence and
  the reply to an evaluation request.  The arguments of an encoder, which are the out-parameters of its decoder, are the
  fields of a record; every pair is a codec in the sense of \<^verbatim>\<open>Binary\<close>.  None of the decoders asks whether the payload
  is exhausted.
\<close>

unbundle bit_operations_syntax

definition kDefaultPort :: u16 where
  "kDefaultPort = 45700"

section \<open>Messages\<close>

record Hello =
  hl_name :: string
  hl_boot :: u64
  hl_epoch :: u64

definition encode_hello :: "Hello \<Rightarrow> bytes" where
  "encode_hello h = write_string (hl_name h) @ write_u64 (hl_boot h) @ write_u64 (hl_epoch h)"

definition read_hello :: "Hello read" where
  "read_hello r = do {
     (name, r) \<leftarrow> read_string 256 r;
     (boot, r) \<leftarrow> read_u64 r;
     (epoch, r) \<leftarrow> read_u64 r;
     Some (\<lparr> hl_name = name, hl_boot = boot, hl_epoch = epoch \<rparr>, r) }"

definition decode_hello :: "bytes \<Rightarrow> Hello option" where
  "decode_hello p = map_option fst (read_hello (reader_from p))"

text \<open>The out-parameter \<^verbatim>\<open>boot_id\<close> after a call that may have failed: it keeps its value if the call failed before it.\<close>

definition decode_hello_boot :: "bytes \<Rightarrow> u64 \<Rightarrow> u64" where
  "decode_hello_boot p boot0 =
     (case do { (name, r) \<leftarrow> read_string 256 (reader_from p); read_u64 r } of
        None \<Rightarrow> boot0
      | Some (boot, _) \<Rightarrow> boot)"

record Ack =
  ak_epoch :: u64
  ak_granted_boot :: u64
  ak_status_code :: int
  ak_status :: string

definition encode_ack :: "Ack \<Rightarrow> bytes" where
  "encode_ack a =
     write_u64 (ak_epoch a) @ write_u64 (ak_granted_boot a) @ write_u8 (word_of_int (ak_status_code a)) @ write_string (ak_status a)"

definition read_ack :: "Ack read" where
  "read_ack r = do {
     (epoch, r) \<leftarrow> read_u64 r;
     (granted_boot, r) \<leftarrow> read_u64 r;
     (sc, r) \<leftarrow> read_u8 r;
     (status, r) \<leftarrow> read_string 512 r;
     Some (\<lparr> ak_epoch = epoch, ak_granted_boot = granted_boot, ak_status_code = uint sc, ak_status = status \<rparr>, r) }"

definition decode_ack :: "bytes \<Rightarrow> Ack option" where
  "decode_ack p = map_option fst (read_ack (reader_from p))"

text \<open>The out-parameter \<^verbatim>\<open>status_code\<close> after a call that may have failed.\<close>

definition decode_ack_code :: "bytes \<Rightarrow> int \<Rightarrow> int" where
  "decode_ack_code p code0 =
     (case do { (epoch, r) \<leftarrow> read_u64 (reader_from p); (granted_boot, r) \<leftarrow> read_u64 r; read_u8 r } of
        None \<Rightarrow> code0
      | Some (sc, _) \<Rightarrow> uint sc)"

record EvidenceMsg =
  em_objective_id :: u64
  em_dimension :: u8
  em_value :: double
  em_sample_count :: i64
  em_time_ns :: i64
  em_boot_id :: u64
  em_epoch :: u64

definition encode_evidence :: "EvidenceMsg \<Rightarrow> bytes" where
  "encode_evidence m =
     write_u64 (em_objective_id m) @ write_u8 (em_dimension m) @ write_double (em_value m) @ write_i64 (em_sample_count m) @
     write_i64 (em_time_ns m) @ write_u64 (em_boot_id m) @ write_u64 (em_epoch m)"

definition read_evidence :: "EvidenceMsg read" where
  "read_evidence r = do {
     (objective_id, r) \<leftarrow> read_u64 r;
     (dimension, r) \<leftarrow> read_u8 r;
     (v, r) \<leftarrow> read_double r;
     (sample_count, r) \<leftarrow> read_i64 r;
     (time_ns, r) \<leftarrow> read_i64 r;
     (boot_id, r) \<leftarrow> read_u64 r;
     (epoch, r) \<leftarrow> read_u64 r;
     Some (\<lparr> em_objective_id = objective_id, em_dimension = dimension, em_value = v, em_sample_count = sample_count,
       em_time_ns = time_ns, em_boot_id = boot_id, em_epoch = epoch \<rparr>, r) }"

definition decode_evidence :: "bytes \<Rightarrow> EvidenceMsg option" where
  "decode_evidence p = map_option fst (read_evidence (reader_from p))"

record Reply =
  rp_epoch :: u64
  rp_contract_gen :: u64
  rp_policy_gen :: u64
  rp_compliance :: u8
  rp_binding_dim :: u8
  rp_action :: u8
  rp_objective_id :: u64
  rp_measured :: double
  rp_text :: string

definition encode_reply :: "Reply \<Rightarrow> bytes" where
  "encode_reply m =
     write_u64 (rp_epoch m) @ write_u64 (rp_contract_gen m) @ write_u64 (rp_policy_gen m) @ write_u8 (rp_compliance m) @
     write_u8 (rp_binding_dim m) @ write_u8 (rp_action m) @ write_u64 (rp_objective_id m) @ write_double (rp_measured m) @
     write_string (rp_text m)"

definition read_reply :: "Reply read" where
  "read_reply r = do {
     (epoch, r) \<leftarrow> read_u64 r;
     (contract_gen, r) \<leftarrow> read_u64 r;
     (policy_gen, r) \<leftarrow> read_u64 r;
     (compliance, r) \<leftarrow> read_u8 r;
     (binding_dim, r) \<leftarrow> read_u8 r;
     (action, r) \<leftarrow> read_u8 r;
     (objective_id, r) \<leftarrow> read_u64 r;
     (measured, r) \<leftarrow> read_double r;
     (txt, r) \<leftarrow> read_string 2048 r;
     Some (\<lparr> rp_epoch = epoch, rp_contract_gen = contract_gen, rp_policy_gen = policy_gen, rp_compliance = compliance,
       rp_binding_dim = binding_dim, rp_action = action, rp_objective_id = objective_id, rp_measured = measured,
       rp_text = txt \<rparr>, r) }"

definition decode_reply :: "bytes \<Rightarrow> Reply option" where
  "decode_reply p = map_option fst (read_reply (reader_from p))"

section \<open>The messages are codecs\<close>

definition hello_wf :: "Hello \<Rightarrow> bool" where
  "hello_wf h \<longleftrightarrow> length (hl_name h) \<le> 256"

definition ack_wf :: "Ack \<Rightarrow> bool" where
  "ack_wf a \<longleftrightarrow> 0 \<le> ak_status_code a \<and> ak_status_code a < 256 \<and> length (ak_status a) \<le> 512"

definition evidence_wf :: "EvidenceMsg \<Rightarrow> bool" where
  "evidence_wf m \<longleftrightarrow> in_i64 (em_sample_count m) \<and> in_i64 (em_time_ns m)"

definition reply_wf :: "Reply \<Rightarrow> bool" where
  "reply_wf m \<longleftrightarrow> length (rp_text m) \<le> 2048"

interpretation hello: codec encode_hello read_hello hello_wf
proof
  fix h pre rest assume "hello_wf h" "fits pre (encode_hello h @ rest)"
  then show "read_hello (at pre (encode_hello h @ rest)) = Some (h, at (pre @ encode_hello h) rest)"
    by (simp add: read_hello_def encode_hello_def hello_wf_def codec_simps)
next
  show "reads read_hello hello_wf" unfolding read_hello_def by (rule reads_intros | simp add: hello_wf_def)+
qed

lemma byte_bound: "uint (b :: u8) < 256"
  using uint_bounded [of b] by simp

interpretation ack: codec encode_ack read_ack ack_wf
proof
  fix a pre rest assume "ack_wf a" "fits pre (encode_ack a @ rest)"
  then show "read_ack (at pre (encode_ack a @ rest)) = Some (a, at (pre @ encode_ack a) rest)"
    by (simp add: read_ack_def encode_ack_def ack_wf_def codec_simps uint_word_of_int)
next
  show "reads read_ack ack_wf"
    unfolding read_ack_def by (rule reads_intros | simp add: ack_wf_def byte_bound)+
qed

interpretation evd: codec encode_evidence read_evidence evidence_wf
proof
  fix m pre rest assume "evidence_wf m" "fits pre (encode_evidence m @ rest)"
  then show "read_evidence (at pre (encode_evidence m @ rest)) = Some (m, at (pre @ encode_evidence m) rest)"
    by (simp add: read_evidence_def encode_evidence_def evidence_wf_def codec_simps)
next
  show "reads read_evidence evidence_wf" unfolding read_evidence_def by (rule reads_intros | simp add: evidence_wf_def)+
qed

interpretation rpl: codec encode_reply read_reply reply_wf
proof
  fix m pre rest assume "reply_wf m" "fits pre (encode_reply m @ rest)"
  then show "read_reply (at pre (encode_reply m @ rest)) = Some (m, at (pre @ encode_reply m) rest)"
    by (simp add: read_reply_def encode_reply_def reply_wf_def codec_simps)
next
  show "reads read_reply reply_wf" unfolding read_reply_def by (rule reads_intros | simp add: reply_wf_def)+
qed

lemma message_lengths:
  "hello_wf h \<Longrightarrow> length (encode_hello h) \<le> 4096" "ack_wf a \<Longrightarrow> length (encode_ack a) \<le> 4096"
  "length (encode_evidence e) \<le> 4096" "reply_wf m \<Longrightarrow> length (encode_reply m) \<le> 4096"
  by (simp_all add: encode_hello_def encode_ack_def encode_evidence_def encode_reply_def hello_wf_def ack_wf_def reply_wf_def
      write_string_def write_double_def)

lemma decode_encode:
  assumes "length rest < 9223372036854775808"
  shows "hello_wf h \<Longrightarrow> decode_hello (encode_hello h @ rest) = Some h"
    "ack_wf a \<Longrightarrow> decode_ack (encode_ack a @ rest) = Some a"
    "evidence_wf e \<Longrightarrow> decode_evidence (encode_evidence e @ rest) = Some e"
    "reply_wf m \<Longrightarrow> decode_reply (encode_reply m @ rest) = Some m"
  using assms hello.decode_encode [of h "[]" rest] ack.decode_encode [of a "[]" rest] evd.decode_encode [of e "[]" rest]
    rpl.decode_encode [of m "[]" rest] message_lengths(1) [of h] message_lengths(2) [of a]
    message_lengths(3) [of e] message_lengths(4) [of m]
  by (simp_all add: decode_hello_def decode_ack_def decode_evidence_def decode_reply_def at_Nil fits_def)

end
