(* ===== verification/Coordinator.thy ===== *)
theory Coordinator
  imports Restart Protocol Engine_Run
begin

text \<open>
  The coordinator of the distributed proof (\<^verbatim>\<open>coordinator_main.cpp\<close>): its global variables as a record, the scenario it
  installs, the treatment of each kind of frame, the monitor thread and the start-up that loads the state file.

  One handler runs per client.  A frame is treated as one step, and so is one pass of the monitor; steps of
  different clients and of the monitor interleave freely.  \<open>None\<close> is the undefined evaluation of a contract without
  objectives.
\<close>

section \<open>Globals\<close>

definition kLatencyObjId :: u64 where
  "kLatencyObjId = 1"

definition kRecoveryObjId :: u64 where
  "kRecoveryObjId = 2"

definition kAvailObjId :: u64 where
  "kAvailObjId = 3"

record WorkerInfo =
  wi_name :: string
  wi_boot_id :: u64
  wi_last_hb_ms :: i64
  wi_alive :: bool

text \<open>A socket handle is an \<^verbatim>\<open>int\<close>.  \<open>co_exited\<close> says that the process has called \<^verbatim>\<open>_Exit\<close>; \<open>co_disk\<close> is the file system.\<close>

type_synonym socket_handle = int

record Coordinator =
  co_fabric :: Impl
  co_epoch :: CoordinatorEpoch
  co_workers :: "(socket_handle \<times> WorkerInfo) list"
  co_seen_boots :: "string \<rightharpoonup> u64 list"
  co_state_file :: path
  co_down_a :: bool
  co_recovery_auth :: bool
  co_recovery_verified :: bool
  co_next_evidence :: u64
  co_disk :: FileSystem
  co_exited :: bool

text \<open>
  What a step reads from its environment: the successive readings of the steady clock in milliseconds, the contents of
  an uninitialised local variable, the iteration order of the accumulators and the outcome of a write to disk.
\<close>

record Env =
  en_now_ms :: "nat \<Rightarrow> i64"
  en_uninit :: u64
  en_order :: iteration_order
  en_write :: WriteOutcome

definition now_dur :: "i64 \<Rightarrow> Duration" where
  "now_dur ms = Duration (wrap64 (ms * 1000000))"

section \<open>Scenario\<close>

definition scenario_policy :: SloPolicy where
  "scenario_policy = \<lparr> p_id = Id 1, p_gen = Gen 1, p_mode = PM_HardThenSoft, p_tie_break = TB_ByName,
     p_name = ''distributed'', p_description = ''distributed proof policy'' \<rparr>"

definition scenario_latency :: Objective where
  "scenario_latency = default_objective\<lparr> o_id := Id kLatencyObjId, o_gen := Gen 1, o_name := ''p99-latency'', o_dim := Dim_Latency,
     o_kind := K_LatencyPercentile, o_percentile_rank := dec 99 100, o_comparison := AtMost, o_hard := Hard,
     o_target := VDuration (milliseconds 120), o_min_evidence := Count 16, o_window_type := WT_Sliding,
     o_window_duration := seconds 5, o_window_count := Count 64 \<rparr>"

definition scenario_recovery :: Objective where
  "scenario_recovery = default_objective\<lparr> o_id := Id kRecoveryObjId, o_gen := Gen 1, o_name := ''rto'', o_dim := Dim_RecoveryTime,
     o_kind := K_RecoveryMaxDuration, o_comparison := AtMost, o_hard := Hard, o_target := VDuration (seconds 4) \<rparr>"

definition scenario_availability :: Objective where
  "scenario_availability = default_objective\<lparr> o_id := Id kAvailObjId, o_gen := Gen 1, o_name := ''avail'', o_dim := Dim_Availability,
     o_kind := K_AvailabilityRequest, o_comparison := AtLeast, o_hard := Hard, o_target := VBasisPoints (BasisPoints 9990) \<rparr>"

definition scenario_contract :: "CoordinatorEpoch \<Rightarrow> SloContract" where
  "scenario_contract epoch = \<lparr> c_id = Id 1, c_gen = Gen 1, c_service = Id 100, c_workload = Id 200, c_tenant = Id 1,
     c_objectives = [scenario_latency, scenario_recovery, scenario_availability], c_policy_id = p_id scenario_policy,
     c_policy_gen = p_gen scenario_policy, c_effective_from = Duration 0, c_expiration = None, c_epoch = epoch,
     c_lifecycle = CL_Active, c_name = ''dist-contract'', c_provenance = ''test'' \<rparr>"

definition set_scenario :: "i64 \<Rightarrow> Coordinator \<Rightarrow> Coordinator" where
  "set_scenario ms co =
     (let s = snd (set_policy scenario_policy (co_fabric co));
          s = snd (add_contract (scenario_contract (co_epoch co)) s);
          s = snd (activate_contract (Id 1) (now_dur ms) s)
      in co\<lparr> co_fabric := s \<rparr>)"

section \<open>Evidence\<close>

definition latency_evidence :: "u64 \<Rightarrow> i64 \<Rightarrow> u64 \<Rightarrow> double \<Rightarrow> Coordinator \<Rightarrow> EvidenceRecord" where
  "latency_evidence i ms boot latency_ns co =
     default_evidence\<lparr> e_id := Id i, e_gen := Gen 1, e_dimension := Dim_Latency,
       e_objective_id := Id kLatencyObjId, e_objective_gen := Gen 1, e_source := Id boot, e_source_gen := Gen 1,
       e_epoch := co_epoch co, e_time := now_dur ms, e_provenance := PV_Measured,
       e_value := VDuration (Duration (d_to_i64 latency_ns)) \<rparr>"

definition availability_evidence :: "u64 \<Rightarrow> i64 \<Rightarrow> u64 \<Rightarrow> double \<Rightarrow> i64 \<Rightarrow> Coordinator \<Rightarrow> EvidenceRecord" where
  "availability_evidence i ms boot bp sample_count co =
     default_evidence\<lparr> e_id := Id i, e_gen := Gen 1, e_dimension := Dim_Availability,
       e_objective_id := Id kAvailObjId, e_objective_gen := Gen 1, e_source := Id boot, e_source_gen := Gen 1,
       e_epoch := co_epoch co, e_time := now_dur ms, e_provenance := PV_Measured,
       e_value := VBasisPoints (BasisPoints (d_to_i64 bp)), e_sample_count := Count sample_count \<rparr>"

text \<open>\<^verbatim>\<open>g_next_evidence++\<close> writes back one more than the value that was read; \<^verbatim>\<open>ingest\<close> follows with the time of the evidence.\<close>

definition bump_evidence :: "u64 \<Rightarrow> Coordinator \<Rightarrow> Coordinator" where
  "bump_evidence i co = co\<lparr> co_next_evidence := i + 1 \<rparr>"

definition ingest_now :: "EvidenceRecord \<Rightarrow> Coordinator \<Rightarrow> Coordinator" where
  "ingest_now e co = co\<lparr> co_fabric := snd (ingest e (e_time e) (co_fabric co)) \<rparr>"

definition ingest_latency :: "i64 \<Rightarrow> u64 \<Rightarrow> double \<Rightarrow> Coordinator \<Rightarrow> Coordinator" where
  "ingest_latency ms boot latency_ns co =
     (let i = co_next_evidence co; co = bump_evidence i co in ingest_now (latency_evidence i ms boot latency_ns co) co)"

definition ingest_availability :: "i64 \<Rightarrow> u64 \<Rightarrow> double \<Rightarrow> i64 \<Rightarrow> Coordinator \<Rightarrow> Coordinator" where
  "ingest_availability ms boot bp sample_count co =
     (let i = co_next_evidence co; co = bump_evidence i co
      in ingest_now (availability_evidence i ms boot bp sample_count co) co)"

definition recovery_phase :: "RecoveryEventPhase \<Rightarrow> i64 \<Rightarrow> Coordinator \<Rightarrow> Coordinator" where
  "recovery_phase ph ms co =
     co\<lparr> co_fabric := snd (record_recovery_event (Id kRecoveryObjId) ph (now_dur ms) (co_fabric co)) \<rparr>"

section \<open>Monitor\<close>

text \<open>The body of the loop for one entry of the map, and one pass over the map in key order.\<close>

definition monitor_worker :: "Env \<Rightarrow> WorkerInfo \<Rightarrow> Coordinator \<Rightarrow> Coordinator" where
  "monitor_worker env w co =
     (if \<not> wi_alive w then co
      else if wi_name w = ''A'' \<and> \<not> co_down_a co \<and> 2000 < en_now_ms env 0 - wi_last_hb_ms w
      then ingest_availability (en_now_ms env 3) (wi_boot_id w) dzero 1
             (recovery_phase REP_Authoritative (en_now_ms env 2)
               (recovery_phase REP_Observed (en_now_ms env 1)
                 (co\<lparr> co_down_a := True, co_recovery_auth := True \<rparr>)))
      else co)"

definition monitor_pass :: "Env \<Rightarrow> Coordinator \<Rightarrow> Coordinator" where
  "monitor_pass env co = fold (\<lambda>(_, w). monitor_worker env w) (co_workers co) co"

section \<open>Clients\<close>

text \<open>How a handler goes on after a frame: with the next one, by returning, by leaving the loop, or not at all.\<close>

datatype ClientOutcome = CO_continue | CO_return | CO_break | CO_exit

definition ack_frame :: "u64 \<Rightarrow> u64 \<Rightarrow> int \<Rightarrow> string \<Rightarrow> Frame" where
  "ack_frame epoch boot code txt = \<lparr> f_kind = FK_RegisterAck, f_flags = 0,
     f_payload = encode_ack \<lparr> ak_epoch = epoch, ak_granted_boot = boot, ak_status_code = code, ak_status = txt \<rparr> \<rparr>"

text \<open>The section under \<^verbatim>\<open>g_mu\<close> that fences the boot id and enters the worker, with the reply that follows.\<close>

definition register_worker :: "i64 \<Rightarrow> socket_handle \<Rightarrow> Hello \<Rightarrow> Coordinator \<Rightarrow> ClientOutcome \<times> Frame list \<times> Coordinator" where
  "register_worker ms sock h co =
     (let seen = (case co_seen_boots co (hl_name h) of None \<Rightarrow> [] | Some bs \<Rightarrow> bs);
          co = co\<lparr> co_seen_boots := (co_seen_boots co)(hl_name h \<mapsto> seen) \<rparr>
      in if hl_boot h \<in> set seen
         then (CO_return, [ack_frame (gen_value (co_epoch co)) (hl_boot h) 2 ''stale boot id''], co)
         else let w = \<lparr> wi_name = hl_name h, wi_boot_id = hl_boot h, wi_last_hb_ms = ms, wi_alive = True \<rparr>;
                  co = co\<lparr> co_seen_boots := (co_seen_boots co)(hl_name h \<mapsto> seen @ [hl_boot h]),
                           co_workers := map_assign sock w (co_workers co) \<rparr>
              in (CO_continue, [ack_frame (gen_value (co_epoch co)) (hl_boot h) 0 ''ok''], co))"

definition handle_hello :: "Env \<Rightarrow> socket_handle \<Rightarrow> bytes \<Rightarrow> Coordinator \<Rightarrow> ClientOutcome \<times> Frame list \<times> Coordinator" where
  "handle_hello env sock payload co =
     (case decode_hello payload of
        None \<Rightarrow> (CO_return, [ack_frame 0 (decode_hello_boot payload (en_uninit env)) 99 ''malformed hello''], co)
      | Some h \<Rightarrow>
     if hl_epoch h \<noteq> gen_value (co_epoch co)
     then (CO_return, [ack_frame (gen_value (co_epoch co)) (hl_boot h) 1 ''stale epoch''], co)
     else register_worker (en_now_ms env 0) sock h co)"

definition heartbeat :: "i64 \<Rightarrow> socket_handle \<Rightarrow> Coordinator \<Rightarrow> Coordinator" where
  "heartbeat ms sock co =
     (case map_of (co_workers co) sock of
        None \<Rightarrow> co
      | Some w \<Rightarrow> co\<lparr> co_workers := map_assign sock (w\<lparr> wi_last_hb_ms := ms \<rparr>) (co_workers co) \<rparr>)"

definition handle_evidence :: "Env \<Rightarrow> socket_handle \<Rightarrow> bytes \<Rightarrow> Coordinator \<Rightarrow> Coordinator" where
  "handle_evidence env sock payload co =
     heartbeat (en_now_ms env 3) sock
       (case decode_evidence payload of
          None \<Rightarrow> co
        | Some m \<Rightarrow>
            if em_epoch m \<noteq> gen_value (co_epoch co) then co
            else if em_dimension m = 0 then
              (let co = ingest_latency (en_now_ms env 0) (em_boot_id m) (em_value m) co
               in if co_recovery_auth co \<and> \<not> co_recovery_verified co \<and> em_boot_id m \<noteq> 1001
                  then (recovery_phase REP_Verified (en_now_ms env 2) (recovery_phase REP_Restored (en_now_ms env 1) co))
                         \<lparr> co_recovery_verified := True \<rparr>
                  else co)
            else if em_dimension m = 2
            then ingest_availability (en_now_ms env 0) (em_boot_id m) (em_value m) (em_sample_count m) co
            else co)"

definition reply_of :: "CoordinatorEpoch \<Rightarrow> EvaluationResult Result \<Rightarrow> Reply" where
  "reply_of epoch res =
     (case (result_ok res, result_data res) of
        (True, Some er) \<Rightarrow>
          (let ex = er_explanation er;
               measured = (case ex_objectives ex of
                             os # _ \<Rightarrow> (case os_current_value os of Some v \<Rightarrow> numeric_of v | None \<Rightarrow> dzero)
                           | [] \<Rightarrow> dzero)
           in \<lparr> rp_epoch = gen_value epoch, rp_contract_gen = gen_value (ex_contract_gen ex),
                rp_policy_gen = gen_value (ex_policy_gen ex), rp_compliance = enum_code compliance_states (ex_compliance ex),
                rp_binding_dim = enum_code dimensions (ex_binding_dimension ex), rp_action = action_code (i_action (er_intent er)),
                rp_objective_id = id_value (ex_binding_objective ex), rp_measured = measured,
                rp_text = compliance_state_name (ex_compliance ex) @ '';'' @ dimension_name (ex_binding_dimension ex) \<rparr>)
      | _ \<Rightarrow> \<lparr> rp_epoch = gen_value epoch, rp_contract_gen = 0, rp_policy_gen = 0, rp_compliance = 5, rp_binding_dim = 0,
               rp_action = 0, rp_objective_id = 0, rp_measured = dzero, rp_text = status_message (result_status res) \<rparr>)"

definition handle_evaluate :: "Env \<Rightarrow> Coordinator \<Rightarrow> (Frame list \<times> Coordinator) option" where
  "handle_evaluate env co =
     (case evaluate (Id 100) (Id 200) (now_dur (en_now_ms env 0)) (co_fabric co) of
        None \<Rightarrow> None
      | Some (res, s) \<Rightarrow>
          Some ([\<lparr> f_kind = FK_EvaluateReply, f_flags = 0, f_payload = encode_reply (reply_of (co_epoch co) res) \<rparr>],
                co\<lparr> co_fabric := s \<rparr>))"

definition save_on_request :: "Env \<Rightarrow> Coordinator \<Rightarrow> Coordinator" where
  "save_on_request env co =
     (if co_state_file co = [] then co
      else co\<lparr> co_disk := snd (save (en_order env) (en_write env) (co_state_file co) (co_fabric co) (co_disk co)) \<rparr>)"

definition handle_frame :: "Env \<Rightarrow> socket_handle \<Rightarrow> Frame \<Rightarrow> Coordinator \<Rightarrow> (ClientOutcome \<times> Frame list \<times> Coordinator) option" where
  "handle_frame env sock f co =
     (if f_kind f = FK_Hello then Some (handle_hello env sock (f_payload f) co)
      else if f_kind f = FK_Evidence then Some (CO_continue, [], handle_evidence env sock (f_payload f) co)
      else if f_kind f = FK_Heartbeat then Some (CO_continue, [], heartbeat (en_now_ms env 0) sock co)
      else if f_kind f = FK_EvaluateRequest
      then map_option (\<lambda>(replies, co). (CO_continue, replies, co)) (handle_evaluate env co)
      else if f_kind f = FK_Kill then Some (CO_exit, [], (save_on_request env co)\<lparr> co_exited := True \<rparr>)
      else if f_kind f = FK_Shutdown then Some (CO_break, [], save_on_request env co)
      else Some (CO_continue, [], co))"

text \<open>The end of the loop: the worker of the connection is forgotten.\<close>

definition client_end :: "socket_handle \<Rightarrow> Coordinator \<Rightarrow> Coordinator" where
  "client_end sock co = co\<lparr> co_workers := filter (\<lambda>p. fst p \<noteq> sock) (co_workers co) \<rparr>"

text \<open>One turn of \<^verbatim>\<open>handle_client\<close>: \<open>None\<close> stands for a failed \<^verbatim>\<open>recv_frame\<close>.\<close>

definition client_turn :: "Env \<Rightarrow> socket_handle \<Rightarrow> Frame option \<Rightarrow> Coordinator \<Rightarrow> (ClientOutcome \<times> Frame list \<times> Coordinator) option" where
  "client_turn env sock received co =
     (case received of
        None \<Rightarrow> Some (CO_break, [], client_end sock co)
      | Some f \<Rightarrow>
          map_option (\<lambda>(out, replies, co). (out, replies, if out = CO_break then client_end sock co else co))
            (handle_frame env sock f co))"

section \<open>Start\<close>

definition initial_coordinator :: "path \<Rightarrow> FileSystem \<Rightarrow> Coordinator" where
  "initial_coordinator state_file disk =
     \<lparr> co_fabric = new_fabric None, co_epoch = Gen 1, co_workers = [], co_seen_boots = Map.empty, co_state_file = state_file,
       co_down_a = False, co_recovery_auth = False, co_recovery_verified = False, co_next_evidence = 1000000,
       co_disk = disk, co_exited = False \<rparr>"

definition start :: "i64 \<Rightarrow> bool \<Rightarrow> path \<Rightarrow> FileSystem \<Rightarrow> Coordinator" where
  "start ms readable state_file disk =
     (let co = set_scenario ms (initial_coordinator state_file disk)
      in if state_file = [] then co
         else let (st, s) = load readable state_file disk (co_fabric co);
                  co = co\<lparr> co_fabric := s \<rparr>
              in if status_ok st then co\<lparr> co_epoch := im_epoch (co_fabric co) \<rparr> else co)"

section \<open>Runs\<close>

datatype Event = Ev_client socket_handle "Frame option" | Ev_monitor

inductive co_step :: "Coordinator \<Rightarrow> Env \<times> Event \<Rightarrow> Frame list \<Rightarrow> Coordinator \<Rightarrow> bool" where
  step_client: "\<not> co_exited co \<Longrightarrow> client_turn env sock received co = Some (out, replies, co') \<Longrightarrow>
     co_step co (env, Ev_client sock received) replies co'"
| step_monitor: "\<not> co_exited co \<Longrightarrow> co_step co (env, Ev_monitor) [] (monitor_pass env co)"

inductive co_run :: "Coordinator \<Rightarrow> (Env \<times> Event) list \<Rightarrow> Frame list list \<Rightarrow> Coordinator \<Rightarrow> bool" where
  co_run_Nil: "co_run co [] [] co"
| co_run_Cons: "co_step co ev rs co' \<Longrightarrow> co_run co' evs rss co'' \<Longrightarrow> co_run co (ev # evs) (rs # rss) co''"

inductive_cases co_run_NilE [elim!]: "co_run co [] rss co'"
inductive_cases co_run_ConsE [elim]: "co_run co (ev # evs) rss co'"
inductive_simps co_step_client [simp]: "co_step co (env, Ev_client sock received) replies co'"
inductive_simps co_step_monitor [simp]: "co_step co (env, Ev_monitor) replies co'"

section \<open>Quiet steps\<close>

text \<open>Steps that leave registration and the workers alone and only call the engine.\<close>

definition quiet :: "Coordinator \<Rightarrow> Coordinator \<Rightarrow> bool" where
  "quiet co co' \<longleftrightarrow>
     co_epoch co' = co_epoch co \<and> co_state_file co' = co_state_file co \<and> co_seen_boots co' = co_seen_boots co \<and>
     co_workers co' = co_workers co \<and> engine_run (co_fabric co) (co_fabric co')"

lemma quiet_refl [simp]: "quiet co co"
  by (simp add: quiet_def)

lemma quiet_trans: "quiet co co' \<Longrightarrow> quiet co' co'' \<Longrightarrow> quiet co co''"
  by (auto simp: quiet_def intro: engine_run_trans)

lemma as_ns_now_dur [simp]: "in_i64 (as_ns (now_dur ms))"
  by (simp add: now_dur_def)

lemma quiet_pieces:
  "quiet co (bump_evidence i co)" "in_i64 (as_ns (e_time e)) \<Longrightarrow> quiet co (ingest_now e co)"
  by (simp_all add: quiet_def bump_evidence_def ingest_now_def ingest_engine)

lemma evidence_times [simp]:
  "in_i64 (as_ns (e_time (latency_evidence i ms b v co)))" "in_i64 (as_ns (e_time (availability_evidence i ms b v n co)))"
  by (simp_all add: latency_evidence_def availability_evidence_def)

lemma quiet_ingest:
  "quiet co (ingest_latency ms b v co)" "quiet co (ingest_availability ms b v n co)" "quiet co (recovery_phase ph ms co)"
  unfolding ingest_latency_def ingest_availability_def Let_def
  by (blast intro: quiet_trans quiet_pieces evidence_times, blast intro: quiet_trans quiet_pieces evidence_times,
      simp add: quiet_def recovery_phase_def recovery_engine)

lemma quiet_flags:
  "quiet co (co\<lparr> co_down_a := b, co_recovery_auth := b' \<rparr>)" "quiet co (co\<lparr> co_recovery_verified := b \<rparr>)"
  "quiet co (co\<lparr> co_disk := d \<rparr>)" "quiet co (co\<lparr> co_exited := b \<rparr>)"
  by (simp_all add: quiet_def)

lemmas quiet_ops = quiet_ingest quiet_flags

lemma quiet_monitor_worker: "quiet co (monitor_worker env w co)"
proof -
  note chain = quiet_trans [OF quiet_trans [OF quiet_trans [OF quiet_flags(1) quiet_ingest(3)] quiet_ingest(3)] quiet_ingest(2)]
  show ?thesis unfolding monitor_worker_def by (simp add: chain)
qed

lemma quiet_monitor_pass: "quiet co (monitor_pass env co)"
proof -
  have "quiet c (fold (\<lambda>(_, w). monitor_worker env w) ws c)" for ws c
    by (induction ws arbitrary: c) (auto intro: quiet_trans quiet_monitor_worker)
  then show ?thesis by (simp add: monitor_pass_def)
qed

lemma quiet_save: "quiet co (save_on_request env co)"
  by (simp add: save_on_request_def quiet_ops)

lemma quiet_evaluate: "handle_evaluate env co = Some (replies, co') \<Longrightarrow> quiet co co'"
  by (auto simp: handle_evaluate_def quiet_def dest: evaluate_engine split: option.splits)

text \<open>Evidence is a quiet step followed by a heartbeat.\<close>

lemma handle_evidence_quiet: "\<exists>co1. quiet co co1 \<and> handle_evidence env sock payload co = heartbeat (en_now_ms env 3) sock co1"
proof -
  have "quiet co (ingest_latency ms b v co) \<Longrightarrow>
      quiet co ((recovery_phase REP_Verified m2 (recovery_phase REP_Restored m1 (ingest_latency ms b v co)))\<lparr> co_recovery_verified := True \<rparr>)"
    for ms b v m1 m2 by (blast intro: quiet_trans quiet_ops)
  then show ?thesis unfolding handle_evidence_def Let_def
    by (intro exI conjI refl) (auto simp: quiet_ops split: option.splits)
qed

section \<open>Invariant\<close>

text \<open>
  The engine is in a reachable state and has the epoch the coordinator announces; no boot id is remembered twice for a
  name; every registered worker has a remembered boot id, and no two connections carry the same name and boot id.
\<close>

definition roster :: "Coordinator \<Rightarrow> (socket_handle \<times> string \<times> u64) list" where
  "roster co = map (\<lambda>(sock, w). (sock, wi_name w, wi_boot_id w)) (co_workers co)"

definition seen_boots :: "Coordinator \<Rightarrow> (string \<times> u64) set" where
  "seen_boots co = {(name, boot). \<exists>bs. co_seen_boots co name = Some bs \<and> boot \<in> set bs}"

definition co_inv :: "Coordinator \<Rightarrow> bool" where
  "co_inv co \<longleftrightarrow>
     fabric_inv (co_fabric co) \<and> co_epoch co = im_epoch (co_fabric co) \<and>
     (\<forall>bs \<in> ran (co_seen_boots co). distinct bs) \<and>
     map_wf (co_workers co) \<and> distinct (map snd (roster co)) \<and> set (map snd (roster co)) \<subseteq> seen_boots co"

lemma quiet_frame: "quiet co co' \<Longrightarrow> roster co' = roster co \<and> seen_boots co' = seen_boots co"
  by (simp add: quiet_def roster_def seen_boots_def)

lemma quiet_inv: "quiet co co' \<Longrightarrow> co_inv co \<Longrightarrow> co_inv co'"
  using quiet_frame [of co co'] engine_run_inv [of "co_fabric co" "co_fabric co'"] engine_run_epoch [of "co_fabric co" "co_fabric co'"]
  unfolding quiet_def co_inv_def by simp

lemma client_end_inv: "co_inv co \<Longrightarrow> co_inv (client_end sock co)"
proof -
  have r: "roster (client_end sock co) = filter (\<lambda>p. fst p \<noteq> sock) (roster co)"
    by (simp add: roster_def client_end_def filter_map comp_def split_beta)
  have "map_wf (filter (\<lambda>p. fst p \<noteq> sock) m)" if "map_wf m" for m :: "(socket_handle \<times> WorkerInfo) list"
    using that by (simp add: map_wf_def sorted_wrt_map sorted_wrt_filter)
  then show "co_inv co \<Longrightarrow> co_inv (client_end sock co)"
    unfolding co_inv_def r by (auto simp: client_end_def seen_boots_def distinct_map_filter)
qed

text \<open>Assignment commutes with a map over the values, and assigning the value a key has changes nothing.\<close>

lemma map_assign_map: "map (\<lambda>(k, v). (k, g v)) (map_assign k v m) = map_assign k (g v) (map (\<lambda>(k, v). (k, g v)) m)"
  by (induction k v m rule: map_assign.induct) auto

lemma map_assign_same: "map_wf m \<Longrightarrow> map_of m k = Some v \<Longrightarrow> map_assign k v m = m"
proof (induction k v m rule: map_assign.induct)
  case (2 k v k' v' m)
  have "k' < k" if "k \<noteq> k'" using 2 that map_of_SomeD [of m k v] by (force simp: map_wf_def)
  then show ?case using 2 by (auto simp: map_wf_def split: if_splits)
qed simp

lemma map_assign_distinct: "distinct (map snd m) \<Longrightarrow> v \<notin> snd ` set m \<Longrightarrow> distinct (map snd (map_assign k v m))"
proof (induction k v m rule: map_assign.induct)
  case (2 k v k' v' m)
  then show ?case using map_assign_subset [of k v m] by auto
qed simp

lemma roster_assign: "roster (co\<lparr> co_workers := map_assign sock w (co_workers co) \<rparr>) = map_assign sock (wi_name w, wi_boot_id w) (roster co)"
  by (simp add: roster_def map_assign_map [where g = "\<lambda>w. (wi_name w, wi_boot_id w)"])

lemma roster_wf: "map_wf (roster co) \<longleftrightarrow> map_wf (co_workers co)"
  by (simp add: roster_def map_wf_def comp_def split_beta)

lemma heartbeat_roster: "map_wf (co_workers co) \<Longrightarrow> roster (heartbeat ms sock co) = roster co"
proof (cases "map_of (co_workers co) sock")
  case (Some w)
  assume wf: "map_wf (co_workers co)"
  have "map_of (roster co) sock = Some (wi_name w, wi_boot_id w)" using Some by (simp add: roster_def map_of_map)
  then show ?thesis using wf Some by (simp add: heartbeat_def roster_assign map_assign_same roster_wf)
qed (simp add: heartbeat_def)

lemma heartbeat_inv: "co_inv co \<Longrightarrow> co_inv (heartbeat ms sock co)"
proof -
  assume inv: "co_inv co"
  then have "roster (heartbeat ms sock co) = roster co" using heartbeat_roster by (simp add: co_inv_def)
  then show ?thesis
    using inv unfolding co_inv_def by (auto simp: heartbeat_def seen_boots_def omap.wf_assign split: option.splits)
qed

lemma register_worker_cases:
  obtains (stale_boot) "(hl_name h, hl_boot h) \<in> seen_boots co"
      "register_worker ms sock h co = (CO_return, [ack_frame (gen_value (co_epoch co)) (hl_boot h) 2 ''stale boot id''], co)"
  | (accepted) bs where "(hl_name h, hl_boot h) \<notin> seen_boots co"
      "bs = (case co_seen_boots co (hl_name h) of None \<Rightarrow> [] | Some bs \<Rightarrow> bs)"
      "register_worker ms sock h co = (CO_continue, [ack_frame (gen_value (co_epoch co)) (hl_boot h) 0 ''ok''],
         co\<lparr> co_seen_boots := (co_seen_boots co)(hl_name h \<mapsto> bs @ [hl_boot h]),
             co_workers := map_assign sock \<lparr> wi_name = hl_name h, wi_boot_id = hl_boot h, wi_last_hb_ms = ms, wi_alive = True \<rparr>
               (co_workers co) \<rparr>)"
proof -
  let ?bs = "case co_seen_boots co (hl_name h) of None \<Rightarrow> [] | Some bs \<Rightarrow> bs"
  have seen: "(hl_name h, hl_boot h) \<in> seen_boots co \<longleftrightarrow> hl_boot h \<in> set ?bs"
    by (cases "co_seen_boots co (hl_name h)") (simp_all add: seen_boots_def)
  have same: "co\<lparr> co_seen_boots := (co_seen_boots co)(hl_name h \<mapsto> ?bs) \<rparr> = co" if "hl_boot h \<in> set ?bs"
    using that by (cases "co_seen_boots co (hl_name h)") (simp_all add: map_upd_triv)
  show thesis
  proof (cases "hl_boot h \<in> set ?bs")
    case True
    with seen same show thesis by (intro stale_boot) (simp_all add: register_worker_def Let_def)
  next
    case False
    with seen show thesis by (intro accepted [of ?bs]) (simp_all add: register_worker_def Let_def)
  qed
qed

lemma register_worker_inv:
  assumes "co_inv co"
  shows "co_inv (snd (snd (register_worker ms sock h co)))"
proof (rule register_worker_cases [of h co ms sock])
  fix bs
  let ?w = "\<lparr> wi_name = hl_name h, wi_boot_id = hl_boot h, wi_last_hb_ms = ms, wi_alive = True \<rparr>"
  assume new: "(hl_name h, hl_boot h) \<notin> seen_boots co" and bs: "bs = (case co_seen_boots co (hl_name h) of None \<Rightarrow> [] | Some bs \<Rightarrow> bs)"
    and eq: "register_worker ms sock h co = (CO_continue, [ack_frame (gen_value (co_epoch co)) (hl_boot h) 0 ''ok''],
         co\<lparr> co_seen_boots := (co_seen_boots co)(hl_name h \<mapsto> bs @ [hl_boot h]), co_workers := map_assign sock ?w (co_workers co) \<rparr>)"
  let ?co = "co\<lparr> co_workers := map_assign sock ?w (co_workers co) \<rparr>" and ?seen = "(co_seen_boots co)(hl_name h \<mapsto> bs @ [hl_boot h])"
  have seen: "seen_boots (?co\<lparr> co_seen_boots := ?seen \<rparr>) = insert (hl_name h, hl_boot h) (seen_boots co)"
    using bs by (auto simp: seen_boots_def split: option.splits if_splits)
  have r: "roster (?co\<lparr> co_seen_boots := ?seen \<rparr>) = map_assign sock (hl_name h, hl_boot h) (roster co)"
    using roster_assign [where co = co and sock = sock and w = ?w] by (simp add: roster_def)
  have "distinct (bs @ [hl_boot h])" using new assms bs by (auto simp: co_inv_def seen_boots_def ran_def split: option.splits)
  then have d: "\<forall>bs \<in> ran ?seen. distinct bs" using assms by (auto simp: co_inv_def ran_def)
  have "(hl_name h, hl_boot h) \<notin> snd ` set (roster co)" using new assms by (auto simp: co_inv_def)
  then have "distinct (map snd (map_assign sock (hl_name h, hl_boot h) (roster co)))"
    "snd ` set (map_assign sock (hl_name h, hl_boot h) (roster co)) \<subseteq> insert (hl_name h, hl_boot h) (seen_boots co)"
    using assms image_mono [OF map_assign_subset [of sock "(hl_name h, hl_boot h)" "roster co"], of snd]
    unfolding co_inv_def by (simp_all add: map_assign_distinct subset_insertI2) blast
  then have "co_inv (?co\<lparr> co_seen_boots := ?seen \<rparr>)"
    using assms d unfolding co_inv_def seen r by (simp add: omap.wf_assign)
  moreover have "?co\<lparr> co_seen_boots := ?seen \<rparr> = co\<lparr> co_seen_boots := ?seen, co_workers := co_workers ?co \<rparr>"
    by (cases co) simp
  ultimately show ?thesis by (simp add: eq)
qed (use assms in simp_all)

lemma register_worker_grows:
  assumes "register_worker ms sock h co = (out, replies, co')"
  shows "co_epoch co' = co_epoch co \<and> co_state_file co' = co_state_file co \<and> co_fabric co' = co_fabric co \<and>
    co_exited co' = co_exited co \<and> seen_boots co' = insert (hl_name h, hl_boot h) (seen_boots co) \<and>
    out = (if (hl_name h, hl_boot h) \<in> seen_boots co then CO_return else CO_continue)"
  by (rule register_worker_cases [of h co ms sock]) (use assms in \<open>auto simp: seen_boots_def split: option.splits if_splits\<close>)

lemma handle_hello_cases:
  obtains (malformed) "decode_hello payload = None"
      "handle_hello env sock payload co = (CO_return, [ack_frame 0 (decode_hello_boot payload (en_uninit env)) 99 ''malformed hello''], co)"
  | (stale_epoch) h where "decode_hello payload = Some h" "hl_epoch h \<noteq> gen_value (co_epoch co)"
      "handle_hello env sock payload co = (CO_return, [ack_frame (gen_value (co_epoch co)) (hl_boot h) 1 ''stale epoch''], co)"
  | (register) h where "decode_hello payload = Some h" "hl_epoch h = gen_value (co_epoch co)"
      "handle_hello env sock payload co = register_worker (en_now_ms env 0) sock h co"
proof (cases "decode_hello payload")
  case (Some h)
  then show thesis using stale_epoch [of h] register [of h]
    by (cases "hl_epoch h = gen_value (co_epoch co)") (simp_all add: handle_hello_def)
qed (auto intro: malformed simp: handle_hello_def)

lemma handle_hello_inv: "co_inv co \<Longrightarrow> co_inv (snd (snd (handle_hello env sock payload co)))"
  by (rule handle_hello_cases [of payload env sock co]) (simp_all add: register_worker_inv)

lemma handle_hello_grows:
  assumes "handle_hello env sock payload co = (out, replies, co')"
  shows "co_epoch co' = co_epoch co \<and> co_state_file co' = co_state_file co \<and> seen_boots co \<subseteq> seen_boots co' \<and>
     engine_run (co_fabric co) (co_fabric co') \<and> out \<noteq> CO_break"
proof (rule handle_hello_cases [of payload env sock co])
  fix h assume "handle_hello env sock payload co = register_worker (en_now_ms env 0) sock h co"
  with assms have "register_worker (en_now_ms env 0) sock h co = (out, replies, co')" by simp
  from register_worker_grows [OF this] show ?thesis by auto
qed (use assms in simp_all)

text \<open>Every turn of a client is a registration, or a quiet step with perhaps a heartbeat and perhaps the end of the client.\<close>

definition routine :: "socket_handle \<Rightarrow> Coordinator \<Rightarrow> Coordinator \<Rightarrow> bool" where
  "routine sock co co' \<longleftrightarrow> (\<exists>co1. quiet co co1 \<and> (co' = co1 \<or> (\<exists>ms. co' = heartbeat ms sock co1) \<or> co' = client_end sock co1))"

lemma quiet_routine: "quiet co co' \<Longrightarrow> routine sock co co'"
  by (auto simp: routine_def)

lemma routine_inv: "routine sock co co' \<Longrightarrow> co_inv co \<Longrightarrow> co_inv co'"
  by (auto simp: routine_def intro: quiet_inv heartbeat_inv client_end_inv)

lemma heartbeat_frame [simp]:
  "co_fabric (heartbeat ms sock co) = co_fabric co" "co_epoch (heartbeat ms sock co) = co_epoch co"
  "co_seen_boots (heartbeat ms sock co) = co_seen_boots co" "co_state_file (heartbeat ms sock co) = co_state_file co"
  by (simp_all add: heartbeat_def split: option.split)

lemma client_end_frame [simp]:
  "co_fabric (client_end sock co) = co_fabric co" "co_epoch (client_end sock co) = co_epoch co"
  "co_seen_boots (client_end sock co) = co_seen_boots co" "co_state_file (client_end sock co) = co_state_file co"
  by (simp_all add: client_end_def)

lemma routine_frame:
  "routine sock co co' \<Longrightarrow> co_epoch co' = co_epoch co \<and> co_state_file co' = co_state_file co \<and> co_seen_boots co' = co_seen_boots co \<and>
     engine_run (co_fabric co) (co_fabric co')"
  by (auto simp: routine_def quiet_def)

lemma handle_frame_routine:
  assumes "handle_frame env sock f co = Some (out, replies, co')" "f_kind f \<noteq> FK_Hello"
  shows "(out \<noteq> CO_break \<and> routine sock co co') \<or> (out = CO_break \<and> quiet co co')"
proof -
  have "routine sock co (handle_evidence env sock p co)" for p
    using handle_evidence_quiet [of co env sock p] by (auto simp: routine_def)
  moreover have "routine sock co (heartbeat ms sock co)" for ms by (auto simp: routine_def intro: quiet_refl)
  moreover have "quiet co ((save_on_request env co)\<lparr> co_exited := True \<rparr>)"
    using quiet_trans [OF quiet_save quiet_flags(4)] .
  ultimately show ?thesis
    using assms quiet_evaluate [of env co] quiet_save [of co env]
    by (auto simp: handle_frame_def intro: quiet_routine split: if_splits)
qed

lemma client_turn_cases:
  assumes "client_turn env sock received co = Some (out, replies, co')"
  shows "routine sock co co' \<or>
    (\<exists>f. received = Some f \<and> f_kind f = FK_Hello \<and> handle_hello env sock (f_payload f) co = (out, replies, co'))"
proof (cases received)
  case None
  have "routine sock co (client_end sock co)" unfolding routine_def using quiet_refl by blast
  then show ?thesis using assms None by (simp add: client_turn_def)
next
  case (Some f)
  with assms obtain co1 where f: "handle_frame env sock f co = Some (out, replies, co1)" "co' = (if out = CO_break then client_end sock co1 else co1)"
    by (auto simp: client_turn_def)
  show ?thesis
  proof (cases "f_kind f = FK_Hello")
    case True
    then have "handle_hello env sock (f_payload f) co = (out, replies, co1)" using f(1) by (simp add: handle_frame_def)
    moreover from handle_hello_grows [OF this] have "out \<noteq> CO_break" by simp
    ultimately show ?thesis using True Some f(2) by simp
  next
    case False
    from handle_frame_routine [OF f(1) this] show ?thesis using f(2) by (auto simp: routine_def)
  qed
qed

lemma client_turn_inv: "client_turn env sock received co = Some (out, replies, co') \<Longrightarrow> co_inv co \<Longrightarrow> co_inv co'"
  using client_turn_cases [of env sock received co out replies co'] routine_inv [of sock co co']
    handle_hello_inv [of co env sock] by (metis snd_conv)

lemma client_turn_grows:
  assumes "client_turn env sock received co = Some (out, replies, co')"
  shows "co_epoch co' = co_epoch co \<and> co_state_file co' = co_state_file co \<and> seen_boots co \<subseteq> seen_boots co' \<and>
     engine_run (co_fabric co) (co_fabric co')"
proof -
  from client_turn_cases [OF assms] show ?thesis
  proof (elim disjE exE conjE)
    assume "routine sock co co'"
    then show ?thesis using routine_frame by (auto simp: seen_boots_def)
  next
    fix f assume "handle_hello env sock (f_payload f) co = (out, replies, co')"
    then show ?thesis using handle_hello_grows by blast
  qed
qed

lemma co_step_grows:
  "co_step co ev rs co' \<Longrightarrow> co_epoch co' = co_epoch co \<and> co_state_file co' = co_state_file co \<and> seen_boots co \<subseteq> seen_boots co' \<and>
     engine_run (co_fabric co) (co_fabric co')"
proof (induction rule: co_step.induct)
  case (step_monitor co env)
  then show ?case using quiet_monitor_pass [of co env] by (simp add: quiet_def seen_boots_def)
qed (rule client_turn_grows)

lemma co_step_inv: "co_step co ev rs co' \<Longrightarrow> co_inv co \<Longrightarrow> co_inv co'"
  by (induction rule: co_step.induct) (auto intro: client_turn_inv quiet_inv quiet_monitor_pass)

lemma co_run_grows:
  "co_run co evs rss co' \<Longrightarrow> co_epoch co' = co_epoch co \<and> co_state_file co' = co_state_file co \<and> seen_boots co \<subseteq> seen_boots co' \<and>
     engine_run (co_fabric co) (co_fabric co')"
  by (induction rule: co_run.induct) (use co_step_grows engine_run_trans in \<open>simp_all\<close>, metis subset_trans engine_run_trans)

lemma co_run_inv: "co_run co evs rss co' \<Longrightarrow> co_inv co \<Longrightarrow> co_inv co'"
  by (induction rule: co_run.induct) (simp_all add: co_step_inv)

subsection \<open>Start-up\<close>

lemma scenario_engine: "engine_run (co_fabric co) (co_fabric (set_scenario ms co))"
  unfolding set_scenario_def using setup_engine by (simp add: Let_def) (meson engine_run_trans)

lemma load_error: "\<not> status_ok (fst (load rd path fs s)) \<Longrightarrow> snd (load rd path fs s) = s"
  by (auto simp: load_def Let_def status_ok_def ok_def split: option.splits if_splits)

lemma start_shape:
  defines "c0 ms f d \<equiv> set_scenario ms (initial_coordinator f d)"
  shows "co_workers (start ms rd f d) = []" "co_seen_boots (start ms rd f d) = Map.empty" "co_state_file (start ms rd f d) = f"
    "\<not> co_exited (start ms rd f d)"
    "co_fabric (start ms rd f d) = (if f = [] then co_fabric (c0 ms f d) else snd (load rd f d (co_fabric (c0 ms f d))))"
  by (simp_all add: c0_def start_def set_scenario_def initial_coordinator_def Let_def split_beta)

lemma start_inv: "co_inv (start ms rd f d)"
proof -
  let ?c = "set_scenario ms (initial_coordinator f d)"
  have run: "engine_run (new_fabric None) (co_fabric ?c)"
    using scenario_engine [of "initial_coordinator f d" ms] by (simp add: initial_coordinator_def)
  then have inv: "fabric_inv (co_fabric ?c)" using fabric_inv_new by (rule engine_run_inv)
  have "im_epoch (co_fabric ?c) = co_epoch ?c"
    using engine_run_epoch [OF run fabric_inv_new] by (simp add: set_scenario_def initial_coordinator_def new_fabric_def Let_def)
  then have "co_epoch (start ms rd f d) = im_epoch (co_fabric (start ms rd f d))"
    using load_error [of rd f d "co_fabric ?c"] by (auto simp: start_def Let_def split_beta)
  moreover have "fabric_inv (co_fabric (start ms rd f d))" using inv load_inv by (auto simp: start_shape)
  ultimately show ?thesis by (simp add: co_inv_def start_shape roster_def map_wf_def)
qed

lemma start_on_file:
  assumes "f \<noteq> []" "storable order s" "fs_files fs f = Some (file_of_state (snapshot order s))"
  shows "co_epoch (start ms True f fs) = gen_next (im_epoch s)" "im_contracts (co_fabric (start ms True f fs)) = im_contracts s"
    "im_policies (co_fabric (start ms True f fs)) = im_policies s"
    "im_enforcement_history (co_fabric (start ms True f fs)) = im_enforcement_history s"
proof -
  let ?t = "co_fabric (set_scenario ms (initial_coordinator f fs))"
  have "load True f fs ?t = (ok, restore (snapshot order s) ?t)"
    using assms(2,3) by (intro load_file) (simp_all add: storable_def)
  then have fab: "co_fabric (start ms True f fs) = restore (snapshot order s) ?t" using assms(1) by (simp add: start_shape)
  have "fabric_inv s" using assms(2) by (simp add: storable_def)
  note conf = restore_configuration [OF this, of order ?t]
  show "co_epoch (start ms True f fs) = gen_next (im_epoch s)"
    using start_inv [of ms True f fs] conf(1) by (simp add: co_inv_def fab)
  show "im_contracts (co_fabric (start ms True f fs)) = im_contracts s" "im_policies (co_fabric (start ms True f fs)) = im_policies s"
    "im_enforcement_history (co_fabric (start ms True f fs)) = im_enforcement_history s"
    using conf by (simp_all add: fab)
qed

subsection \<open>Replies\<close>

lemma names_short: "length (compliance_state_name c) \<le> 64" "length (dimension_name d) \<le> 64"
  by (cases c; simp) (cases d; simp)

lemma evaluate_messages:
  "evaluate sv wl now s = Some (res, s') \<Longrightarrow> \<not> result_ok res \<Longrightarrow> length (status_message (result_status res)) \<le> 64"
  by (auto simp: evaluate_def contract_inactive_def policy_superseded_def Let_def split: option.splits if_splits prod.splits)

lemma reply_of_wf: "evaluate sv wl now s = Some (res, s') \<Longrightarrow> reply_wf (reply_of epoch res)"
proof -
  have "length (compliance_state_name c) + length (dimension_name d) \<le> 2047" for c d
    using names_short(1) [of c] names_short(2) [of d] by simp
  then show "evaluate sv wl now s = Some (res, s') \<Longrightarrow> reply_wf (reply_of epoch res)"
    using evaluate_messages [of sv wl now s res s'] evaluate_shape [of sv wl now s res s']
    by (auto simp: reply_wf_def reply_of_def Let_def)
qed

lemma evaluate_action_wf: "evaluate sv wl now s = Some (result_value er, s') \<Longrightarrow> action_wf (i_action (er_intent er))"
proof (erule evaluate_value)
  fix c p s1 overall binding
  have "action_wf (action_for b overall)" for b
    by (simp add: action_for_def action_wf_def split: Dimension.split)
  moreover assume "er_intent er = make_intent sv wl c p now overall binding s1"
  ultimately show ?thesis by (cases binding) (simp_all add: make_intent_def Let_def select_action_def action_wf_def)
qed

section \<open>Properties\<close>

text \<open>
  The coordinator uses the engine only through its public operations: whatever clients send and however
  their frames, their disconnections and the monitor interleave, a run from start-up keeps the invariant of the
  coordinator, keeps the epoch it announced, and is, seen from the engine, a sequence of operations of the same
  process with checked contracts.  Without a state file every evaluation request is answered.
\<close>

theorem coordinator_runs_engine:
  assumes "co_run (start ms rd f d) evs rss co"
  shows "co_inv co \<and> co_epoch co = co_epoch (start ms rd f d) \<and>
    (\<exists>ops. fabric_run (co_fabric (start ms rd f d)) ops (co_fabric co) \<and>
       (\<forall>op \<in> set ops. keeps_process op \<and> \<not> unchecked_contracts op)) \<and>
    (f = [] \<longrightarrow> (\<exists>reply co'. handle_evaluate env co = Some ([reply], co')))"
proof -
  let ?s = "co_fabric (start ms rd f d)"
  note run = co_run_grows [OF assms]
  have inv: "co_inv co" using assms start_inv by (rule co_run_inv)
  have "\<exists>reply co'. handle_evaluate env co = Some ([reply], co')" if "f = []"
  proof -
    have "engine_run (new_fabric None) ?s"
      using that scenario_engine [of "initial_coordinator f d" ms] by (simp add: start_shape initial_coordinator_def)
    from engine_run_trans [OF this] have "engine_run (new_fabric None) (co_fabric co)" using run by blast
    from engine_run_defined [OF this] obtain res s' where
      "evaluate (Id 100) (Id 200) (now_dur (en_now_ms env 0)) (co_fabric co) = Some (res, s')" by blast
    then show ?thesis by (simp add: handle_evaluate_def)
  qed
  then show ?thesis using inv run by (simp add: engine_run_def)
qed

definition sample_env :: Env where
  "sample_env = \<lparr> en_now_ms = (\<lambda>k. 1000 + int k), en_uninit = 0, en_order = (\<lambda>xs. xs), en_write = WO_ok \<rparr>"

definition empty_disk :: FileSystem where
  "empty_disk = \<lparr> fs_files = Map.empty, fs_tmp_seq = 0 \<rparr>"

definition plain_frame :: "FrameKind \<Rightarrow> bytes \<Rightarrow> Frame" where
  "plain_frame k p = \<lparr> f_kind = k, f_flags = 0, f_payload = p \<rparr>"

theorem coordinator_runs_engine_witness:
  "co_inv (monitor_pass sample_env (start 0 True [] empty_disk)) \<and>
   (\<exists>reply co'. handle_evaluate sample_env (monitor_pass sample_env (start 0 True [] empty_disk)) = Some ([reply], co'))"
proof -
  have "co_run (start 0 True [] empty_disk) [(sample_env, Ev_monitor)] [[]] (monitor_pass sample_env (start 0 True [] empty_disk))"
    by (rule co_run_Cons [OF step_monitor co_run_Nil]) (simp add: start_shape)
  from coordinator_runs_engine [OF this] show ?thesis by blast
qed

text \<open>
  A boot id registers at most once: after a worker was accepted under a name and boot id, every later
  registration with that name and boot id, on any connection and however much happened in between, is refused and
  closed without effect, as a stale boot id or, if it carries another epoch, as a stale epoch.
\<close>

theorem registration_fenced:
  assumes "client_turn env sock (Some f) co = Some (CO_continue, replies, co1)" "f_kind f = FK_Hello"
    "decode_hello (f_payload f) = Some h" "co_run co1 evs rss co2"
    "f_kind f' = FK_Hello" "decode_hello (f_payload f') = Some h'" "hl_name h' = hl_name h" "hl_boot h' = hl_boot h"
  shows "client_turn env' sock' (Some f') co2 = Some (CO_return,
    [if hl_epoch h' = gen_value (co_epoch co2) then ack_frame (gen_value (co_epoch co2)) (hl_boot h) 2 ''stale boot id''
     else ack_frame (gen_value (co_epoch co2)) (hl_boot h) 1 ''stale epoch''], co2)"
proof -
  have "handle_hello env sock (f_payload f) co = (CO_continue, replies, co1)"
    using assms(1,2) by (auto simp: client_turn_def handle_frame_def split: if_splits prod.splits)
  then have "(hl_name h, hl_boot h) \<in> seen_boots co1"
    using assms(3) register_worker_grows [of "en_now_ms env 0" sock h co CO_continue replies co1]
    by (rule_tac handle_hello_cases [of "f_payload f" env sock co]) auto
  then have seen: "(hl_name h', hl_boot h') \<in> seen_boots co2" using co_run_grows [OF assms(4)] assms(7,8) by auto
  have stale: "register_worker (en_now_ms env' 0) sock' h' co2 =
      (CO_return, [ack_frame (gen_value (co_epoch co2)) (hl_boot h') 2 ''stale boot id''], co2)"
    by (rule register_worker_cases [of h' co2]) (use seen in auto)
  show ?thesis
    by (rule handle_hello_cases [of "f_payload f'" env' sock' co2])
       (use assms(5-8) stale in \<open>auto simp: client_turn_def handle_frame_def\<close>)
qed

definition sample_hello :: Frame where
  "sample_hello = plain_frame FK_Hello (encode_hello \<lparr> hl_name = ''A'', hl_boot = 77, hl_epoch = 1 \<rparr>)"

lemma sample_hello_decodes: "f_kind sample_hello = FK_Hello" "decode_hello (f_payload sample_hello) = Some \<lparr> hl_name = ''A'', hl_boot = 77, hl_epoch = 1 \<rparr>"
  using decode_encode(1) [of "[]" "\<lparr> hl_name = ''A'', hl_boot = 77, hl_epoch = 1 \<rparr>"]
  by (simp_all add: sample_hello_def plain_frame_def hello_wf_def)

definition sample_registered :: Coordinator where
  "sample_registered = snd (snd (handle_hello sample_env 7 (f_payload sample_hello) (start 0 True [] empty_disk)))"

lemma sample_registration: "\<exists>replies. client_turn sample_env 7 (Some sample_hello) (start 0 True [] empty_disk) = Some (CO_continue, replies, sample_registered)"
proof -
  let ?co = "start 0 True [] empty_disk"
  have "co_epoch ?co = Gen 1" by (simp add: start_def set_scenario_def initial_coordinator_def Let_def)
  then show ?thesis
    unfolding client_turn_def handle_frame_def sample_registered_def
    using sample_hello_decodes by (simp add: handle_hello_def register_worker_def start_shape Let_def)
qed

theorem registration_fenced_witness:
  "client_turn sample_env 8 (Some sample_hello) sample_registered =
     Some (CO_return, [ack_frame 1 77 2 ''stale boot id''], sample_registered)"
proof -
  obtain replies where t: "client_turn sample_env 7 (Some sample_hello) (start 0 True [] empty_disk) = Some (CO_continue, replies, sample_registered)"
    using sample_registration by blast
  have "co_epoch sample_registered = Gen 1"
    using client_turn_grows [OF t] by (simp add: start_def set_scenario_def initial_coordinator_def Let_def)
  then show ?thesis
    using registration_fenced [OF t sample_hello_decodes co_run_Nil sample_hello_decodes refl refl, of sample_env 8] by simp
qed

text \<open>
  Property C23.  A restart fences the workers of the previous process: a coordinator that saved its state on request and
  is started again on that file takes the next epoch and the same contracts and policies, and in every later state it
  refuses registrations under the old epoch without effect and ignores evidence of the old epoch apart from the
  heartbeat.
\<close>

theorem coordinator_restart_fences:
  assumes "co_run (start ms rd f d) evs rss co" "f \<noteq> []" "f_kind k \<in> {FK_Kill, FK_Shutdown}"
    "client_turn env sock (Some k) co = Some (out, replies, co1)" "en_write env = WO_ok"
    "durable_wf (snapshot (en_order env) (co_fabric co))"
    "int (length (serialize_state (snapshot (en_order env) (co_fabric co)))) \<le> kMaxPersistenceBytes"
    "co_run (start ms' True f (co_disk co1)) evs' rss' co2"
  shows "co_epoch co2 = gen_next (co_epoch co) \<and>
    im_contracts (co_fabric (start ms' True f (co_disk co1))) = im_contracts (co_fabric co) \<and>
    im_policies (co_fabric (start ms' True f (co_disk co1))) = im_policies (co_fabric co) \<and>
    (\<forall>env' sock' g h. f_kind g = FK_Hello \<and> decode_hello (f_payload g) = Some h \<and> hl_epoch h = gen_value (co_epoch co) \<longrightarrow>
       client_turn env' sock' (Some g) co2 = Some (CO_return, [ack_frame (gen_value (co_epoch co2)) (hl_boot h) 1 ''stale epoch''], co2)) \<and>
    (\<forall>env' sock' g m. f_kind g = FK_Evidence \<and> decode_evidence (f_payload g) = Some m \<and> em_epoch m = gen_value (co_epoch co) \<longrightarrow>
       client_turn env' sock' (Some g) co2 = Some (CO_continue, [], heartbeat (en_now_ms env' 3) sock' co2))"
proof -
  let ?st = "start ms' True f (co_disk co1)"
  have "co_state_file co = f" using co_run_grows [OF assms(1)] by (simp add: start_shape)
  then have disk: "co_disk co1 = snd (save (en_order env) WO_ok f (co_fabric co) (co_disk co))"
    using assms(2-5) by (auto simp: client_turn_def handle_frame_def save_on_request_def client_end_def)
  have inv: "co_inv co" using assms(1) start_inv by (rule co_run_inv)
  define t where "t = co_fabric (set_scenario ms' (initial_coordinator f (co_disk co1)))"
  have load: "load True f (co_disk co1) t = (ok, restore (snapshot (en_order env) (co_fabric co)) t)"
    unfolding disk by (rule load_saved [OF assms(6,7)])
  then have fab: "co_fabric ?st = restore (snapshot (en_order env) (co_fabric co)) t" using assms(2) by (simp add: start_shape t_def)
  have fi: "fabric_inv (co_fabric co)" "co_epoch co = im_epoch (co_fabric co)" using inv by (simp_all add: co_inv_def)
  note conf = restore_configuration [OF fi(1), of "en_order env" t]
  have ep: "co_epoch co2 = gen_next (co_epoch co)"
    using co_run_grows [OF assms(8)] start_inv [of ms' True f "co_disk co1"] conf(1) fi(2) by (simp add: co_inv_def fab)
  then have ne: "gen_value (co_epoch co2) \<noteq> gen_value (co_epoch co)" by (simp add: gen_next_def)
  show ?thesis
    using ep ne conf(2,3) by (auto simp: fab client_turn_def handle_frame_def handle_hello_def handle_evidence_def)
qed

definition sample_kill :: Frame where
  "sample_kill = plain_frame FK_Kill []"

lemma sample_snapshot_wf:
  "durable_wf (snapshot (en_order sample_env) (co_fabric (start 0 True ''s'' empty_disk)))"
  "int (length (serialize_state (snapshot (en_order sample_env) (co_fabric (start 0 True ''s'' empty_disk))))) \<le> kMaxPersistenceBytes"
  by code_simp+

theorem coordinator_restart_fences_witness:
  "co_epoch (start 0 True ''s'' (co_disk (save_on_request sample_env (start 0 True ''s'' empty_disk)))) = Gen 2"
proof -
  let ?co = "start 0 True ''s'' empty_disk"
  have t: "client_turn sample_env 7 (Some sample_kill) ?co = Some (CO_exit, [], (save_on_request sample_env ?co)\<lparr> co_exited := True \<rparr>)"
    by (simp add: client_turn_def handle_frame_def sample_kill_def plain_frame_def)
  have "co_epoch ?co = Gen 1" by code_simp
  then show ?thesis
    using coordinator_restart_fences [OF co_run_Nil _ _ t _ sample_snapshot_wf co_run_Nil, of 0]
    by (simp add: sample_kill_def plain_frame_def sample_env_def gen_next_def)
qed

text \<open>
  The reply to an evaluation request carries the decision: the request is answered by one frame, which
  survives the transport, and from its payload the control client recovers the epoch, the generations, the compliance
  state, the binding dimension and objective and the action the engine decided on at that moment.
\<close>

theorem evaluation_reply_faithful:
  assumes "client_turn env sock (Some f) co = Some (out, replies, co')" "f_kind f = FK_EvaluateRequest"
  shows "\<exists>res r. evaluate (Id 100) (Id 200) (now_dur (en_now_ms env 0)) (co_fabric co) = Some (res, co_fabric co') \<and>
    replies = [r] \<and> decode_frame (Some (encode_frame r)) = result_value r \<and>
    decode_reply (f_payload r) = Some (reply_of (co_epoch co) res) \<and>
    (\<forall>er. res = result_value er \<longrightarrow>
       enum_cast compliance_states (rp_compliance (reply_of (co_epoch co) res)) = ex_compliance (er_explanation er) \<and>
       enum_cast dimensions (rp_binding_dim (reply_of (co_epoch co) res)) = ex_binding_dimension (er_explanation er) \<and>
       action_cast (rp_action (reply_of (co_epoch co) res)) = i_action (er_intent er))"
proof -
  from assms obtain co1 where h: "handle_evaluate env co = Some (replies, co1)" "co_fabric co' = co_fabric co1"
    by (auto simp: client_turn_def handle_frame_def)
  then obtain res where res: "evaluate (Id 100) (Id 200) (now_dur (en_now_ms env 0)) (co_fabric co) = Some (res, co_fabric co')"
    "replies = [plain_frame FK_EvaluateReply (encode_reply (reply_of (co_epoch co) res))]"
    by (auto simp: handle_evaluate_def plain_frame_def split: option.splits)
  have wf: "reply_wf (reply_of (co_epoch co) res)" using res(1) by (rule reply_of_wf)
  let ?r = "plain_frame FK_EvaluateReply (encode_reply (reply_of (co_epoch co) res))"
  have "frame_wf ?r"
    using message_lengths(4) [OF wf] by (simp add: frame_wf_def plain_frame_def frame_kind_cast_def kMaxFramePayload_def)
  then have "decode_frame (Some (encode_frame ?r)) = result_value ?r" by (rule decode_encode_frame)
  moreover have "decode_reply (f_payload ?r) = Some (reply_of (co_epoch co) res)"
    using decode_encode(4) [OF _ wf, of "[]"] by (simp add: plain_frame_def)
  moreover have "action_cast (rp_action (reply_of (co_epoch co) res)) = i_action (er_intent er)" if "res = result_value er" for er
    using action_roundtrip [OF evaluate_action_wf] res(1) that by (simp add: reply_of_def Let_def)
  moreover have "enum_cast compliance_states (rp_compliance (reply_of (co_epoch co) res)) = ex_compliance (er_explanation er)"
    "enum_cast dimensions (rp_binding_dim (reply_of (co_epoch co) res)) = ex_binding_dimension (er_explanation er)"
    if "res = result_value er" for er
    using that by (simp_all add: reply_of_def Let_def enum_roundtrip)
  ultimately show ?thesis using res by blast
qed

theorem evaluation_reply_faithful_witness:
  "\<exists>replies co' res. client_turn sample_env 7 (Some (plain_frame FK_EvaluateRequest [])) (start 0 True [] empty_disk) = Some (CO_continue, replies, co') \<and>
     evaluate (Id 100) (Id 200) (Duration 1000000000) (co_fabric (start 0 True [] empty_disk)) = Some (res, co_fabric co')"
proof -
  let ?co = "start 0 True [] empty_disk" and ?f = "plain_frame FK_EvaluateRequest []"
  have "handle_evaluate sample_env ?co \<noteq> None" by code_simp
  then obtain out replies co' where t: "client_turn sample_env 7 (Some ?f) ?co = Some (out, replies, co')" "out = CO_continue"
    by (auto simp: client_turn_def handle_frame_def plain_frame_def)
  moreover have "now_dur (en_now_ms sample_env 0) = Duration 1000000000" by code_simp
  ultimately show ?thesis using evaluation_reply_faithful [OF t(1)] by (auto simp: plain_frame_def)
qed

text \<open>
  The monitor sees a silent worker only while it is connected: the worker A, registered and silent for
  three seconds, is declared down, but if its connection has broken before, as when its process is killed, the entry
  is gone and no later pass of the monitor ever declares it down or starts the recovery objective.
\<close>

theorem killed_worker_unnoticed:
  "\<not> co_down_a sample_registered \<and> co_down_a (monitor_pass (sample_env\<lparr> en_now_ms := (\<lambda>k. 4000) \<rparr>) sample_registered) \<and>
   (\<exists>co'. client_turn env 7 None sample_registered = Some (CO_break, [], co') \<and> \<not> co_down_a co' \<and> monitor_pass env' co' = co')"
proof -
  have w: "co_workers sample_registered = [(7, \<lparr> wi_name = ''A'', wi_boot_id = 77, wi_last_hb_ms = 1000, wi_alive = True \<rparr>)]"
    "\<not> co_down_a sample_registered" by code_simp+
  have "co_down_a (ingest_availability ms b v n co) = co_down_a co" "co_down_a (recovery_phase ph ms co) = co_down_a co" for ms b v n ph co
    by (simp_all add: ingest_availability_def bump_evidence_def ingest_now_def recovery_phase_def Let_def)
  then show ?thesis using w by (simp add: monitor_pass_def monitor_worker_def client_turn_def client_end_def)
qed

end
