(* ===== verification/Worker.thy ===== *)
theory Worker
  imports Coordinator
begin

text \<open>
  The worker of the distributed proof (\<^verbatim>\<open>worker_main.cpp\<close>): the choice of its boot id, the registration and the frames of
  one round of its loop.  The configuration is what the command line sets, before which the defaults stand.
\<close>

unbundle bit_operations_syntax

section \<open>Worker\<close>

text \<open>\<open>t\<close> is the reading of the high resolution clock, \<open>rd1\<close> and \<open>rd2\<close> the two draws from the random device.\<close>

definition fresh_boot_id :: "u64 \<Rightarrow> u32 \<Rightarrow> u32 \<Rightarrow> u64" where
  "fresh_boot_id t rd1 rd2 = (let r = push_bit 32 (ucast rd1) XOR ucast rd2 in (t XOR r) OR 1)"

record WorkerConfig =
  wc_name :: string
  wc_latency_ns :: double
  wc_serve :: bool
  wc_forced_boot :: u64
  wc_epoch :: u64

definition default_worker :: WorkerConfig where
  "default_worker = \<lparr> wc_name = ''A'', wc_latency_ns = dec 50000000 1, wc_serve = True, wc_forced_boot = 0, wc_epoch = 1 \<rparr>"

definition choose_boot :: "u64 \<Rightarrow> WorkerConfig \<Rightarrow> WorkerConfig" where
  "choose_boot fresh cfg = (if wc_forced_boot cfg = 0 then cfg\<lparr> wc_forced_boot := fresh \<rparr> else cfg)"

definition worker_hello :: "WorkerConfig \<Rightarrow> Frame" where
  "worker_hello cfg = \<lparr> f_kind = FK_Hello, f_flags = 0,
     f_payload = encode_hello \<lparr> hl_name = wc_name cfg, hl_boot = wc_forced_boot cfg, hl_epoch = wc_epoch cfg \<rparr> \<rparr>"

text \<open>
  The exit code of the registration, \<open>None\<close> when the worker goes on to its loop.  \<open>sent\<close> is the success of \<^verbatim>\<open>send_frame\<close>,
  \<open>received\<close> what \<^verbatim>\<open>recv_frame\<close> yields; the result of \<^verbatim>\<open>decode_ack\<close> is ignored and \<open>uninit\<close> is what the variable
  \<^verbatim>\<open>ack_code\<close> holds before it.
\<close>

definition worker_register :: "bool \<Rightarrow> Frame option \<Rightarrow> int \<Rightarrow> int option" where
  "worker_register sent received uninit =
     (if \<not> sent then Some 1
      else case received of
        None \<Rightarrow> Some 1
      | Some ack \<Rightarrow> if decode_ack_code (f_payload ack) uninit \<noteq> 0 then Some 2 else None)"

definition worker_evidence :: "u64 \<Rightarrow> u8 \<Rightarrow> double \<Rightarrow> WorkerConfig \<Rightarrow> Frame" where
  "worker_evidence oid dim v cfg = \<lparr> f_kind = FK_Evidence, f_flags = 0,
     f_payload = encode_evidence \<lparr> em_objective_id = oid, em_dimension = dim, em_value = v, em_sample_count = 1, em_time_ns = 0,
       em_boot_id = wc_forced_boot cfg, em_epoch = wc_epoch cfg \<rparr> \<rparr>"

definition worker_round :: "WorkerConfig \<Rightarrow> Frame list" where
  "worker_round cfg =
     (if wc_serve cfg then [worker_evidence 1 0 (wc_latency_ns cfg) cfg, worker_evidence 3 2 (dec 10000 1) cfg] else []) @
     [\<lparr> f_kind = FK_Heartbeat, f_flags = 0, f_payload = [] \<rparr>]"

section \<open>Facts\<close>

lemma fresh_boot_id_odd: "bit (fresh_boot_id t rd1 rd2) 0"
  by (simp add: fresh_boot_id_def Let_def bit_or_iff)

lemma fresh_boot_id_nonzero: "fresh_boot_id t rd1 rd2 \<noteq> 0"
  using fresh_boot_id_odd [of t rd1 rd2] by auto

lemma decode_ack_code_encode: "ack_wf a \<Longrightarrow> decode_ack_code (encode_ack a) uninit = ak_status_code a"
proof -
  assume wf: "ack_wf a"
  then have "fits [] (encode_ack a)" using message_lengths(2) [OF wf] by (simp add: fits_def)
  then show ?thesis
    using wf by (simp add: decode_ack_code_def encode_ack_def ack_wf_def at_Nil codec_simps uint_word_of_int fits_def)
qed

lemma ack_frame_code: "0 \<le> code \<Longrightarrow> code < 256 \<Longrightarrow> length txt \<le> 512 \<Longrightarrow> decode_ack_code (f_payload (ack_frame e b code txt)) uninit = code"
  using decode_ack_code_encode [of "\<lparr> ak_epoch = e, ak_granted_boot = b, ak_status_code = code, ak_status = txt \<rparr>" uninit]
  by (simp add: ack_frame_def ack_wf_def)

lemma worker_hello_decodes:
  "length (wc_name cfg) \<le> 256 \<Longrightarrow>
   decode_hello (f_payload (worker_hello cfg)) = Some \<lparr> hl_name = wc_name cfg, hl_boot = wc_forced_boot cfg, hl_epoch = wc_epoch cfg \<rparr>"
  using decode_encode(1) [of "[]" "\<lparr> hl_name = wc_name cfg, hl_boot = wc_forced_boot cfg, hl_epoch = wc_epoch cfg \<rparr>"]
  by (simp add: worker_hello_def hello_wf_def)

lemma worker_evidence_decodes:
  "decode_evidence (f_payload (worker_evidence oid dim v cfg)) = Some \<lparr> em_objective_id = oid, em_dimension = dim, em_value = v,
     em_sample_count = 1, em_time_ns = 0, em_boot_id = wc_forced_boot cfg, em_epoch = wc_epoch cfg \<rparr>"
  using decode_encode(3) [of "[]" "\<lparr> em_objective_id = oid, em_dimension = dim, em_value = v,
     em_sample_count = 1, em_time_ns = 0, em_boot_id = wc_forced_boot cfg, em_epoch = wc_epoch cfg \<rparr>"]
  by (simp add: worker_evidence_def evidence_wf_def in_i64_def i64_min_def i64_max_def)

section \<open>Properties\<close>

text \<open>
  Property C24.  Worker and coordinator agree on the registration: to the worker's registration the coordinator sends
  exactly one acknowledgement, and the worker, whatever its variables held before, goes on exactly when the coordinator
  has entered it in its table under this connection, name and boot id, which happens exactly when the epoch is the
  coordinator's and this name and boot id were never seen; otherwise the worker exits with code 2, the connection is
  closed and the coordinator is as before.  A boot id the worker draws itself is never zero.
\<close>

theorem worker_handshake_agrees:
  assumes "co_inv co" "length (wc_name cfg) \<le> 256"
  shows "\<exists>out ack co'. client_turn env sock (Some (worker_hello cfg)) co = Some (out, [ack], co') \<and>
    (if wc_epoch cfg = gen_value (co_epoch co) \<and> (wc_name cfg, wc_forced_boot cfg) \<notin> seen_boots co
     then worker_register True (Some ack) uninit = None \<and> out = CO_continue \<and> (wc_name cfg, wc_forced_boot cfg) \<in> seen_boots co' \<and>
       (\<exists>w. map_of (co_workers co') sock = Some w \<and> wi_name w = wc_name cfg \<and> wi_boot_id w = wc_forced_boot cfg)
     else worker_register True (Some ack) uninit = Some 2 \<and> out = CO_return \<and> co' = co) \<and>
    (0 :: u64) < fresh_boot_id t rd1 rd2"
proof -
  note hello = worker_hello_decodes [OF assms(2)]
  have turn: "client_turn env sock (Some (worker_hello cfg)) co =
      Some (case handle_hello env sock (f_payload (worker_hello cfg)) co of
        (out, rs, co') \<Rightarrow> (out, rs, if out = CO_break then client_end sock co' else co'))"
    by (simp add: client_turn_def handle_frame_def worker_hello_def)
  have fresh: "(0 :: u64) < fresh_boot_id t rd1 rd2" using fresh_boot_id_nonzero by (simp add: word_gt_0)
  have wf: "map_wf (co_workers co)" using assms(1) by (simp add: co_inv_def)
  show ?thesis
  proof (rule handle_hello_cases [of "f_payload (worker_hello cfg)" env sock co])
    assume "decode_hello (f_payload (worker_hello cfg)) = None"
    then show ?thesis using hello by simp
  next
    fix h assume "decode_hello (f_payload (worker_hello cfg)) = Some h" "hl_epoch h \<noteq> gen_value (co_epoch co)"
      "handle_hello env sock (f_payload (worker_hello cfg)) co = (CO_return, [ack_frame (gen_value (co_epoch co)) (hl_boot h) 1 ''stale epoch''], co)"
    then show ?thesis using hello fresh by (auto simp: turn worker_register_def ack_frame_code)
  next
    fix h assume h: "decode_hello (f_payload (worker_hello cfg)) = Some h" "hl_epoch h = gen_value (co_epoch co)"
      "handle_hello env sock (f_payload (worker_hello cfg)) co = register_worker (en_now_ms env 0) sock h co"
    moreover have "hl_name h = wc_name cfg" "hl_boot h = wc_forced_boot cfg" "hl_epoch h = wc_epoch cfg" using hello h(1) by auto
    ultimately show ?thesis
      using fresh by (rule_tac register_worker_cases [of h co "en_now_ms env 0" sock])
        (auto simp: turn worker_register_def ack_frame_code seen_boots_def omap.lookup_assign [OF wf])
  qed
qed

theorem worker_handshake_agrees_witness:
  "\<exists>ack co'. client_turn sample_env 7 (Some (worker_hello (choose_boot (fresh_boot_id 5 6 7) default_worker))) (start 0 True [] empty_disk) =
     Some (CO_continue, [ack], co') \<and> worker_register True (Some ack) 99 = None"
proof -
  let ?cfg = "choose_boot (fresh_boot_id 5 6 7) default_worker" and ?co = "start 0 True [] empty_disk"
  have "length (wc_name ?cfg) \<le> 256" "wc_epoch ?cfg = 1" by (simp_all add: choose_boot_def default_worker_def)
  moreover have "co_epoch ?co = Gen 1" by (simp add: start_def set_scenario_def initial_coordinator_def Let_def)
  moreover have "seen_boots ?co = {}" by (simp add: seen_boots_def start_shape)
  ultimately show ?thesis
    using worker_handshake_agrees [OF start_inv, of ?cfg sample_env 7 0 True "[]" empty_disk 99 5 6 7] by auto
qed

end
