(* ===== verification/Threads.thy ===== *)
theory Threads
  imports Worker
begin

text \<open>
  The coordinator as it really runs: one thread per client and the monitor thread over the shared globals.  A thread
  moves by small steps, each of which touches the shared state at most once: one section under \<^verbatim>\<open>g_mu\<close>, one load or store
  of a flag, the read or the write of \<^verbatim>\<open>g_next_evidence++\<close>, or one call of the engine, which has a mutex of its own.  The
  owner of \<^verbatim>\<open>g_mu\<close> is part of the state: the monitor keeps it during a whole pass, and a handler that refuses a stale boot id
  keeps it while it sends the refusal.  A section that is left at once is a step of its own.  \<^verbatim>\<open>g_epoch\<close> and \<^verbatim>\<open>g_state_file\<close> are only written before the threads start.

  The whole-frame steps of \<^verbatim>\<open>Coordinator\<close> are the schedules in which a client is not interrupted.
\<close>

section \<open>Threads\<close>

text \<open>
  Where the thread of a client stands in \<^verbatim>\<open>handle_client\<close>.  \<open>At_refused\<close> is the \<^verbatim>\<open>send_frame\<close> of the acknowledgement to
  a stale boot id, which is called inside the section under \<^verbatim>\<open>g_mu\<close> and may block.
\<close>

datatype ClientPc =
    At_recv
  | At_register Hello
  | At_refused
  | At_read_id EvidenceMsg
  | At_write_id EvidenceMsg u64
  | At_ingest EvidenceMsg u64
  | At_load_auth EvidenceMsg
  | At_load_verified EvidenceMsg
  | At_restored
  | At_verified
  | At_store_verified
  | At_heartbeat
  | At_evaluate
  | At_save bool
  | At_end
  | At_returned

text \<open>Where the monitor stands: asleep, or holding \<^verbatim>\<open>g_mu\<close> with the entries still to visit after the current one.\<close>

datatype MonitorPc =
    Mon_sleep
  | Mon_scan i64 "WorkerInfo list"
  | Mon_store_auth i64 WorkerInfo "WorkerInfo list"
  | Mon_observed i64 WorkerInfo "WorkerInfo list"
  | Mon_authoritative i64 WorkerInfo "WorkerInfo list"
  | Mon_read_id i64 WorkerInfo "WorkerInfo list"
  | Mon_write_id i64 WorkerInfo "WorkerInfo list" u64
  | Mon_ingest i64 WorkerInfo "WorkerInfo list" u64

definition take_frame :: "Env \<Rightarrow> Frame \<Rightarrow> Coordinator \<Rightarrow> ClientPc \<times> Frame list" where
  "take_frame env f co =
     (if f_kind f = FK_Hello then
        (case decode_hello (f_payload f) of
           None \<Rightarrow> (At_returned, [ack_frame 0 (decode_hello_boot (f_payload f) (en_uninit env)) 99 ''malformed hello''])
         | Some h \<Rightarrow>
             if hl_epoch h \<noteq> gen_value (co_epoch co)
             then (At_returned, [ack_frame (gen_value (co_epoch co)) (hl_boot h) 1 ''stale epoch''])
             else (At_register h, []))
      else if f_kind f = FK_Evidence then
        (case decode_evidence (f_payload f) of
           None \<Rightarrow> (At_heartbeat, [])
         | Some m \<Rightarrow>
             if em_epoch m \<noteq> gen_value (co_epoch co) then (At_heartbeat, [])
             else if em_dimension m = 0 \<or> em_dimension m = 2 then (At_read_id m, [])
             else (At_heartbeat, []))
      else if f_kind f = FK_Heartbeat then (At_heartbeat, [])
      else if f_kind f = FK_EvaluateRequest then (At_evaluate, [])
      else if f_kind f = FK_Kill then (At_save True, [])
      else if f_kind f = FK_Shutdown then (At_save False, [])
      else (At_recv, []))"

definition message_evidence :: "EvidenceMsg \<Rightarrow> u64 \<Rightarrow> i64 \<Rightarrow> Coordinator \<Rightarrow> EvidenceRecord" where
  "message_evidence m i ms co =
     (if em_dimension m = 0 then latency_evidence i ms (em_boot_id m) (em_value m) co
      else availability_evidence i ms (em_boot_id m) (em_value m) (em_sample_count m) co)"

text \<open>One step of the thread of a client; \<open>received\<close> is what \<^verbatim>\<open>recv_frame\<close> yields when the thread waits for a frame.\<close>

fun client_step :: "Env \<Rightarrow> Frame option \<Rightarrow> socket_handle \<Rightarrow> ClientPc \<Rightarrow> Coordinator \<Rightarrow> (ClientPc \<times> Frame list \<times> Coordinator) option" where
  "client_step env received sock At_recv co =
     (case received of
        None \<Rightarrow> Some (At_end, [], co)
      | Some f \<Rightarrow> let (pc, replies) = take_frame env f co in Some (pc, replies, co))"
| "client_step env received sock (At_register h) co =
     (let (out, replies, co) = register_worker (en_now_ms env 0) sock h co
      in Some (if out = CO_return then At_refused else At_recv, replies, co))"
| "client_step env received sock At_refused co = Some (At_returned, [], co)"
| "client_step env received sock (At_read_id m) co = Some (At_write_id m (co_next_evidence co), [], co)"
| "client_step env received sock (At_write_id m i) co = Some (At_ingest m i, [], bump_evidence i co)"
| "client_step env received sock (At_ingest m i) co =
     Some (if em_dimension m = 0 then At_load_auth m else At_heartbeat, [],
           ingest_now (message_evidence m i (en_now_ms env 0) co) co)"
| "client_step env received sock (At_load_auth m) co =
     Some (if co_recovery_auth co then At_load_verified m else At_heartbeat, [], co)"
| "client_step env received sock (At_load_verified m) co =
     Some (if \<not> co_recovery_verified co \<and> em_boot_id m \<noteq> 1001 then At_restored else At_heartbeat, [], co)"
| "client_step env received sock At_restored co = Some (At_verified, [], recovery_phase REP_Restored (en_now_ms env 0) co)"
| "client_step env received sock At_verified co = Some (At_store_verified, [], recovery_phase REP_Verified (en_now_ms env 0) co)"
| "client_step env received sock At_store_verified co = Some (At_heartbeat, [], co\<lparr> co_recovery_verified := True \<rparr>)"
| "client_step env received sock At_heartbeat co = Some (At_recv, [], heartbeat (en_now_ms env 0) sock co)"
| "client_step env received sock At_evaluate co =
     map_option (\<lambda>(replies, co). (At_recv, replies, co)) (handle_evaluate env co)"
| "client_step env received sock (At_save exit) co =
     (let co = save_on_request env co
      in Some (if exit then (At_returned, [], co\<lparr> co_exited := True \<rparr>) else (At_end, [], co)))"
| "client_step env received sock At_end co = Some (At_returned, [], client_end sock co)"
| "client_step env received sock At_returned co = None"

definition client_locks :: "ClientPc \<Rightarrow> bool" where
  "client_locks pc = (case pc of At_register h \<Rightarrow> True | At_heartbeat \<Rightarrow> True | At_end \<Rightarrow> True | _ \<Rightarrow> False)"

fun monitor_step :: "Env \<Rightarrow> MonitorPc \<Rightarrow> Coordinator \<Rightarrow> MonitorPc \<times> Coordinator" where
  "monitor_step env Mon_sleep co = (Mon_scan (en_now_ms env 0) (map snd (co_workers co)), co)"
| "monitor_step env (Mon_scan now []) co = (Mon_sleep, co)"
| "monitor_step env (Mon_scan now (w # ws)) co =
     (if wi_alive w \<and> wi_name w = ''A'' \<and> \<not> co_down_a co \<and> 2000 < now - wi_last_hb_ms w
      then (Mon_store_auth now w ws, co\<lparr> co_down_a := True \<rparr>) else (Mon_scan now ws, co))"
| "monitor_step env (Mon_store_auth now w ws) co = (Mon_observed now w ws, co\<lparr> co_recovery_auth := True \<rparr>)"
| "monitor_step env (Mon_observed now w ws) co = (Mon_authoritative now w ws, recovery_phase REP_Observed (en_now_ms env 0) co)"
| "monitor_step env (Mon_authoritative now w ws) co = (Mon_read_id now w ws, recovery_phase REP_Authoritative (en_now_ms env 0) co)"
| "monitor_step env (Mon_read_id now w ws) co = (Mon_write_id now w ws (co_next_evidence co), co)"
| "monitor_step env (Mon_write_id now w ws i) co = (Mon_ingest now w ws i, bump_evidence i co)"
| "monitor_step env (Mon_ingest now w ws i) co =
     (Mon_scan now ws, ingest_now (availability_evidence i (en_now_ms env 0) (wi_boot_id w) dzero 1 co) co)"

section \<open>The system\<close>

text \<open>The owner of \<^verbatim>\<open>g_mu\<close> between two steps.\<close>

datatype Owner = Ow_none | Ow_monitor | Ow_client socket_handle

record System =
  sy_co :: Coordinator
  sy_clients :: "socket_handle \<rightharpoonup> ClientPc"
  sy_monitor :: MonitorPc
  sy_mutex :: Owner

datatype Label = Lb_accept socket_handle | Lb_client socket_handle Env "Frame option" | Lb_monitor Env

text \<open>
  A connection that is accepted has a handle no running handler uses.  A thread at a section under \<^verbatim>\<open>g_mu\<close> moves only
  while the mutex has no owner, and so does the monitor when it wakes up.  After \<^verbatim>\<open>_Exit\<close> nothing moves.
\<close>

definition client_owner :: "socket_handle \<Rightarrow> ClientPc \<Rightarrow> ClientPc \<Rightarrow> Owner \<Rightarrow> Owner" where
  "client_owner sock pc pc' ow = (if pc' = At_refused then Ow_client sock else if pc = At_refused then Ow_none else ow)"

definition monitor_owner :: "MonitorPc \<Rightarrow> Owner" where
  "monitor_owner m = (if m = Mon_sleep then Ow_none else Ow_monitor)"

inductive sys_step :: "System \<Rightarrow> Label \<Rightarrow> Frame list \<Rightarrow> System \<Rightarrow> bool" where
  sys_accept: "\<not> co_exited (sy_co s) \<Longrightarrow> sy_clients s sock \<in> {None, Some At_returned} \<Longrightarrow>
     sys_step s (Lb_accept sock) [] (s\<lparr> sy_clients := (sy_clients s)(sock \<mapsto> At_recv) \<rparr>)"
| sys_client: "\<not> co_exited (sy_co s) \<Longrightarrow> sy_clients s sock = Some pc \<Longrightarrow> client_locks pc \<longrightarrow> sy_mutex s = Ow_none \<Longrightarrow>
     client_step env received sock pc (sy_co s) = Some (pc', replies, co') \<Longrightarrow>
     sys_step s (Lb_client sock env received) replies
       (s\<lparr> sy_co := co', sy_clients := (sy_clients s)(sock \<mapsto> pc'), sy_mutex := client_owner sock pc pc' (sy_mutex s) \<rparr>)"
| sys_monitor: "\<not> co_exited (sy_co s) \<Longrightarrow> sy_monitor s = Mon_sleep \<longrightarrow> sy_mutex s = Ow_none \<Longrightarrow>
     monitor_step env (sy_monitor s) (sy_co s) = (m', co') \<Longrightarrow>
     sys_step s (Lb_monitor env) [] (s\<lparr> sy_co := co', sy_monitor := m', sy_mutex := monitor_owner m' \<rparr>)"

inductive sys_run :: "System \<Rightarrow> (Label \<times> Frame list) list \<Rightarrow> System \<Rightarrow> bool" where
  sys_Nil: "sys_run s [] s"
| sys_Cons: "sys_step s l rs t \<Longrightarrow> sys_run t ls u \<Longrightarrow> sys_run s ((l, rs) # ls) u"

inductive_cases sys_run_NilE [elim!]: "sys_run s [] u"
inductive_cases sys_run_ConsE [elim]: "sys_run s (x # ls) u"

definition boot_system :: "Coordinator \<Rightarrow> System" where
  "boot_system co = \<lparr> sy_co = co, sy_clients = Map.empty, sy_monitor = Mon_sleep, sy_mutex = Ow_none \<rparr>"

inductive_simps sys_step_accept [simp]: "sys_step s (Lb_accept sock) rs t"
inductive_simps sys_step_client [simp]: "sys_step s (Lb_client sock env received) rs t"
inductive_simps sys_step_monitor [simp]: "sys_step s (Lb_monitor env) rs t"

section \<open>Single steps\<close>

lemma client_step_quiet:
  assumes "client_step env received sock pc co = Some (pc', replies, co')" "\<not> client_locks pc"
  shows "quiet co co'"
proof (cases pc)
  case (At_ingest m i)
  then show ?thesis using assms quiet_pieces(2) [of "message_evidence m i (en_now_ms env 0) co" co]
    by (simp add: message_evidence_def split: if_splits)
next
  case (At_save exit)
  then show ?thesis
    using assms quiet_save [of co env] quiet_trans [OF quiet_save [of co env] quiet_flags(4)]
    by (auto simp: Let_def split: if_splits)
qed (use assms in \<open>auto simp: client_locks_def quiet_pieces quiet_ops quiet_evaluate split: option.splits prod.splits\<close>)

lemma client_step_cases:
  assumes "client_step env received sock pc co = Some (pc', replies, co')"
  obtains (quiet) "\<not> client_locks pc" "quiet co co'"
  | (register) h out where "pc = At_register h" "register_worker (en_now_ms env 0) sock h co = (out, replies, co')"
      "pc' = (if out = CO_return then At_refused else At_recv)"
  | (heartbeat) "pc = At_heartbeat" "pc' = At_recv" "co' = heartbeat (en_now_ms env 0) sock co"
  | (ended) "pc = At_end" "pc' = At_returned" "co' = client_end sock co"
proof (cases "client_locks pc")
  case True
  then show thesis
    using assms register heartbeat ended by (cases pc) (auto simp: client_locks_def Let_def split: prod.splits)
qed (use assms client_step_quiet quiet in blast)

lemma client_step_routine:
  "client_step env received sock pc co = Some (pc', replies, co') \<Longrightarrow>
     routine sock co co' \<or> (\<exists>h out. pc = At_register h \<and> register_worker (en_now_ms env 0) sock h co = (out, replies, co'))"
  by (erule client_step_cases) (auto simp: routine_def intro: quiet_refl)

lemma monitor_step_quiet: "monitor_step env m co = (m', co') \<Longrightarrow> quiet co co'"
proof (induction env m co rule: monitor_step.induct)
  case (3 env now w ws co)
  then show ?case by (auto simp: quiet_def split: if_splits)
next
  case (4 env now w ws co)
  then show ?case by (auto simp: quiet_def)
qed (auto simp: quiet_pieces quiet_ops)

text \<open>A step of any thread keeps the announced epoch, forgets no boot id and calls the engine.\<close>

definition grows :: "Coordinator \<Rightarrow> Coordinator \<Rightarrow> bool" where
  "grows co co' \<longleftrightarrow> co_epoch co' = co_epoch co \<and> co_state_file co' = co_state_file co \<and> seen_boots co \<subseteq> seen_boots co' \<and>
     engine_run (co_fabric co) (co_fabric co')"

lemma grows_refl [simp]: "grows co co"
  by (simp add: grows_def)

lemma grows_trans [trans]: "grows co co' \<Longrightarrow> grows co' co'' \<Longrightarrow> grows co co''"
  unfolding grows_def using engine_run_trans subset_trans by metis

lemma quiet_grows: "quiet co co' \<Longrightarrow> grows co co'"
  by (simp add: quiet_def grows_def seen_boots_def)

lemma routine_grows: "routine sock co co' \<Longrightarrow> grows co co'"
  using routine_frame by (auto simp: grows_def seen_boots_def)

lemma client_step_grows: "client_step env received sock pc co = Some (pc', replies, co') \<Longrightarrow> grows co co'"
  using client_step_routine [of env received sock pc co pc' replies co'] routine_grows register_worker_grows
  by (auto simp: grows_def)

lemma client_step_inv: "client_step env received sock pc co = Some (pc', replies, co') \<Longrightarrow> co_inv co \<Longrightarrow> co_inv co'"
  using client_step_routine [of env received sock pc co pc' replies co'] routine_inv [of sock co co'] register_worker_inv [of co]
  by (metis snd_conv)

lemma sys_step_grows: "sys_step s l rs t \<Longrightarrow> grows (sy_co s) (sy_co t)"
  by (induction rule: sys_step.induct) (auto intro: client_step_grows quiet_grows monitor_step_quiet)

lemma sys_run_grows: "sys_run s ls t \<Longrightarrow> grows (sy_co s) (sy_co t)"
  by (induction rule: sys_run.induct) (auto intro: grows_trans sys_step_grows)

section \<open>Flags\<close>

text \<open>The three flags of the recovery; only the monitor and the two ends of the recovery code write them.\<close>

definition flags :: "Coordinator \<Rightarrow> bool \<times> bool \<times> bool" where
  "flags co = (co_down_a co, co_recovery_auth co, co_recovery_verified co)"

lemma flags_pieces [simp]:
  "flags (bump_evidence i co) = flags co" "flags (ingest_now e co) = flags co" "flags (recovery_phase ph ms co) = flags co"
  "flags (heartbeat ms sock co) = flags co" "flags (client_end sock co) = flags co" "flags (save_on_request env co) = flags co"
  "flags (co\<lparr> co_exited := b \<rparr>) = flags co"
  by (simp_all add: flags_def bump_evidence_def ingest_now_def recovery_phase_def heartbeat_def client_end_def save_on_request_def
      split: option.split)

lemma flags_register: "register_worker ms sock h co = (out, replies, co') \<Longrightarrow> flags co' = flags co"
  by (auto simp: register_worker_def flags_def Let_def split: if_splits)

lemma flags_evaluate: "handle_evaluate env co = Some (replies, co') \<Longrightarrow> flags co' = flags co"
  by (auto simp: handle_evaluate_def flags_def split: option.splits)

lemma client_step_flags:
  assumes "client_step env received sock pc co = Some (pc', replies, co')"
  shows "flags co' = (if pc = At_store_verified then (co_down_a co, co_recovery_auth co, True) else flags co)"
proof (cases pc)
  case (At_register h)
  then show ?thesis using assms flags_register by (auto simp: Let_def split: prod.splits)
next
  case At_evaluate
  then show ?thesis using assms flags_evaluate by auto
qed (use assms in \<open>auto simp: flags_def [of "co\<lparr>co_recovery_verified := True\<rparr>"] Let_def split: option.splits prod.splits if_splits\<close>)

text \<open>
  What holds at every moment of every schedule.  The mutex is owned by the monitor exactly during a pass and by a handler
  exactly while it sends a refusal, so there is one owner at most.  The entries the monitor has still to visit are entries of the map of
  workers: no handler deletes a worker the monitor holds.  The recovery is authorised only once A is down, and verified
  only once it is authorised.
\<close>

fun pending :: "MonitorPc \<Rightarrow> WorkerInfo list" where
  "pending Mon_sleep = []"
| "pending (Mon_scan now ws) = ws"
| "pending (Mon_store_auth now w ws) = w # ws"
| "pending (Mon_observed now w ws) = w # ws"
| "pending (Mon_authoritative now w ws) = w # ws"
| "pending (Mon_read_id now w ws) = w # ws"
| "pending (Mon_write_id now w ws i) = w # ws"
| "pending (Mon_ingest now w ws i) = w # ws"

definition declaring :: "MonitorPc \<Rightarrow> bool" where
  "declaring m \<longleftrightarrow> m \<noteq> Mon_sleep \<and> (\<forall>now ws. m \<noteq> Mon_scan now ws)"

definition recovering :: "ClientPc \<Rightarrow> bool" where
  "recovering pc \<longleftrightarrow> pc \<in> {At_restored, At_verified, At_store_verified} \<or> (\<exists>m. pc = At_load_verified m)"

definition sys_inv :: "System \<Rightarrow> bool" where
  "sys_inv s \<longleftrightarrow>
     co_inv (sy_co s) \<and>
     (sy_mutex s = Ow_monitor \<longleftrightarrow> sy_monitor s \<noteq> Mon_sleep) \<and>
     (\<forall>k. sy_mutex s = Ow_client k \<longleftrightarrow> sy_clients s k = Some At_refused) \<and>
     (\<exists>visited. sy_monitor s \<noteq> Mon_sleep \<longrightarrow> map snd (co_workers (sy_co s)) = visited @ pending (sy_monitor s)) \<and>
     (declaring (sy_monitor s) \<longrightarrow> co_down_a (sy_co s)) \<and>
     (co_recovery_auth (sy_co s) \<longrightarrow> co_down_a (sy_co s)) \<and>
     (co_recovery_verified (sy_co s) \<longrightarrow> co_recovery_auth (sy_co s)) \<and>
     (\<forall>pc \<in> ran (sy_clients s). recovering pc \<longrightarrow> co_recovery_auth (sy_co s))"

lemma recovering_simps [simp]:
  "recovering (At_load_verified m)" "recovering At_restored" "recovering At_verified" "recovering At_store_verified"
  "\<not> recovering At_recv" "\<not> recovering At_returned" "\<not> recovering At_heartbeat"
  by (simp_all add: recovering_def)

lemma client_step_recovering:
  "client_step env received sock pc co = Some (pc', replies, co') \<Longrightarrow> recovering pc' \<Longrightarrow> recovering pc \<or> co_recovery_auth co"
  by (cases pc) (auto simp: take_frame_def recovering_def Let_def split: option.splits prod.splits if_splits)

lemma ran_updD: "y \<in> ran (m(k \<mapsto> v)) \<Longrightarrow> y = v \<or> y \<in> ran m"
  by (auto simp: ran_def split: if_splits)

lemma client_step_refused: "client_step env received sock pc co = Some (At_refused, replies, co') \<Longrightarrow> client_locks pc"
  by (cases pc) (auto simp: client_locks_def take_frame_def Let_def split: option.splits prod.splits if_splits)

lemma sys_inv_client:
  assumes "sys_inv s" "sy_clients s sock = Some pc" "client_locks pc \<longrightarrow> sy_mutex s = Ow_none"
    "client_step env received sock pc (sy_co s) = Some (pc', replies, co')"
  shows "sys_inv (s\<lparr> sy_co := co', sy_clients := (sy_clients s)(sock \<mapsto> pc'), sy_mutex := client_owner sock pc pc' (sy_mutex s) \<rparr>)"
proof -
  let ?ow = "client_owner sock pc pc' (sy_mutex s)"
  have free: "pc' = At_refused \<Longrightarrow> sy_mutex s = Ow_none" using client_step_refused assms(3,4) by blast
  have held: "(sy_mutex s = Ow_client k) = (sy_clients s k = Some At_refused)" for k using assms(1) by (simp add: sys_inv_def)
  have own: "pc = At_refused \<Longrightarrow> sy_mutex s = Ow_client sock" using held [of sock] assms(2) by simp
  have ow: "(?ow = Ow_monitor) = (sy_mutex s = Ow_monitor)" using free own by (auto simp: client_owner_def)
  have ow': "(?ow = Ow_client k) = (((sy_clients s)(sock \<mapsto> pc')) k = Some At_refused)" for k
    unfolding client_owner_def using held [of k] own free assms(2) by (cases "k = sock") (auto split: if_splits)
  have "co_workers co' = co_workers (sy_co s)" if "sy_monitor s \<noteq> Mon_sleep"
    using client_step_quiet [OF assms(4)] assms(1,3) that by (auto simp: quiet_def sys_inv_def)
  moreover have auth: "co_recovery_auth (sy_co s)" if "recovering pc \<or> recovering pc'"
    using client_step_recovering [OF assms(4)] that assms(1,2) by (auto simp: sys_inv_def ran_def)
  moreover have f: "co_down_a co' = co_down_a (sy_co s)" "co_recovery_auth co' = co_recovery_auth (sy_co s)"
    "co_recovery_verified co' \<longrightarrow> co_recovery_verified (sy_co s) \<or> pc = At_store_verified"
    using client_step_flags [OF assms(4)] by (auto simp: flags_def split: if_splits)
  moreover have "co_inv co'" using client_step_inv [OF assms(4)] assms(1) by (simp add: sys_inv_def)
  ultimately show ?thesis
    using assms(1) ow ow' by (auto simp: sys_inv_def simp del: fun_upd_apply dest!: ran_updD)
qed

lemma declaring_simps [simp]:
  "\<not> declaring Mon_sleep" "\<not> declaring (Mon_scan now ws)" "declaring (Mon_store_auth now w ws)" "declaring (Mon_observed now w ws)"
  "declaring (Mon_authoritative now w ws)" "declaring (Mon_read_id now w ws)" "declaring (Mon_write_id now w ws i)"
  "declaring (Mon_ingest now w ws i)"
  by (simp_all add: declaring_def)

lemma monitor_step_flags:
  "monitor_step env m co = (m', co') \<Longrightarrow>
     (co_down_a co \<or> declaring m' \<longrightarrow> co_down_a co' \<or> declaring m) \<and> (co_down_a co \<longrightarrow> co_down_a co') \<and>
     (co_recovery_auth co \<longrightarrow> co_recovery_auth co') \<and> (co_recovery_auth co' \<longrightarrow> co_recovery_auth co \<or> declaring m) \<and>
     co_recovery_verified co' = co_recovery_verified co \<and> (declaring m' \<and> \<not> declaring m \<longrightarrow> \<not> co_down_a co)"
  using flags_pieces unfolding flags_def
  by (induction env m co rule: monitor_step.induct) (auto split: if_splits)

lemma monitor_step_pending:
  "monitor_step env m co = (m', co') \<Longrightarrow> m' \<noteq> Mon_sleep \<Longrightarrow>
     m = Mon_sleep \<and> pending m' = map snd (co_workers co) \<or> m \<noteq> Mon_sleep \<and> (\<exists>vs. pending m = vs @ pending m')"
  by (induction env m co rule: monitor_step.induct) (auto split: if_splits)

lemma sys_inv_monitor:
  assumes "sys_inv s" "sy_monitor s = Mon_sleep \<longrightarrow> sy_mutex s = Ow_none" "monitor_step env (sy_monitor s) (sy_co s) = (m', co')"
  shows "sys_inv (s\<lparr> sy_co := co', sy_monitor := m', sy_mutex := monitor_owner m' \<rparr>)"
proof -
  note q = monitor_step_quiet [OF assms(3)] and f = monitor_step_flags [OF assms(3)]
  have "co_workers co' = co_workers (sy_co s)" using q by (simp add: quiet_def)
  then have "\<exists>visited. m' \<noteq> Mon_sleep \<longrightarrow> map snd (co_workers co') = visited @ pending m'"
    using monitor_step_pending [OF assms(3)] assms(1) by (cases "m' = Mon_sleep") (auto simp: sys_inv_def)
  moreover have "co_inv co'" using quiet_inv [OF q] assms(1) by (simp add: sys_inv_def)
  moreover have "sy_mutex s \<noteq> Ow_client k" for k
    using assms(1,2) by (cases "sy_monitor s = Mon_sleep") (auto simp: sys_inv_def)
  ultimately show ?thesis using assms(1) f by (auto simp: sys_inv_def monitor_owner_def)
qed

lemma sys_step_inv: "sys_step s l rs t \<Longrightarrow> sys_inv s \<Longrightarrow> sys_inv t"
proof (induction rule: sys_step.induct)
  case (sys_accept s sock)
  then show ?case by (auto simp: sys_inv_def dest!: ran_updD)
qed (blast intro: sys_inv_client, blast intro: sys_inv_monitor)

lemma sys_run_inv: "sys_run s ls t \<Longrightarrow> sys_inv s \<Longrightarrow> sys_inv t"
  by (induction rule: sys_run.induct) (auto intro: sys_step_inv)

lemma boot_system_inv: "sys_inv (boot_system (start ms rd f d))"
  using start_inv [of ms rd f d]
  by (simp add: sys_inv_def boot_system_def start_def set_scenario_def initial_coordinator_def Let_def split_beta)

section \<open>Execution\<close>

text \<open>The step relation as a function of the label, to run schedules.\<close>

definition sys_next :: "System \<Rightarrow> Label \<Rightarrow> (Frame list \<times> System) option" where
  "sys_next s l =
     (if co_exited (sy_co s) then None
      else case l of
        Lb_accept sock \<Rightarrow>
          if sy_clients s sock \<in> {None, Some At_returned} then Some ([], s\<lparr> sy_clients := (sy_clients s)(sock \<mapsto> At_recv) \<rparr>) else None
      | Lb_client sock env received \<Rightarrow>
          (case sy_clients s sock of
             None \<Rightarrow> None
           | Some pc \<Rightarrow>
               if client_locks pc \<and> sy_mutex s \<noteq> Ow_none then None
               else map_option (\<lambda>(pc', rs, co'). (rs, s\<lparr> sy_co := co', sy_clients := (sy_clients s)(sock \<mapsto> pc'),
                        sy_mutex := client_owner sock pc pc' (sy_mutex s) \<rparr>))
                      (client_step env received sock pc (sy_co s)))
      | Lb_monitor env \<Rightarrow>
          if sy_monitor s = Mon_sleep \<and> sy_mutex s \<noteq> Ow_none then None
          else let (m', co') = monitor_step env (sy_monitor s) (sy_co s)
               in Some ([], s\<lparr> sy_co := co', sy_monitor := m', sy_mutex := monitor_owner m' \<rparr>))"

fun sys_exec :: "Label list \<Rightarrow> System \<Rightarrow> System option" where
  "sys_exec [] s = Some s"
| "sys_exec (l # ls) s = (case sys_next s l of None \<Rightarrow> None | Some (rs, t) \<Rightarrow> sys_exec ls t)"

lemma sys_next_step: "sys_next s l = Some (rs, t) \<longleftrightarrow> sys_step s l rs t"
proof (cases l)
  case (Lb_client sock env received)
  then show ?thesis by (cases "sy_clients s sock") (auto simp: sys_next_def split: if_splits)
next
  case (Lb_monitor env)
  then show ?thesis by (auto simp: sys_next_def Let_def split: prod.splits)
qed (auto simp: sys_next_def)

lemma sys_exec_run: "sys_exec ls s = Some t \<Longrightarrow> \<exists>rss. length rss = length ls \<and> sys_run s (zip ls rss) t"
proof (induction ls arbitrary: s)
  case (Cons l ls)
  then obtain rs u where u: "sys_next s l = Some (rs, u)" "sys_exec ls u = Some t" by (auto split: option.splits)
  with Cons.IH obtain rss where "length rss = length ls" "sys_run u (zip ls rss) t" by blast
  then show ?case using u(1) sys_Cons [of s l rs u] by (intro exI [of _ "rs # rss"]) (simp add: sys_next_step)
qed (auto intro: sys_Nil)

section \<open>Progress\<close>

text \<open>A bound on the steps the monitor makes before it sleeps again.\<close>

fun monitor_left :: "MonitorPc \<Rightarrow> nat" where
  "monitor_left Mon_sleep = 0"
| "monitor_left (Mon_scan now ws) = 7 * length ws + 1"
| "monitor_left (Mon_store_auth now w ws) = 7 * length ws + 7"
| "monitor_left (Mon_observed now w ws) = 7 * length ws + 6"
| "monitor_left (Mon_authoritative now w ws) = 7 * length ws + 5"
| "monitor_left (Mon_read_id now w ws) = 7 * length ws + 4"
| "monitor_left (Mon_write_id now w ws i) = 7 * length ws + 3"
| "monitor_left (Mon_ingest now w ws i) = 7 * length ws + 2"

lemma monitor_step_left: "m \<noteq> Mon_sleep \<Longrightarrow> monitor_left (fst (monitor_step env m co)) < monitor_left m"
  by (induction env m co rule: monitor_step.induct) auto

lemma monitor_left_bound: "monitor_left m \<le> 7 * length (pending m) + 1"
  by (cases m) auto

lemma pending_bound: "sys_inv s \<Longrightarrow> length (pending (sy_monitor s)) \<le> length (co_workers (sy_co s))"
proof (cases "sy_monitor s = Mon_sleep")
  case False
  assume "sys_inv s"
  with False obtain visited where "map snd (co_workers (sy_co s)) = visited @ pending (sy_monitor s)" by (auto simp: sys_inv_def)
  from arg_cong [OF this, of length] show ?thesis by simp
qed simp

lemma sys_run_append: "sys_run s ls t \<Longrightarrow> sys_run t ls' u \<Longrightarrow> sys_run s (ls @ ls') u"
  by (induction rule: sys_run.induct) (auto intro: sys_Cons)

lemma monitor_step_exited: "monitor_step env m co = (m', co') \<Longrightarrow> co_exited co' = co_exited co"
  by (induction env m co rule: monitor_step.induct)
     (auto simp: bump_evidence_def ingest_now_def recovery_phase_def split: if_splits)

lemma monitor_finishes:
  assumes "\<not> co_exited (sy_co s)" "sy_mutex s = monitor_owner (sy_monitor s)"
  shows "\<exists>ls t. sys_run s ls t \<and> fst ` set ls \<subseteq> {Lb_monitor env} \<and> length ls \<le> monitor_left (sy_monitor s) \<and>
    sy_mutex t = Ow_none \<and> sy_clients t = sy_clients s \<and> \<not> co_exited (sy_co t)"
  using assms
proof (induction "monitor_left (sy_monitor s)" arbitrary: s rule: less_induct)
  case less
  show ?case
  proof (cases "sy_monitor s = Mon_sleep")
    case True
    then show ?thesis using less.prems by (intro exI [of _ "[]"] exI [of _ s]) (auto intro: sys_Nil simp: monitor_owner_def)
  next
    case False
    obtain m' co' where st: "monitor_step env (sy_monitor s) (sy_co s) = (m', co')" by force
    let ?t = "s\<lparr> sy_co := co', sy_monitor := m', sy_mutex := monitor_owner m' \<rparr>"
    have lt: "monitor_left m' < monitor_left (sy_monitor s)" using monitor_step_left [OF False, of env "sy_co s"] st by simp
    moreover have "\<not> co_exited co'" using monitor_step_exited [OF st] less.prems(1) by simp
    ultimately obtain ls u where u: "sys_run ?t ls u" "fst ` set ls \<subseteq> {Lb_monitor env}" "length ls \<le> monitor_left m'"
      "sy_mutex u = Ow_none" "sy_clients u = sy_clients s" "\<not> co_exited (sy_co u)"
      using less.hyps [of ?t] by auto
    have "sys_run s ((Lb_monitor env, []) # ls) u" using sys_monitor [OF less.prems(1) _ st] False u(1) by (blast intro: sys_Cons)
    then show ?thesis using u lt by (intro exI [of _ "(Lb_monitor env, []) # ls"] exI [of _ u]) auto
  qed
qed

lemma client_can_step:
  assumes "pc \<noteq> At_returned" "pc = At_evaluate \<longrightarrow> (\<exists>res s'. evaluate (Id 100) (Id 200) (now_dur (en_now_ms env 0)) (co_fabric co) = Some (res, s'))"
  shows "\<exists>pc' rs co'. client_step env received sock pc co = Some (pc', rs, co')"
  using assms by (cases pc) (auto simp: handle_evaluate_def Let_def split: option.splits prod.splits)

lemma start_engine: "engine_run (new_fabric None) (co_fabric (start ms rd [] d))"
  using scenario_engine [of "initial_coordinator [] d" ms] by (simp add: start_shape initial_coordinator_def)

section \<open>Uninterrupted threads\<close>

text \<open>A thread that is not interrupted, with the environment of each of its steps.\<close>

fun client_exec :: "socket_handle \<Rightarrow> Frame option \<Rightarrow> Env list \<Rightarrow> ClientPc \<Rightarrow> Coordinator \<Rightarrow> (ClientPc \<times> Frame list \<times> Coordinator) option" where
  "client_exec sock received [] pc co = Some (pc, [], co)"
| "client_exec sock received (env # envs) pc co =
     (case client_step env received sock pc co of
        None \<Rightarrow> None
      | Some (pc, rs, co) \<Rightarrow> map_option (\<lambda>(pc, rs', co). (pc, rs @ rs', co)) (client_exec sock received envs pc co))"

definition at_site :: "Env \<Rightarrow> nat \<Rightarrow> Env" where
  "at_site env k = env\<lparr> en_now_ms := (\<lambda>_. en_now_ms env k) \<rparr>"

definition outcome_pc :: "ClientOutcome \<Rightarrow> ClientPc" where
  "outcome_pc out = (if out = CO_continue then At_recv else At_returned)"

lemma exited_pieces [simp]:
  "co_exited (bump_evidence i co) = co_exited co" "co_exited (ingest_now e co) = co_exited co"
  "co_exited (recovery_phase ph ms co) = co_exited co" "co_exited (heartbeat ms sock co) = co_exited co"
  "co_exited (client_end sock co) = co_exited co" "co_exited (save_on_request env co) = co_exited co"
  by (simp_all add: bump_evidence_def ingest_now_def recovery_phase_def heartbeat_def client_end_def save_on_request_def
      split: option.split)

lemma client_step_exited:
  assumes "client_step env received sock pc co = Some (pc', replies, co')" "\<not> co_exited co" "co_exited co'"
  shows "pc' = At_returned"
proof (cases pc)
  case (At_register h)
  then show ?thesis using assms register_worker_grows by (auto simp: Let_def split: prod.splits)
next
  case At_evaluate
  then show ?thesis using assms by (auto simp: handle_evaluate_def split: option.splits)
qed (use assms in \<open>auto simp: Let_def split: option.splits prod.splits if_splits\<close>)

lemma client_exec_returned: "client_exec sock received envs At_returned co = Some r \<Longrightarrow> envs = []"
  by (cases envs) auto

definition refusal_owner :: "socket_handle \<Rightarrow> ClientPc \<Rightarrow> Owner" where
  "refusal_owner sock pc = (if pc = At_refused then Ow_client sock else Ow_none)"

lemma client_exec_run:
  assumes "client_exec sock received envs pc (sy_co s) = Some (pc', replies, co')" "sy_clients s sock = Some pc"
    "sy_mutex s = refusal_owner sock pc" "\<not> co_exited (sy_co s)"
  shows "\<exists>ls. sys_run s ls (s\<lparr> sy_co := co', sy_clients := (sy_clients s)(sock \<mapsto> pc'), sy_mutex := refusal_owner sock pc' \<rparr>) \<and> concat (map snd ls) = replies \<and>
    (\<forall>l \<in> fst ` set ls. \<exists>env. l = Lb_client sock env received)"
  using assms
proof (induction envs arbitrary: pc s replies)
  case Nil
  then have "s\<lparr> sy_co := co', sy_clients := (sy_clients s)(sock \<mapsto> pc'), sy_mutex := refusal_owner sock pc' \<rparr> = s" by (simp add: map_upd_triv)
  then have run: "sys_run s [] (s\<lparr> sy_co := co', sy_clients := (sy_clients s)(sock \<mapsto> pc'), sy_mutex := refusal_owner sock pc' \<rparr>)" by (simp only: sys_Nil)
  show ?case by (intro exI [of _ "[]"] conjI, rule run) (use Nil.prems(1) in simp_all)
next
  case (Cons env envs)
  then obtain pc1 rs co1 rs' where st: "client_step env received sock pc (sy_co s) = Some (pc1, rs, co1)"
    and ex: "client_exec sock received envs pc1 co1 = Some (pc', rs', co')" and rs: "replies = rs @ rs'"
    by (auto split: option.splits)
  let ?t = "s\<lparr> sy_co := co1, sy_clients := (sy_clients s)(sock \<mapsto> pc1), sy_mutex := refusal_owner sock pc1 \<rparr>"
  have step: "sys_step s (Lb_client sock env received) rs ?t"
    using sys_client [OF Cons.prems(4,2) _ st] Cons.prems(3)
    by (auto simp: refusal_owner_def client_owner_def client_locks_def split: if_splits ClientPc.splits)
  show ?case
  proof (cases "co_exited co1")
    case True
    then have "pc1 = At_returned" using client_step_exited [OF st] Cons.prems(4) by simp
    then have "envs = []" using client_exec_returned ex by simp
    then have eqs: "pc1 = pc'" "co1 = co'" "replies = rs" using ex rs by simp_all
    show ?thesis by (intro exI conjI, rule sys_Cons [OF step [unfolded eqs(1,2)] sys_Nil]) (simp_all add: eqs(3))
  next
    case False
    have eq: "?t\<lparr> sy_co := co', sy_clients := (sy_clients ?t)(sock \<mapsto> pc'), sy_mutex := refusal_owner sock pc' \<rparr> = s\<lparr> sy_co := co', sy_clients := (sy_clients s)(sock \<mapsto> pc'), sy_mutex := refusal_owner sock pc' \<rparr>"
      by simp
    have "\<exists>ls. sys_run ?t ls (?t\<lparr> sy_co := co', sy_clients := (sy_clients ?t)(sock \<mapsto> pc'), sy_mutex := refusal_owner sock pc' \<rparr>) \<and> concat (map snd ls) = rs' \<and>
        (\<forall>l \<in> fst ` set ls. \<exists>env. l = Lb_client sock env received)"
      by (rule Cons.IH) (use ex False Cons.prems(3) in simp_all)
    then obtain ls where ls: "sys_run ?t ls (s\<lparr> sy_co := co', sy_clients := (sy_clients s)(sock \<mapsto> pc'), sy_mutex := refusal_owner sock pc' \<rparr>)"
      "concat (map snd ls) = rs'" "\<forall>l \<in> fst ` set ls. \<exists>env. l = Lb_client sock env received" unfolding eq by blast
    show ?thesis by (intro exI conjI, rule sys_Cons [OF step ls(1)]) (use ls(2,3) rs in auto)
  qed
qed

text \<open>The envs of the small steps that make up one turn.\<close>

definition turn_sites :: "Frame option \<Rightarrow> Coordinator \<Rightarrow> nat list" where
  "turn_sites received co =
     (case received of
        None \<Rightarrow> [0, 0]
      | Some f \<Rightarrow>
          if f_kind f = FK_Hello then
            (case decode_hello (f_payload f) of
               None \<Rightarrow> [0]
             | Some h \<Rightarrow> if hl_epoch h \<noteq> gen_value (co_epoch co) then [0]
                 else if (hl_name h, hl_boot h) \<in> seen_boots co then [0, 0, 0] else [0, 0])
          else if f_kind f = FK_Evidence then
            (case decode_evidence (f_payload f) of
               None \<Rightarrow> [0, 3]
             | Some m \<Rightarrow>
                 if em_epoch m \<noteq> gen_value (co_epoch co) then [0, 3]
                 else if em_dimension m = 0 then
                   (if \<not> co_recovery_auth co then [0, 0, 0, 0, 0, 3]
                    else if \<not> co_recovery_verified co \<and> em_boot_id m \<noteq> 1001 then [0, 0, 0, 0, 0, 0, 1, 2, 2, 3]
                    else [0, 0, 0, 0, 0, 0, 3])
                 else if em_dimension m = 2 then [0, 0, 0, 0, 3] else [0, 3])
          else if f_kind f = FK_Shutdown then [0, 0, 0]
          else if f_kind f \<in> {FK_Heartbeat, FK_EvaluateRequest, FK_Kill} then [0, 0]
          else [0])"

lemma at_site_simps [simp]:
  "en_now_ms (at_site env k) j = en_now_ms env k" "en_uninit (at_site env k) = en_uninit env"
  "save_on_request (at_site env k) co = save_on_request env co"
  by (simp_all add: at_site_def save_on_request_def)

lemma recovery_flags_pieces [simp]:
  "co_recovery_auth (bump_evidence i co) = co_recovery_auth co" "co_recovery_auth (ingest_now e co) = co_recovery_auth co"
  "co_recovery_verified (bump_evidence i co) = co_recovery_verified co" "co_recovery_verified (ingest_now e co) = co_recovery_verified co"
  using flags_pieces by (simp_all add: flags_def)

lemma exec_hello:
  assumes "f_kind f = FK_Hello" "handle_hello env sock (f_payload f) co = (out, replies, co')"
  shows "client_exec sock (Some f) (map (at_site env) (turn_sites (Some f) co)) At_recv co = Some (outcome_pc out, replies, co')"
proof (rule handle_hello_cases [of "f_payload f" env sock co])
  fix h assume h: "decode_hello (f_payload f) = Some h" "hl_epoch h = gen_value (co_epoch co)"
    "handle_hello env sock (f_payload f) co = register_worker (en_now_ms env 0) sock h co"
  then have r: "register_worker (en_now_ms env 0) sock h co = (out, replies, co')" using assms(2) by simp
  then have "out = (if (hl_name h, hl_boot h) \<in> seen_boots co then CO_return else CO_continue)" using register_worker_grows by blast
  then show ?thesis using assms(1) h(1,2) r by (auto simp: turn_sites_def take_frame_def outcome_pc_def)
qed (use assms in \<open>auto simp: turn_sites_def take_frame_def outcome_pc_def\<close>)

lemma exec_evidence:
  assumes "f_kind f = FK_Evidence"
  shows "client_exec sock (Some f) (map (at_site env) (turn_sites (Some f) co)) At_recv co =
    Some (At_recv, [], handle_evidence env sock (f_payload f) co)"
proof (cases "decode_evidence (f_payload f)")
  case None
  then show ?thesis using assms by (simp add: turn_sites_def take_frame_def handle_evidence_def)
next
  case (Some m)
  show ?thesis
  proof (cases "em_epoch m = gen_value (co_epoch co) \<and> em_dimension m = 0")
    case True
    then show ?thesis using assms Some
      by (simp add: turn_sites_def take_frame_def handle_evidence_def message_evidence_def ingest_latency_def Let_def)
  next
    case False
    then show ?thesis using assms Some
      by (auto simp: turn_sites_def take_frame_def handle_evidence_def message_evidence_def ingest_availability_def Let_def)
  qed
qed

lemma client_turn_exec:
  assumes "client_turn env sock received co = Some (out, replies, co')"
  shows "client_exec sock received (map (at_site env) (turn_sites received co)) At_recv co = Some (outcome_pc out, replies, co')"
proof (cases received)
  case None
  then show ?thesis using assms by (auto simp: turn_sites_def client_turn_def outcome_pc_def)
next
  case (Some f)
  consider "f_kind f = FK_Hello" | "f_kind f = FK_Evidence" | "f_kind f \<noteq> FK_Hello" "f_kind f \<noteq> FK_Evidence" by blast
  then show ?thesis
  proof cases
    case 1
    obtain out' rs co1 where h: "handle_hello env sock (f_payload f) co = (out', rs, co1)" using prod_cases3 by blast
    moreover have "out' \<noteq> CO_break" using handle_hello_grows [OF h] by simp
    ultimately have "out' = out" "rs = replies" "co1 = co'" using assms Some 1 by (simp_all add: client_turn_def handle_frame_def)
    then show ?thesis using exec_hello [OF 1 h] Some by simp
  next
    case 2
    then show ?thesis using assms Some exec_evidence [OF 2, of sock env co] by (simp add: client_turn_def handle_frame_def outcome_pc_def)
  next
    case 3
    then show ?thesis
      using assms Some by (cases "f_kind f")
        (auto simp: client_turn_def handle_frame_def turn_sites_def take_frame_def outcome_pc_def handle_evaluate_def Let_def split: option.splits)
  qed
qed

text \<open>The same for the monitor: one pass is a schedule in which only the monitor moves.\<close>

fun monitor_exec :: "Env list \<Rightarrow> MonitorPc \<Rightarrow> Coordinator \<Rightarrow> MonitorPc \<times> Coordinator" where
  "monitor_exec [] m co = (m, co)"
| "monitor_exec (env # envs) m co = (let (m, co) = monitor_step env m co in monitor_exec envs m co)"

lemma monitor_exec_append: "monitor_exec (es @ es') m co = (let (m, co) = monitor_exec es m co in monitor_exec es' m co)"
  by (induction es arbitrary: m co) (simp_all add: Let_def split_beta)

lemma monitor_exec_run:
  assumes "monitor_exec envs (sy_monitor s) (sy_co s) = (m', co')" "\<not> co_exited (sy_co s)" "sy_mutex s = monitor_owner (sy_monitor s)"
  shows "sys_run s (map (\<lambda>env. (Lb_monitor env, [])) envs) (s\<lparr> sy_co := co', sy_monitor := m', sy_mutex := monitor_owner m' \<rparr>)"
  using assms
proof (induction envs arbitrary: s)
  case Nil
  then have "s\<lparr> sy_co := co', sy_monitor := m', sy_mutex := monitor_owner m' \<rparr> = s" by simp
  then show ?case by (simp add: sys_Nil)
next
  case (Cons env envs)
  obtain m1 co1 where st: "monitor_step env (sy_monitor s) (sy_co s) = (m1, co1)" by force
  let ?t = "s\<lparr> sy_co := co1, sy_monitor := m1, sy_mutex := monitor_owner m1 \<rparr>"
  have "\<not> co_exited co1" using Cons.prems(2) monitor_step_exited [OF st] by simp
  then have "sys_run ?t (map (\<lambda>env. (Lb_monitor env, [])) envs) (s\<lparr> sy_co := co', sy_monitor := m', sy_mutex := monitor_owner m' \<rparr>)"
    using Cons.IH [of ?t] Cons.prems(1) st by simp
  moreover have "sy_monitor s = Mon_sleep \<longrightarrow> sy_mutex s = Ow_none" using Cons.prems(3) by (simp add: monitor_owner_def)
  ultimately show ?case using sys_Cons [OF sys_monitor [OF Cons.prems(2) _ st]] by simp
qed

lemma monitor_scan_exec:
  "\<exists>es. monitor_exec (map (at_site env) es) (Mon_scan (en_now_ms env 0) (map snd ws)) co =
     (Mon_scan (en_now_ms env 0) [], fold (\<lambda>(_, w). monitor_worker env w) ws co)"
proof (induction ws arbitrary: co)
  case Nil
  show ?case by (intro exI [of _ "[]"]) simp
next
  case (Cons p ws)
  obtain sock w where p: "p = (sock, w)" by force
  have "\<exists>es. monitor_exec (map (at_site env) es) (Mon_scan (en_now_ms env 0) (w # map snd ws)) co =
      (Mon_scan (en_now_ms env 0) (map snd ws), monitor_worker env w co)"
  proof (cases "wi_alive w \<and> wi_name w = ''A'' \<and> \<not> co_down_a co \<and> 2000 < en_now_ms env 0 - wi_last_hb_ms w")
    case True
    then show ?thesis
      by (intro exI [of _ "[0, 0, 1, 2, 3, 3, 3]"]) (simp add: monitor_worker_def ingest_availability_def Let_def)
  next
    case False
    then show ?thesis by (intro exI [of _ "[0]"]) (auto simp: monitor_worker_def)
  qed
  then obtain es where es: "monitor_exec (map (at_site env) es) (Mon_scan (en_now_ms env 0) (w # map snd ws)) co =
      (Mon_scan (en_now_ms env 0) (map snd ws), monitor_worker env w co)" by blast
  from Cons.IH obtain es' where "monitor_exec (map (at_site env) es') (Mon_scan (en_now_ms env 0) (map snd ws)) (monitor_worker env w co) =
      (Mon_scan (en_now_ms env 0) [], fold (\<lambda>(_, w). monitor_worker env w) ws (monitor_worker env w co))" by blast
  with es show ?case by (intro exI [of _ "es @ es'"]) (simp add: p monitor_exec_append)
qed

lemma monitor_pass_exec: "\<exists>es. monitor_exec (map (at_site env) es) Mon_sleep co = (Mon_sleep, monitor_pass env co)"
proof -
  obtain es where "monitor_exec (map (at_site env) es) (Mon_scan (en_now_ms env 0) (map snd (co_workers co))) co =
      (Mon_scan (en_now_ms env 0) [], monitor_pass env co)"
    using monitor_scan_exec [of env "co_workers co" co] by (auto simp: monitor_pass_def)
  then show ?thesis by (intro exI [of _ "0 # es @ [0]"]) (simp add: monitor_exec_append)
qed

section \<open>Sample schedules\<close>

definition moment :: "i64 \<Rightarrow> Env" where
  "moment ms = sample_env\<lparr> en_now_ms := (\<lambda>_. ms) \<rparr>"

definition hello_frame :: "string \<Rightarrow> u64 \<Rightarrow> Frame" where
  "hello_frame name boot = plain_frame FK_Hello (encode_hello \<lparr> hl_name = name, hl_boot = boot, hl_epoch = 1 \<rparr>)"

definition latency_msg :: EvidenceMsg where
  "latency_msg = \<lparr> em_objective_id = 1, em_dimension = 0, em_value = dzero, em_sample_count = 1, em_time_ns = 0, em_boot_id = 88, em_epoch = 1 \<rparr>"

definition overtaking_schedule :: "Label list" where
  "overtaking_schedule =
     [Lb_accept 7, Lb_client 7 (moment 1000) (Some (hello_frame ''A'' 77)), Lb_client 7 (moment 1000) None,
      Lb_accept 8, Lb_client 8 (moment 1000) (Some (hello_frame ''B'' 88)), Lb_client 8 (moment 1000) None,
      Lb_monitor (moment 4000), Lb_monitor (moment 4000), Lb_monitor (moment 4000),
      Lb_client 8 (moment 4001) (Some (plain_frame FK_Evidence (encode_evidence latency_msg))),
      Lb_client 8 (moment 4001) None, Lb_client 8 (moment 4001) None, Lb_client 8 (moment 4001) None,
      Lb_client 8 (moment 4001) None, Lb_client 8 (moment 4001) None,
      Lb_client 8 (moment 4001) None, Lb_client 8 (moment 4002) None, Lb_client 8 (moment 4002) None,
      Lb_monitor (moment 4003), Lb_monitor (moment 4003)]"

definition recovery_tracker :: "System \<Rightarrow> RecoveryTracker option" where
  "recovery_tracker s = map_option a_recovery (map_of (im_accumulators (co_fabric (sy_co s))) (Id kRecoveryObjId))"

lemma overtaking_run:
  "map_option (\<lambda>s. map_option (current_recovery_duration (Duration 5000000000)) (recovery_tracker s)) (sys_exec overtaking_schedule (boot_system (start 0 True [] empty_disk)))
     = Some (Some (Duration (- 1000000)))"
  by code_simp

lemma overtaking_system:
  obtains s tr where "sys_exec overtaking_schedule (boot_system (start 0 True [] empty_disk)) = Some s"
    "recovery_tracker s = Some tr" "current_recovery_duration (Duration 5000000000) tr = Duration (- 1000000)"
  using overtaking_run by auto

definition racing_system :: "ClientPc \<Rightarrow> System" where
  "racing_system pc = (boot_system (start 0 True [] empty_disk))\<lparr> sy_clients := [7 \<mapsto> pc, 8 \<mapsto> pc] \<rparr>"

lemma racing_system_simps [simp]:
  "sy_clients (racing_system pc) = [7 \<mapsto> pc, 8 \<mapsto> pc]" "sy_monitor (racing_system pc) = Mon_sleep"
  "sy_mutex (racing_system pc) = Ow_none"
  "sy_co (racing_system pc) = start 0 True [] empty_disk"
  by (simp_all add: racing_system_def boot_system_def)

lemma start_flags [simp]: "\<not> co_exited (start ms rd f d)" "co_next_evidence (start ms rd f d) = 1000000" "\<not> co_recovery_auth (start ms rd f d)"
  "\<not> co_recovery_verified (start ms rd f d)" "co_epoch (start ms rd [] d) = Gen 1"
  by (simp_all add: start_def set_scenario_def initial_coordinator_def Let_def split_beta)

section \<open>Properties\<close>

text \<open>
  Evaluation requests are answered in every state of a run whose contracts all had objectives at the start.  Without a
  state file that is so, and with one it is so when the process that saved the file was like that.
\<close>

definition starts_sound :: "i64 \<Rightarrow> bool \<Rightarrow> path \<Rightarrow> FileSystem \<Rightarrow> bool" where
  "starts_sound ms rd f d \<longleftrightarrow> f = [] \<or> has_objectives (co_fabric (start ms rd f d))"

lemma starts_sound_saved:
  assumes "f \<noteq> []" "storable order s" "fs_files d f = Some (file_of_state (snapshot order s))" "has_objectives s"
  shows "starts_sound ms True f d"
  using start_on_file(2) [OF assms(1-3)] assms(4) by (simp add: starts_sound_def has_objectives_def)

lemma run_evaluates:
  assumes "starts_sound ms rd f d" "sys_run (boot_system (start ms rd f d)) ls s"
  shows "\<exists>res s'. evaluate sv wl now (co_fabric (sy_co s)) = Some (res, s')"
proof -
  note g = sys_run_grows [OF assms(2), unfolded grows_def boot_system_def]
  show ?thesis
  proof (cases "f = []")
    case True
    then have "engine_run (new_fabric None) (co_fabric (sy_co s))"
      using engine_run_trans [OF start_engine, of ms rd d] g by simp
    from engine_run_defined [OF this] show ?thesis by blast
  next
    case False
    have inv: "fabric_inv (co_fabric (start ms rd f d))" using start_inv [of ms rd f d] by (simp add: co_inv_def)
    have run: "engine_run (co_fabric (start ms rd f d)) (co_fabric (sy_co s))" using g by simp
    have "has_objectives (co_fabric (start ms rd f d))" using assms(1) False by (simp add: starts_sound_def)
    then have "has_objectives (co_fabric (sy_co s))" by (rule engine_run_objectives [OF run inv])
    then show ?thesis by (rule evaluate_defined [OF engine_run_inv [OF run inv]])
  qed
qed

text \<open>
  Property C19.  Whatever clients send and however the small steps of their threads and of the monitor interleave, a run
  from start-up keeps the invariant: the engine and the registrations are consistent, the mutex has one owner at most,
  the monitor only ever holds workers that are still registered, the flags of the recovery are raised in order.  The
  announced epoch stays, and seen from the engine the run is a sequence of its public operations.  An evaluation
  request is answered in each of its states if there is no state file or every contract the process started with has
  objectives.
\<close>

theorem threads_run_engine:
  assumes "sys_run (boot_system (start ms rd f d)) ls s"
  shows "sys_inv s \<and> co_epoch (sy_co s) = co_epoch (start ms rd f d) \<and>
    (\<exists>ops. fabric_run (co_fabric (start ms rd f d)) ops (co_fabric (sy_co s)) \<and>
       (\<forall>op \<in> set ops. keeps_process op \<and> \<not> unchecked_contracts op)) \<and>
    (f = [] \<or> has_objectives (co_fabric (start ms rd f d)) \<longrightarrow>
       (\<exists>reply co'. client_step env None sock At_evaluate (sy_co s) = Some (At_recv, [reply], co')))"
proof -
  note g = sys_run_grows [OF assms, unfolded grows_def]
  have "\<exists>reply co'. client_step env None sock At_evaluate (sy_co s) = Some (At_recv, [reply], co')"
    if sound: "starts_sound ms rd f d"
  proof -
    obtain res s' where "evaluate (Id 100) (Id 200) (now_dur (en_now_ms env 0)) (co_fabric (sy_co s)) = Some (res, s')"
      using run_evaluates [OF sound assms] by blast
    then show ?thesis by (simp add: handle_evaluate_def)
  qed
  then show ?thesis using g sys_run_inv [OF assms boot_system_inv] by (simp add: engine_run_def boot_system_def starts_sound_def)
qed

theorem threads_run_engine_witness:
  "\<exists>s. sys_exec overtaking_schedule (boot_system (start 0 True [] empty_disk)) = Some s \<and> sys_inv s \<and> co_epoch (sy_co s) = Gen 1"
proof -
  obtain s where s: "sys_exec overtaking_schedule (boot_system (start 0 True [] empty_disk)) = Some s" by (rule overtaking_system)
  then obtain ls where "sys_run (boot_system (start 0 True [] empty_disk)) ls s" using sys_exec_run by blast
  from threads_run_engine [OF this] show ?thesis using s by simp
qed

text \<open>
  Property C20.  A boot id registers at most once, whatever threads race for it: after some thread has entered the
  registration with a name and boot id, every other thread that enters it later with the same name and boot id is
  refused as stale and changes nothing; all it does next is to return and close its connection.
\<close>

theorem registration_fenced_threads:
  assumes "sys_step s (Lb_client sock env received) rs s1" "sy_clients s sock = Some (At_register h)" "sys_run s1 ls s2"
    "sys_step s2 (Lb_client sock' env' received') rs' s3" "sy_clients s2 sock' = Some (At_register h')"
    "hl_name h' = hl_name h" "hl_boot h' = hl_boot h"
  shows "sy_co s3 = sy_co s2 \<and> sy_clients s3 sock' = Some At_refused \<and>
    rs' = [ack_frame (gen_value (co_epoch (sy_co s2))) (hl_boot h) 2 ''stale boot id''] \<and>
    (\<forall>env received rs t. sys_step s3 (Lb_client sock' env received) rs t \<longleftrightarrow>
       rs = [] \<and> t = s3\<lparr> sy_clients := (sy_clients s3)(sock' \<mapsto> At_returned), sy_mutex := Ow_none \<rparr>)"
proof -
  obtain out co' where "register_worker (en_now_ms env 0) sock h (sy_co s) = (out, rs, co')" "sy_co s1 = co'"
    using assms(1,2) by (auto simp: Let_def split: prod.splits)
  then have "(hl_name h, hl_boot h) \<in> seen_boots (sy_co s1)" using register_worker_grows by auto
  then have seen: "(hl_name h', hl_boot h') \<in> seen_boots (sy_co s2)"
    using sys_run_grows [OF assms(3)] assms(6,7) by (auto simp: grows_def)
  have "register_worker (en_now_ms env' 0) sock' h' (sy_co s2) =
      (CO_return, [ack_frame (gen_value (co_epoch (sy_co s2))) (hl_boot h') 2 ''stale boot id''], sy_co s2)"
    by (rule register_worker_cases [of h' "sy_co s2"]) (use seen in auto)
  then have s3: "sy_co s3 = sy_co s2" "sy_clients s3 sock' = Some At_refused" "\<not> co_exited (sy_co s3)"
    "rs' = [ack_frame (gen_value (co_epoch (sy_co s2))) (hl_boot h) 2 ''stale boot id'']"
    using assms(4,5,7) by (auto simp: Let_def)
  then show ?thesis by (auto simp: client_locks_def client_owner_def)
qed

theorem registration_fenced_threads_witness:
  "\<exists>rs s rs' t. sys_step (racing_system (At_register \<lparr> hl_name = ''A'', hl_boot = 77, hl_epoch = 1 \<rparr>)) (Lb_client 7 sample_env None) rs s \<and>
     sys_step s (Lb_client 8 sample_env None) rs' t \<and> rs' = [ack_frame 1 77 2 ''stale boot id'']"
proof -
  let ?h = "\<lparr> hl_name = ''A'', hl_boot = 77, hl_epoch = 1 \<rparr>"
  let ?s = "racing_system (At_register ?h)"
  obtain out rs co' where r: "register_worker (en_now_ms sample_env 0) 7 ?h (start 0 True [] empty_disk) = (out, rs, co')" using prod_cases3 by blast
  note g = register_worker_grows [OF r]
  let ?t = "?s\<lparr> sy_co := co', sy_clients := (sy_clients ?s)(7 \<mapsto> At_recv), sy_mutex := Ow_none \<rparr>"
  have "out = CO_continue" using g by (simp add: seen_boots_def start_shape)
  then have s: "sys_step ?s (Lb_client 7 sample_env None) rs ?t" using r by (auto simp: client_owner_def)
  obtain rs' u where u: "sys_step ?t (Lb_client 8 sample_env None) rs' u"
    using g by (cases "register_worker (en_now_ms sample_env 0) 8 ?h co'") (auto simp: client_locks_def)
  have "rs' = [ack_frame 1 77 2 ''stale boot id'']"
    using registration_fenced_threads [OF s _ sys_Nil u, of ?h ?h] g by simp
  then show ?thesis using s u by blast
qed

text \<open>
  Property C21.  No thread of the coordinator waits for ever for another as long as sends return: in every state a run
  reaches, unless the process has ended, the owner of the mutex releases it, and then any handler that has not returned
  can move.  If the owner is the monitor, that takes at most seven steps per registered worker and one more, all of them
  the monitor's; if it is a handler that refuses a stale boot id, it takes the return of its send.  There is no state
  file, or every contract the process started with has objectives.
\<close>

theorem coordinator_no_deadlock:
  assumes "sys_run (boot_system (start ms rd f d)) ls s" "f = [] \<or> has_objectives (co_fabric (start ms rd f d))"
    "\<not> co_exited (sy_co s)" "sy_clients s sock = Some pc" "pc \<noteq> At_returned"
  shows "\<exists>ls' t rs u. sys_run s ls' t \<and> length ls' \<le> 7 * length (co_workers (sy_co s)) + 1 \<and>
    (fst ` set ls' \<subseteq> {Lb_monitor env} \<or> (\<exists>k. sy_mutex s = Ow_client k \<and> sy_clients s k = Some At_refused \<and> map fst ls' = [Lb_client k env None])) \<and>
    sys_step t (Lb_client sock env received) rs u"
proof -
  have inv: "sys_inv s" using assms(1) boot_system_inv by (rule sys_run_inv)
  have move: "\<exists>rs u. sys_step t (Lb_client sock env received) rs u"
    if t: "sys_run s ls' t" "sy_mutex t = Ow_none \<or> pc = At_refused" "sy_clients t sock = Some pc" "\<not> co_exited (sy_co t)" for ls' t
  proof -
    have "sys_run (boot_system (start ms rd f d)) (ls @ ls') t" using assms(1) t(1) by (rule sys_run_append)
    from run_evaluates [OF _ this] obtain pc' rs co' where st: "client_step env received sock pc (sy_co t) = Some (pc', rs, co')"
      using client_can_step [OF assms(5), of env "sy_co t" received sock] assms(2) by (auto simp: starts_sound_def)
    have "client_locks pc \<longrightarrow> sy_mutex t = Ow_none" using t(2) by (auto simp: client_locks_def)
    from sys_client [OF t(4,3) this st] show ?thesis by blast
  qed
  show ?thesis
  proof (cases "\<exists>k. sy_mutex s = Ow_client k")
    case True
    then obtain k where k: "sy_mutex s = Ow_client k" "sy_clients s k = Some At_refused" using inv by (auto simp: sys_inv_def)
    show ?thesis
    proof (cases "pc = At_refused")
      case True
      from move [OF sys_Nil _ assms(4,3)] True obtain rs u where "sys_step s (Lb_client sock env received) rs u" by blast
      then show ?thesis by (intro exI [of _ "[]"] exI [of _ s] exI [of _ rs] exI [of _ u]) (simp add: sys_Nil del: sys_step_client)
    next
      case False
      then have ne: "sock \<noteq> k" using k(2) assms(4) by auto
      let ?t = "s\<lparr> sy_clients := (sy_clients s)(k \<mapsto> At_returned), sy_mutex := Ow_none \<rparr>"
      have "sys_step s (Lb_client k env None) [] ?t" using k(2) assms(3) by (simp add: client_locks_def client_owner_def)
      then have run: "sys_run s [(Lb_client k env None, [])] ?t" by (rule sys_Cons [OF _ sys_Nil])
      from move [OF run] ne assms(3,4) obtain rs u where "sys_step ?t (Lb_client sock env received) rs u" by fastforce
      with run k show ?thesis
        by (intro exI [of _ "[(Lb_client k env None, [])]"] exI [of _ ?t] exI [of _ rs] exI [of _ u]) (simp del: sys_step_client)
    qed
  next
    case False
    then have ow: "sy_mutex s = monitor_owner (sy_monitor s)" using inv by (cases "sy_mutex s") (auto simp: sys_inv_def monitor_owner_def)
    obtain ls' t where t: "sys_run s ls' t" "fst ` set ls' \<subseteq> {Lb_monitor env}" "length ls' \<le> monitor_left (sy_monitor s)"
      "sy_mutex t = Ow_none" "sy_clients t = sy_clients s" "\<not> co_exited (sy_co t)"
      using monitor_finishes [OF assms(3) ow, of env] by blast
    have "length (pending (sy_monitor s)) \<le> length (co_workers (sy_co s))" using inv by (rule pending_bound)
    then have "length ls' \<le> 7 * length (co_workers (sy_co s)) + 1"
      using t(3) monitor_left_bound [of "sy_monitor s"] by linarith
    moreover obtain rs u where "sys_step t (Lb_client sock env received) rs u" using move [OF t(1)] t(4-6) assms(4) by fastforce
    ultimately show ?thesis using t(1,2) by blast
  qed
qed

theorem coordinator_no_deadlock_witness:
  "\<exists>s ls' t rs u. sys_step (boot_system (start 0 True [] empty_disk)) (Lb_accept 7) [] s \<and> sys_run s ls' t \<and>
     length ls' \<le> 1 \<and> sys_step t (Lb_client 7 sample_env None) rs u"
proof -
  let ?b = "boot_system (start 0 True [] empty_disk)"
  let ?s = "?b\<lparr> sy_clients := [7 \<mapsto> At_recv] \<rparr>"
  have st: "sys_step ?b (Lb_accept 7) [] ?s" by (simp add: boot_system_def)
  have "\<exists>ls' t rs u. sys_run ?s ls' t \<and> length ls' \<le> 7 * length (co_workers (sy_co ?s)) + 1 \<and>
      (fst ` set ls' \<subseteq> {Lb_monitor sample_env} \<or>
        (\<exists>k. sy_mutex ?s = Ow_client k \<and> sy_clients ?s k = Some At_refused \<and> map fst ls' = [Lb_client k sample_env None])) \<and>
      sys_step t (Lb_client 7 sample_env None) rs u"
    by (rule coordinator_no_deadlock [OF sys_Cons [OF st sys_Nil], where pc = At_recv]) (simp_all add: boot_system_def)
  then obtain ls' t rs u where "sys_run ?s ls' t" "length ls' \<le> 7 * length (co_workers (sy_co ?s)) + 1"
    "sys_step t (Lb_client 7 sample_env None) rs u" by blast
  moreover have "co_workers (sy_co ?s) = []" by (simp add: boot_system_def start_shape)
  ultimately show ?thesis using st by (intro exI conjI) auto
qed

text \<open>
  While a handler is in the send of its refusal, everything that needs the mutex stands still, however long the client
  takes to read: the monitor makes no pass, and no handler enters the registration, records a heartbeat or leaves.
\<close>

theorem refusal_blocks_coordinator:
  assumes "sys_run s ls t" "sys_inv s" "sy_mutex s = Ow_client k" "\<forall>l \<in> fst ` set ls. \<forall>env received. l \<noteq> Lb_client k env received"
  shows "sy_mutex t = Ow_client k \<and> sy_monitor t = Mon_sleep \<and>
    (\<forall>sock pc. sy_clients s sock = Some pc \<and> client_locks pc \<longrightarrow> sy_clients t sock = Some pc)"
  using assms
proof (induction rule: sys_run.induct)
  case (sys_Nil s)
  then show ?case by (auto simp: sys_inv_def)
next
  case (sys_Cons s l rs t ls u)
  have k: "sy_clients s k = Some At_refused" "sy_monitor s = Mon_sleep" using sys_Cons.prems(1,2) by (auto simp: sys_inv_def)
  have inv: "sys_inv t" using sys_step_inv sys_Cons.hyps(1) sys_Cons.prems(1) by blast
  have "sy_mutex t = Ow_client k \<and> (\<forall>sock pc. sy_clients s sock = Some pc \<and> client_locks pc \<longrightarrow> sy_clients t sock = Some pc)"
    using sys_Cons.hyps(1)
  proof (cases rule: sys_step.cases)
    case (sys_accept sock)
    then show ?thesis using sys_Cons.prems(2) by (auto simp: client_locks_def)
  next
    case (sys_client sock pc env received pc' co')
    have ne: "sock \<noteq> k" using sys_Cons.prems(3) sys_client(1) by auto
    have free: "\<not> client_locks pc" using sys_client(5) sys_Cons.prems(2) by auto
    then have "pc' \<noteq> At_refused" using client_step_refused sys_client(6) by blast
    moreover have "pc \<noteq> At_refused" using ne sys_client(4) sys_Cons.prems(1,2) by (auto simp: sys_inv_def)
    ultimately show ?thesis using sys_client(2,4) free sys_Cons.prems(2) by (auto simp: client_owner_def)
  next
    case (sys_monitor env m' co')
    then show ?thesis using k(2) sys_Cons.prems(2) by simp
  qed
  then show ?case using sys_Cons.IH [OF inv] sys_Cons.prems(3) by auto
qed

theorem refusal_blocks_coordinator_witness:
  "\<exists>s. (\<exists>ls. sys_run (boot_system (start 0 True [] empty_disk)) ls s) \<and>
     (\<forall>ls t. sys_run s ls t \<and> (\<forall>l \<in> fst ` set ls. \<forall>env received. l \<noteq> Lb_client 8 env received) \<longrightarrow> sy_monitor t = Mon_sleep)"
proof -
  let ?h = "Some (hello_frame ''A'' 77)"
  let ?ls = "[Lb_accept 7, Lb_client 7 (moment 1000) ?h, Lb_client 7 (moment 1000) None,
      Lb_accept 8, Lb_client 8 (moment 1000) ?h, Lb_client 8 (moment 1000) None]"
  have "map_option (\<lambda>s. sy_mutex s = Ow_client 8) (sys_exec ?ls (boot_system (start 0 True [] empty_disk))) = Some True" by code_simp
  then obtain s where s: "sys_exec ?ls (boot_system (start 0 True [] empty_disk)) = Some s" "sy_mutex s = Ow_client 8" by auto
  from sys_exec_run [OF s(1)] obtain rs where run: "sys_run (boot_system (start 0 True [] empty_disk)) (zip ?ls rs) s" by blast
  then have "sys_inv s" using boot_system_inv by (rule sys_run_inv)
  then show ?thesis using run refusal_blocks_coordinator [OF _ _ s(2)] by blast
qed

text \<open>
  The whole-frame steps of the coordinator are schedules of its threads: a turn of a client whose thread
  waits for a frame, or a pass of the monitor, is a sequence of small steps of that thread alone, with the same
  replies and the same effect on the shared state; no other thread has moved, and the mutex is free again.
\<close>

theorem whole_frames_are_schedules:
  assumes "co_step (sy_co s) (env, ev) replies co'" "sy_monitor s = Mon_sleep" "sy_mutex s = Ow_none"
    "\<And>sock received. ev = Ev_client sock received \<Longrightarrow> sy_clients s sock = Some At_recv"
  shows "\<exists>ls t. sys_run s ls t \<and> sy_co t = co' \<and> concat (map snd ls) = replies \<and> sy_monitor t = Mon_sleep \<and> sy_mutex t = Ow_none \<and>
    (case ev of
       Ev_client sock received \<Rightarrow> (\<forall>l \<in> fst ` set ls. \<exists>env. l = Lb_client sock env received) \<and>
         (\<exists>pc. sy_clients t = (sy_clients s)(sock \<mapsto> pc) \<and> pc \<in> {At_recv, At_returned})
     | Ev_monitor \<Rightarrow> (\<forall>l \<in> fst ` set ls. \<exists>env. l = Lb_monitor env) \<and> sy_clients t = sy_clients s)"
proof (cases ev)
  case (Ev_client sock received)
  with assms(1) obtain out where t: "\<not> co_exited (sy_co s)" "client_turn env sock received (sy_co s) = Some (out, replies, co')" by auto
  have "sy_mutex s = refusal_owner sock At_recv" using assms(3) by (simp add: refusal_owner_def)
  from client_exec_run [OF client_turn_exec [OF t(2)] assms(4) [OF Ev_client] this t(1)] obtain ls where
    ls: "sys_run s ls (s\<lparr> sy_co := co', sy_clients := (sy_clients s)(sock \<mapsto> outcome_pc out), sy_mutex := refusal_owner sock (outcome_pc out) \<rparr>)"
      "concat (map snd ls) = replies" "\<forall>l \<in> fst ` set ls. \<exists>env. l = Lb_client sock env received" by blast
  show ?thesis
    by (intro exI conjI, rule ls(1)) (use ls(2,3) assms(2) Ev_client in \<open>auto simp: outcome_pc_def refusal_owner_def\<close>)
next
  case Ev_monitor
  with assms(1) have t: "\<not> co_exited (sy_co s)" "replies = []" "co' = monitor_pass env (sy_co s)" by auto
  obtain es where "monitor_exec (map (at_site env) es) (sy_monitor s) (sy_co s) = (Mon_sleep, co')"
    using monitor_pass_exec [of env "sy_co s"] assms(2) t(3) by auto
  note run = monitor_exec_run [OF this t(1)]
  have "sy_mutex s = monitor_owner (sy_monitor s)" using assms(2,3) by (simp add: monitor_owner_def)
  note run = run [OF this]
  show ?thesis by (intro exI conjI, rule run) (use t(2) Ev_monitor in \<open>auto simp: comp_def monitor_owner_def\<close>)
qed

theorem whole_frames_are_schedules_witness:
  "\<exists>ls t. sys_run ((boot_system (start 0 True [] empty_disk))\<lparr> sy_clients := [7 \<mapsto> At_recv] \<rparr>) ls t \<and> sy_co t = sample_registered"
proof -
  let ?s = "(boot_system (start 0 True [] empty_disk))\<lparr> sy_clients := [7 \<mapsto> At_recv] \<rparr>"
  obtain replies where "co_step (sy_co ?s) (sample_env, Ev_client 7 (Some sample_hello)) replies sample_registered"
    using sample_registration by (auto simp: boot_system_def)
  from whole_frames_are_schedules [OF this] show ?thesis by (auto simp: boot_system_def)
qed

text \<open>Evidence presented again under the same identity leaves the engine as it is.\<close>

lemma ingest_twice:
  assumes "fabric_inv s" "in_i64 (as_ns (e_time e))" "e_id e' = e_id e"
  shows "snd (ingest e' now' (snd (ingest e now s))) = snd (ingest e now s)"
proof (cases "id_valid (e_id e)")
  case True
  have "e_id e \<in> im_global_evidence (snd (ingest e now s))"
  proof (cases "e_id e \<in> im_global_evidence s")
    case False
    then have "status_ok (fst (note_evidence (e_id e) s))"
      using True by (simp add: note_evidence_def id_valid_def id_invalid_def Let_def)
    then have "remembers (e_id e) 0 (snd (ingest e now s))" using note_evidence_first by (simp add: remembers_def ingest_ring)
    then show ?thesis using remembers_seen ingest_inv [OF assms(1,2)] by blast
  qed (use replay_refused [OF _ refl True] in simp)
  then show ?thesis using replay_refused [OF _ assms(3) True] by simp
qed (use assms(3) in \<open>simp add: ingest_def note_evidence_def id_valid_def id_invalid_def\<close>)

text \<open>
  Property C22.  Two threads can give two different samples the same evidence id, since \<^verbatim>\<open>g_next_evidence++\<close> is not
  protected: when two handlers are about to take an id, there is a schedule of six steps after which both have handed
  their sample to the engine, the counter has grown by one only, and the engine is as if the second sample had never
  existed.
\<close>

theorem evidence_id_race:
  fixes env :: Env
  assumes "co_inv (sy_co s)" "\<not> co_exited (sy_co s)" "a \<noteq> b"
    "sy_clients s a = Some (At_read_id m)" "sy_clients s b = Some (At_read_id m')"
  shows "\<exists>ls t. sys_run s ls t \<and> length ls = 6 \<and>
    sy_clients t a = Some (if em_dimension m = 0 then At_load_auth m else At_heartbeat) \<and>
    sy_clients t b = Some (if em_dimension m' = 0 then At_load_auth m' else At_heartbeat) \<and>
    co_next_evidence (sy_co t) = co_next_evidence (sy_co s) + 1 \<and>
    co_fabric (sy_co t) = co_fabric (ingest_now (message_evidence m (co_next_evidence (sy_co s)) (en_now_ms env 0) (sy_co s)) (sy_co s))"
proof -
  let ?A = "Lb_client a env None" and ?B = "Lb_client b env None" and ?i = "co_next_evidence (sy_co s)"
  have t: "in_i64 (as_ns (e_time (message_evidence n i ms co)))" "e_id (message_evidence n i ms co) = Id i" for n i ms co
    by (simp_all add: message_evidence_def) (simp add: latency_evidence_def availability_evidence_def)
  have inv: "fabric_inv (co_fabric (sy_co s))" using assms(1) by (simp add: co_inv_def)
  have ev: "message_evidence n i ms (co\<lparr> co_next_evidence := j \<rparr>) = message_evidence n i ms co" for n i ms j co
    by (simp add: message_evidence_def latency_evidence_def availability_evidence_def)
  obtain u where u: "sys_exec [?A, ?B, ?A, ?B, ?A, ?B] s = Some u"
    "sy_clients u a = Some (if em_dimension m = 0 then At_load_auth m else At_heartbeat)"
    "sy_clients u b = Some (if em_dimension m' = 0 then At_load_auth m' else At_heartbeat)"
    "co_next_evidence (sy_co u) = ?i + 1"
    "co_fabric (sy_co u) = co_fabric (ingest_now (message_evidence m ?i (en_now_ms env 0) (sy_co s)) (sy_co s))"
    using assms(2-5) ingest_twice [OF inv t(1)] t(2)
    by (auto simp: sys_next_def client_locks_def ev ingest_now_def bump_evidence_def)
  from sys_exec_run [OF u(1)] show ?thesis using u(2-5) by (auto intro!: exI conjI)
qed

theorem evidence_id_race_witness:
  "\<exists>ls t. sys_run (racing_system (At_read_id latency_msg)) ls t \<and> length ls = 6 \<and> co_next_evidence (sy_co t) = 1000001 \<and>
     sy_clients t 8 = Some (At_load_auth latency_msg)"
proof -
  have "co_inv (sy_co (racing_system (At_read_id latency_msg)))"
    using start_inv [of 0 True "[]" empty_disk] by simp
  from evidence_id_race [OF this, of 7 8 latency_msg latency_msg sample_env] show ?thesis
    by (auto simp: latency_msg_def)
qed

text \<open>
  A recovery can be verified more than once although the code means to do it once: when two handlers have
  seen the recovery authorised and read the flag before either sets it, one can record the restoration and the
  verification and set the flag while the other is still about to record both again.
\<close>

lemma recovery_verified_twice:
  assumes "\<not> co_exited (sy_co s)" "a \<noteq> b" "sy_clients s a = Some (At_load_verified m)" "sy_clients s b = Some (At_load_verified m')"
    "\<not> co_recovery_verified (sy_co s)" "em_boot_id m \<noteq> 1001" "em_boot_id m' \<noteq> 1001"
  shows "\<exists>ls t. sys_run s ls t \<and> co_recovery_verified (sy_co t) \<and> sy_clients t a = Some At_heartbeat \<and> sy_clients t b = Some At_restored"
proof -
  let ?A = "Lb_client a undefined None" and ?B = "Lb_client b undefined None"
  obtain u where u: "sys_exec [?A, ?B, ?A, ?A, ?A] s = Some u"
    "co_recovery_verified (sy_co u) \<and> sy_clients u a = Some At_heartbeat \<and> sy_clients u b = Some At_restored"
    using assms by (auto simp: sys_next_def client_locks_def)
  then show ?thesis using sys_exec_run by blast
qed

text \<open>
  The recovery time the coordinator measures can be negative: the monitor raises the flag before it
  records the moment the outage became authoritative, and a handler that reads the flag in between records the
  verification first.  From start-up there is a schedule after which the recovery lasted minus one millisecond, which is
  within every target.
\<close>

theorem recovery_overtaken:
  "\<exists>ls s tr. sys_run (boot_system (start 0 True [] empty_disk)) ls s \<and> recovery_tracker s = Some tr \<and>
     current_recovery_duration (Duration 5000000000) tr = Duration (- 1000000)"
proof (rule overtaking_system)
  fix s tr
  assume s: "sys_exec overtaking_schedule (boot_system (start 0 True [] empty_disk)) = Some s"
    "recovery_tracker s = Some tr" "current_recovery_duration (Duration 5000000000) tr = Duration (- 1000000)"
  from sys_exec_run [OF s(1)] show ?thesis using s(2,3) by blast
qed

end
