(* ===== verification/Sockets.thy ===== *)
theory Sockets
  imports Net Cli_Parse
begin

text \<open>
  Opening, accepting and closing sockets (\<^verbatim>\<open>net.cpp\<close>, the POSIX branches).  The calls of the operating system are a
  record of functions on its state; what the manual pages say of the descriptors and address lists they create and
  release is the hypothesis \<open>socket_laws\<close>.
\<close>

section \<open>System calls\<close>

text \<open>
  \<^verbatim>\<open>getaddrinfo\<close> takes the node (\<^verbatim>\<open>nullptr\<close> is \<open>None\<close>), the service and whether \<^verbatim>\<open>AI_PASSIVE\<close> is set; the other hints
  are constant.  A non-zero result is \<open>None\<close>.  \<open>api_reuse\<close> is \<^verbatim>\<open>setsockopt\<close> with \<^verbatim>\<open>SO_REUSEADDR\<close>, whose result is not used.
\<close>

record ('addr, 'w) SocketApi =
  api_getaddrinfo :: "string option \<Rightarrow> string \<Rightarrow> bool \<Rightarrow> 'w \<Rightarrow> 'addr list option \<times> 'w"
  api_freeaddrinfo :: "'addr list \<Rightarrow> 'w \<Rightarrow> 'w"
  api_socket :: "'addr \<Rightarrow> 'w \<Rightarrow> int \<times> 'w"
  api_connect :: "int \<Rightarrow> 'addr \<Rightarrow> 'w \<Rightarrow> int \<times> 'w"
  api_reuse :: "int \<Rightarrow> 'w \<Rightarrow> 'w"
  api_bind :: "int \<Rightarrow> 'addr \<Rightarrow> 'w \<Rightarrow> int \<times> 'w"
  api_listen :: "int \<Rightarrow> int \<Rightarrow> 'w \<Rightarrow> int \<times> 'w"
  api_accept :: "int \<Rightarrow> 'w \<Rightarrow> int \<times> 'w"
  api_close :: "int \<Rightarrow> 'w \<Rightarrow> 'w"
  api_recv :: "int \<Rightarrow> 'w recv_call"
  api_send :: "int \<Rightarrow> 'w send_call"

definition kInvalidSocket :: int where
  "kInvalidSocket = -1"

section \<open>Connections\<close>

text \<open>The loop over the addresses: the first socket that connects, or \<^verbatim>\<open>kInvalidSocket\<close>.\<close>

fun connect_loop :: "('addr, 'w) SocketApi \<Rightarrow> 'addr list \<Rightarrow> 'w \<Rightarrow> int \<times> 'w" where
  "connect_loop api [] w = (kInvalidSocket, w)"
| "connect_loop api (rp # rps) w =
     (let (s, w) = api_socket api rp w
      in if s < 0 then connect_loop api rps w
         else let (r, w) = api_connect api s rp w
              in if r = 0 then (s, w) else connect_loop api rps (api_close api s w))"

definition net_connect :: "('addr, 'w) SocketApi \<Rightarrow> string \<Rightarrow> u16 \<Rightarrow> 'w \<Rightarrow> int \<times> Status \<times> 'w" where
  "net_connect api host port w =
     (case api_getaddrinfo api (Some (c_str host)) (show_nonneg (uint port)) False w of
        (None, w) \<Rightarrow> (kInvalidSocket, protocol_error ''getaddrinfo failed'', w)
      | (Some res, w) \<Rightarrow>
          let (sock, w) = connect_loop api res w;
              w = api_freeaddrinfo api res w
          in if sock = kInvalidSocket then (kInvalidSocket, protocol_error ''connect failed'', w) else (sock, ok, w))"

fun listen_loop :: "('addr, 'w) SocketApi \<Rightarrow> 'addr list \<Rightarrow> 'w \<Rightarrow> int \<times> 'w" where
  "listen_loop api [] w = (kInvalidSocket, w)"
| "listen_loop api (rp # rps) w =
     (let (s, w) = api_socket api rp w
      in if s < 0 then listen_loop api rps w
         else let (r, w) = api_bind api s rp (api_reuse api s w)
              in if r \<noteq> 0 then listen_loop api rps (api_close api s w)
                 else let (r, w) = api_listen api s 32 w
                      in if r = 0 then (s, w) else listen_loop api rps (api_close api s w))"

definition net_listen :: "('addr, 'w) SocketApi \<Rightarrow> string \<Rightarrow> u16 \<Rightarrow> 'w \<Rightarrow> int \<times> Status \<times> 'w" where
  "net_listen api host port w =
     (case api_getaddrinfo api (if host = [] then None else Some (c_str host)) (show_nonneg (uint port)) True w of
        (None, w) \<Rightarrow> (kInvalidSocket, protocol_error ''getaddrinfo failed'', w)
      | (Some res, w) \<Rightarrow>
          let (sock, w) = listen_loop api res w;
              w = api_freeaddrinfo api res w
          in if sock = kInvalidSocket then (kInvalidSocket, protocol_error ''bind/listen failed'', w) else (sock, ok, w))"

definition net_accept :: "('addr, 'w) SocketApi \<Rightarrow> int \<Rightarrow> 'w \<Rightarrow> int \<times> Status \<times> 'w" where
  "net_accept api listener w =
     (let (s, w) = api_accept api listener w
      in if s < 0 then (kInvalidSocket, protocol_error ''accept failed'', w) else (s, ok, w))"

definition net_close :: "('addr, 'w) SocketApi \<Rightarrow> int \<Rightarrow> 'w \<Rightarrow> 'w" where
  "net_close api sock w = (if sock \<noteq> kInvalidSocket then api_close api sock w else w)"

text \<open>The state of the two functions below is the flag \<^verbatim>\<open>g_net_init\<close>, which nothing else reads.\<close>

definition net_initialize :: "bool \<Rightarrow> bool \<times> bool" where
  "net_initialize g_net_init = (True, True)"

definition net_cleanup :: "bool \<Rightarrow> bool" where
  "net_cleanup g_net_init = g_net_init"

definition net_last_error :: "int \<Rightarrow> string" where
  "net_last_error errno = ''socket errno '' @ show_int errno"

section \<open>Resources\<close>

text \<open>
  \<open>fds w\<close> are the descriptors the process has open, \<open>unfreed w\<close> counts the address lists it has not released.  A call that
  creates a descriptor gives a new one or fails without effect; the other calls leave both alone.
\<close>

definition opens :: "('w \<Rightarrow> int set) \<Rightarrow> int \<Rightarrow> 'w \<Rightarrow> 'w \<Rightarrow> bool" where
  "opens fds s w w' \<longleftrightarrow> (if s < 0 then fds w' = fds w else s \<notin> fds w \<and> fds w' = insert s (fds w))"

definition socket_laws :: "('addr, 'w) SocketApi \<Rightarrow> ('w \<Rightarrow> int set) \<Rightarrow> ('w \<Rightarrow> nat) \<Rightarrow> bool" where
  "socket_laws api fds unfreed \<longleftrightarrow>
     (\<forall>h p b w r w'. api_getaddrinfo api h p b w = (r, w') \<longrightarrow> fds w' = fds w \<and> unfreed w' = unfreed w + (if r = None then 0 else 1)) \<and>
     (\<forall>l w. fds (api_freeaddrinfo api l w) = fds w \<and> unfreed (api_freeaddrinfo api l w) = unfreed w - 1) \<and>
     (\<forall>a w s w'. api_socket api a w = (s, w') \<longrightarrow> opens fds s w w' \<and> unfreed w' = unfreed w) \<and>
     (\<forall>f w s w'. api_accept api f w = (s, w') \<longrightarrow> opens fds s w w' \<and> unfreed w' = unfreed w) \<and>
     (\<forall>s a w r w'. api_connect api s a w = (r, w') \<longrightarrow> fds w' = fds w \<and> unfreed w' = unfreed w) \<and>
     (\<forall>s a w r w'. api_bind api s a w = (r, w') \<longrightarrow> fds w' = fds w \<and> unfreed w' = unfreed w) \<and>
     (\<forall>s n w r w'. api_listen api s n w = (r, w') \<longrightarrow> fds w' = fds w \<and> unfreed w' = unfreed w) \<and>
     (\<forall>s w. fds (api_reuse api s w) = fds w \<and> unfreed (api_reuse api s w) = unfreed w) \<and>
     (\<forall>s w. fds (api_close api s w) = fds w - {s} \<and> unfreed (api_close api s w) = unfreed w)"

text \<open>What a function that hands out a socket owes: exactly one new descriptor on success, none on failure, no address list.\<close>

definition hands_out :: "('w \<Rightarrow> int set) \<Rightarrow> ('w \<Rightarrow> nat) \<Rightarrow> 'w \<Rightarrow> int \<Rightarrow> bool \<Rightarrow> 'w \<Rightarrow> bool" where
  "hands_out fds unfreed w sock success w' \<longleftrightarrow>
     unfreed w' = unfreed w \<and>
     (if success then 0 \<le> sock \<and> sock \<notin> fds w \<and> fds w' = insert sock (fds w) else sock = kInvalidSocket \<and> fds w' = fds w)"

lemma hands_out_trans:
  "fds w1 = fds w \<Longrightarrow> unfreed w1 = unfreed w \<Longrightarrow> hands_out fds unfreed w1 sock b w' \<Longrightarrow> hands_out fds unfreed w sock b w'"
  by (cases b) (simp_all add: hands_out_def)

lemma socket_lawsD:
  assumes "socket_laws api fds unfreed"
  shows "api_getaddrinfo api h p b w = (r, w') \<Longrightarrow> fds w' = fds w \<and> unfreed w' = unfreed w + (if r = None then 0 else 1)"
    "fds (api_freeaddrinfo api l w) = fds w \<and> unfreed (api_freeaddrinfo api l w) = unfreed w - 1"
    "api_socket api a w = (s, w') \<Longrightarrow> opens fds s w w' \<and> unfreed w' = unfreed w"
    "api_accept api f w = (s, w') \<Longrightarrow> opens fds s w w' \<and> unfreed w' = unfreed w"
    "api_connect api s a w = (n, w') \<Longrightarrow> fds w' = fds w \<and> unfreed w' = unfreed w"
    "api_bind api s a w = (n, w') \<Longrightarrow> fds w' = fds w \<and> unfreed w' = unfreed w"
    "api_listen api s k w = (n, w') \<Longrightarrow> fds w' = fds w \<and> unfreed w' = unfreed w"
    "fds (api_reuse api s w) = fds w \<and> unfreed (api_reuse api s w) = unfreed w"
    "fds (api_close api s w) = fds w - {s} \<and> unfreed (api_close api s w) = unfreed w"
proof -
  note L = assms [unfolded socket_laws_def]
  show "fds w' = fds w \<and> unfreed w' = unfreed w + (if r = None then 0 else 1)" if "api_getaddrinfo api h p b w = (r, w')" by (rule L [THEN conjunct1, rule_format]) (rule that)
  show "fds (api_freeaddrinfo api l w) = fds w \<and> unfreed (api_freeaddrinfo api l w) = unfreed w - 1" by (rule L [THEN conjunct2, THEN conjunct1, rule_format])
  show "opens fds s w w' \<and> unfreed w' = unfreed w" if "api_socket api a w = (s, w')" by (rule L [THEN conjunct2, THEN conjunct2, THEN conjunct1, rule_format]) (rule that)
  show "opens fds s w w' \<and> unfreed w' = unfreed w" if "api_accept api f w = (s, w')" by (rule L [THEN conjunct2, THEN conjunct2, THEN conjunct2, THEN conjunct1, rule_format]) (rule that)
  show "fds w' = fds w \<and> unfreed w' = unfreed w" if "api_connect api s a w = (n, w')" by (rule L [THEN conjunct2, THEN conjunct2, THEN conjunct2, THEN conjunct2, THEN conjunct1, rule_format]) (rule that)
  show "fds w' = fds w \<and> unfreed w' = unfreed w" if "api_bind api s a w = (n, w')" by (rule L [THEN conjunct2, THEN conjunct2, THEN conjunct2, THEN conjunct2, THEN conjunct2, THEN conjunct1, rule_format]) (rule that)
  show "fds w' = fds w \<and> unfreed w' = unfreed w" if "api_listen api s k w = (n, w')" by (rule L [THEN conjunct2, THEN conjunct2, THEN conjunct2, THEN conjunct2, THEN conjunct2, THEN conjunct2, THEN conjunct1, rule_format]) (rule that)
  show "fds (api_reuse api s w) = fds w \<and> unfreed (api_reuse api s w) = unfreed w" by (rule L [THEN conjunct2, THEN conjunct2, THEN conjunct2, THEN conjunct2, THEN conjunct2, THEN conjunct2, THEN conjunct2, THEN conjunct1, rule_format])
  show "fds (api_close api s w) = fds w - {s} \<and> unfreed (api_close api s w) = unfreed w" by (rule L [THEN conjunct2, THEN conjunct2, THEN conjunct2, THEN conjunct2, THEN conjunct2, THEN conjunct2, THEN conjunct2, THEN conjunct2, rule_format])
qed

text \<open>A socket that was opened and cannot be used is closed again.\<close>

lemma opened_closed:
  assumes "socket_laws api fds unfreed" "opens fds s w w1" "0 \<le> s" "fds w2 = fds w1"
  shows "fds (api_close api s w2) = fds w"
  using assms socket_lawsD(9) [OF assms(1), of s w2] by (auto simp: opens_def)

lemma connect_loop_hands_out:
  assumes laws: "socket_laws api fds unfreed"
  shows "connect_loop api rps w = (sock, w') \<Longrightarrow> hands_out fds unfreed w sock (sock \<noteq> kInvalidSocket) w'"
proof (induction rps arbitrary: w)
  case (Cons rp rps)
  obtain s w1 where s: "api_socket api rp w = (s, w1)" by fastforce
  note w1 = socket_lawsD(3) [OF laws s]
  obtain r w2 where r: "api_connect api s rp w1 = (r, w2)" by fastforce
  note w2 = socket_lawsD(5) [OF laws r]
  consider "s < 0" | "0 \<le> s" "r = 0" | "0 \<le> s" "r \<noteq> 0" by linarith
  then show ?case
  proof cases
    case 1
    then have "connect_loop api rps w1 = (sock, w')" using Cons.prems s by simp
    from hands_out_trans [OF _ _ Cons.IH [OF this]] show ?thesis using w1 1 by (simp add: opens_def)
  next
    case 2
    then show ?thesis using Cons.prems s r w1 w2 by (simp add: hands_out_def opens_def kInvalidSocket_def)
  next
    case 3
    then have "connect_loop api rps (api_close api s w2) = (sock, w')" using Cons.prems s r by simp
    from hands_out_trans [OF _ _ Cons.IH [OF this]] show ?thesis
      using opened_closed [OF laws conjunct1 [OF w1] 3(1), of w2] w1 w2 socket_lawsD(9) [OF laws, of s w2] by simp
  qed
qed (simp add: hands_out_def kInvalidSocket_def)

lemma listen_loop_hands_out:
  assumes laws: "socket_laws api fds unfreed"
  shows "listen_loop api rps w = (sock, w') \<Longrightarrow> hands_out fds unfreed w sock (sock \<noteq> kInvalidSocket) w'"
proof (induction rps arbitrary: w)
  case (Cons rp rps)
  obtain s w1 where s: "api_socket api rp w = (s, w1)" by fastforce
  note w1 = socket_lawsD(3) [OF laws s]
  obtain r w2 where r: "api_bind api s rp (api_reuse api s w1) = (r, w2)" by fastforce
  have w2: "fds w2 = fds w1 \<and> unfreed w2 = unfreed w1"
    using socket_lawsD(6) [OF laws r] socket_lawsD(8) [OF laws, of s w1] by simp
  obtain r' w3 where r': "api_listen api s 32 w2 = (r', w3)" by fastforce
  have w3: "fds w3 = fds w1 \<and> unfreed w3 = unfreed w1" using socket_lawsD(7) [OF laws r'] w2 by simp
  consider "s < 0" | "0 \<le> s" "r = 0" "r' = 0" | w4 where "0 \<le> s" "listen_loop api rps (api_close api s w4) = (sock, w')"
      "fds w4 = fds w1 \<and> unfreed w4 = unfreed w1"
    using Cons.prems s r r' w2 w3 by (auto split: if_splits)
  then show ?case
  proof cases
    case 1
    then have "listen_loop api rps w1 = (sock, w')" using Cons.prems s by simp
    from hands_out_trans [OF _ _ Cons.IH [OF this]] show ?thesis using w1 1 by (simp add: opens_def)
  next
    case 2
    then show ?thesis using Cons.prems s r r' w1 w3 by (simp add: hands_out_def opens_def kInvalidSocket_def)
  next
    case 3
    from hands_out_trans [OF _ _ Cons.IH [OF 3(2)]] show ?thesis
      using opened_closed [OF laws conjunct1 [OF w1] 3(1), of w4] w1 3(3) socket_lawsD(9) [OF laws, of s w4] by simp
  qed
qed (simp add: hands_out_def kInvalidSocket_def)

text \<open>The address list is released on every path, whatever the loop over it did.\<close>

lemma with_addresses_hands_out:
  assumes laws: "socket_laws api fds unfreed" and g: "api_getaddrinfo api h p b w = (Some res, w1)"
    and l: "hands_out fds unfreed w1 sock success w2"
  shows "hands_out fds unfreed w sock success (api_freeaddrinfo api res w2)"
  using socket_lawsD(1) [OF laws g] socket_lawsD(2) [OF laws, of res w2] l by (cases success) (simp_all add: hands_out_def)

lemma net_connect_hands_out:
  assumes laws: "socket_laws api fds unfreed" and "net_connect api host port w = (sock, st, w')"
  shows "hands_out fds unfreed w sock (status_ok st) w'"
proof (cases "api_getaddrinfo api (Some (c_str host)) (show_nonneg (uint port)) False w")
  case (Pair r w1)
  show ?thesis
  proof (cases r)
    case None
    then have "sock = kInvalidSocket" "\<not> status_ok st" "w' = w1" using assms(2) Pair by (auto simp: net_connect_def)
    then show ?thesis using None socket_lawsD(1) [OF laws Pair] by (simp add: hands_out_def)
  next
    case (Some res)
    obtain s w2 where l: "connect_loop api res w1 = (s, w2)" by fastforce
    then have eqs: "s = sock" "(sock \<noteq> kInvalidSocket) = status_ok st" "api_freeaddrinfo api res w2 = w'"
      using assms(2) Pair Some by (auto simp: net_connect_def Let_def split: if_splits)
    show ?thesis
      by (rule with_addresses_hands_out [OF laws Pair [unfolded Some] connect_loop_hands_out [OF laws l], unfolded eqs])
  qed
qed

lemma net_listen_hands_out:
  assumes laws: "socket_laws api fds unfreed" and "net_listen api host port w = (sock, st, w')"
  shows "hands_out fds unfreed w sock (status_ok st) w'"
proof (cases "api_getaddrinfo api (if host = [] then None else Some (c_str host)) (show_nonneg (uint port)) True w")
  case (Pair r w1)
  show ?thesis
  proof (cases r)
    case None
    then have "sock = kInvalidSocket" "\<not> status_ok st" "w' = w1" using assms(2) Pair by (auto simp: net_listen_def)
    then show ?thesis using None socket_lawsD(1) [OF laws Pair] by (simp add: hands_out_def)
  next
    case (Some res)
    obtain s w2 where l: "listen_loop api res w1 = (s, w2)" by fastforce
    then have eqs: "s = sock" "(sock \<noteq> kInvalidSocket) = status_ok st" "api_freeaddrinfo api res w2 = w'"
      using assms(2) Pair Some by (auto simp: net_listen_def Let_def split: if_splits)
    show ?thesis
      by (rule with_addresses_hands_out [OF laws Pair [unfolded Some] listen_loop_hands_out [OF laws l], unfolded eqs])
  qed
qed

lemma net_accept_hands_out:
  assumes laws: "socket_laws api fds unfreed" and "net_accept api listener w = (sock, st, w')"
  shows "hands_out fds unfreed w sock (status_ok st) w'"
proof (cases "api_accept api listener w")
  case (Pair s w1)
  then have "w' = w1" "sock = (if s < 0 then kInvalidSocket else s)" "status_ok st \<longleftrightarrow> \<not> s < 0"
    using assms(2) by (auto simp: net_accept_def split: if_splits)
  then show ?thesis using socket_lawsD(4) [OF laws Pair] by (cases "s < 0") (simp_all add: hands_out_def opens_def)
qed

lemma net_close_releases:
  assumes laws: "socket_laws api fds unfreed" and "hands_out fds unfreed w sock success w'" and "kInvalidSocket \<notin> fds w"
  shows "fds (net_close api sock w') = fds w"
  using assms(2,3) socket_lawsD(9) [OF laws, of sock w'] by (cases success) (auto simp: net_close_def hands_out_def kInvalidSocket_def)

section \<open>A small operating system\<close>

text \<open>The open descriptors and the number of address lists; every host has the addresses 1, 2 and 3, of which 3 answers.\<close>

definition next_fd :: "int list \<Rightarrow> int" where
  "next_fd l = foldr max l 2 + 1"

definition small_api :: "(int, int list \<times> nat) SocketApi" where
  "small_api = \<lparr> api_getaddrinfo = (\<lambda>h p b (l, n). (Some [1, 2, 3], (l, Suc n))), api_freeaddrinfo = (\<lambda>_ (l, n). (l, n - 1)),
     api_socket = (\<lambda>a (l, n). if a = 1 then (-1, (l, n)) else (next_fd l, (next_fd l # l, n))),
     api_connect = (\<lambda>s a w. (if a = 3 then 0 else -1, w)), api_reuse = (\<lambda>s w. w),
     api_bind = (\<lambda>s a w. (if a = 3 then 0 else -1, w)), api_listen = (\<lambda>s k w. (0, w)),
     api_accept = (\<lambda>s (l, n). (next_fd l, (next_fd l # l, n))), api_close = (\<lambda>s (l, n). (removeAll s l, n)),
     api_recv = (\<lambda>s n w. (None, w)), api_send = (\<lambda>s bs w. (-1, w)) \<rparr>"

lemma next_fd_fresh: "next_fd l \<notin> set l" "\<not> next_fd l < 0"
proof -
  have "x \<in> set l \<Longrightarrow> x \<le> foldr max l 2" "2 \<le> foldr max l (2::int)" for x by (induction l) auto
  then show "next_fd l \<notin> set l" "\<not> next_fd l < 0" by (force simp: next_fd_def)+
qed

lemma small_api_laws: "socket_laws small_api (\<lambda>w. set (fst w)) snd"
  unfolding socket_laws_def small_api_def by (auto simp: opens_def next_fd_fresh)

section \<open>Properties\<close>

text \<open>
  Property C30.  Sockets are not leaked: whatever the operating system answers, a connect, a listen or an accept that
  reports success has opened exactly the descriptor it returns, one that reports a failure has closed every descriptor
  it opened and returns the invalid handle, the address list is released on every path, and closing the handle
  restores the descriptors the process had before.
\<close>

theorem sockets_not_leaked:
  assumes "socket_laws api fds unfreed" "kInvalidSocket \<notin> fds w"
    "(sock, st, w') \<in> {net_connect api host port w, net_listen api host port w, net_accept api listener w}"
  shows "(status_ok st \<longrightarrow> 0 \<le> sock \<and> sock \<notin> fds w \<and> fds w' = insert sock (fds w)) \<and>
    (\<not> status_ok st \<longrightarrow> sock = kInvalidSocket \<and> fds w' = fds w) \<and> unfreed w' = unfreed w \<and> fds (net_close api sock w') = fds w"
proof -
  have h: "hands_out fds unfreed w sock (status_ok st) w'"
    using assms(3) net_connect_hands_out [OF assms(1), of host port w sock st w']
      net_listen_hands_out [OF assms(1), of host port w sock st w'] net_accept_hands_out [OF assms(1), of listener w sock st w']
    by (metis empty_iff insert_iff)
  then show ?thesis using net_close_releases [OF assms(1) h assms(2)] by (cases "status_ok st") (simp_all add: hands_out_def)
qed

theorem sockets_not_leaked_witness:
  "net_connect small_api ''127.0.0.1'' 45700 ([7], 0) = (8, ok, ([8, 7], 0)) \<and>
   set (fst (net_close small_api 8 ([8, 7], 0))) = {7}"
proof -
  have c: "net_connect small_api ''127.0.0.1'' 45700 ([7], 0) = (8, ok, ([8, 7], 0))"
    by (simp add: net_connect_def small_api_def next_fd_def kInvalidSocket_def)
  then show ?thesis
    using sockets_not_leaked [OF small_api_laws, of "([7], 0)" 8 ok "([8, 7], 0)" "''127.0.0.1''" 45700 0]
    by (simp add: kInvalidSocket_def)
qed

end
