(* ===== verification/Programs.thy ===== *)
theory Programs
  imports Threads Sockets
begin

text \<open>
  The \<^verbatim>\<open>main\<close> functions of the coordinator and of the worker: their command lines, with the exceptions of the number
  parsers of the standard library, their connections and their exit codes.  An exception that reaches \<^verbatim>\<open>main\<close> ends the
  process.
\<close>

section \<open>Numbers of the standard library\<close>

datatype StdException = Invalid_argument | Out_of_range

text \<open>\<^verbatim>\<open>std::stoi\<close> and \<^verbatim>\<open>std::stoull\<close> take the number at the start of the text and ignore what follows.\<close>

definition stoi :: "string \<Rightarrow> StdException + int" where
  "stoi s =
     (let (neg, ds, rest) = scan_integer (c_str s);
          v = (if neg then - read_nonneg ds else read_nonneg ds)
      in if ds = [] then Inl Invalid_argument
         else if v < - 2147483648 \<or> 2147483647 < v then Inl Out_of_range else Inr v)"

definition stoull :: "string \<Rightarrow> StdException + u64" where
  "stoull s =
     (let (neg, ds, rest) = scan_integer (c_str s);
          m = read_nonneg ds
      in if ds = [] then Inl Invalid_argument
         else if 18446744073709551615 < m then Inl Out_of_range else Inr (word_of_int (if neg then - m else m)))"

text \<open>
  What the C standard leaves to the implementation of \<^verbatim>\<open>strtod\<close>: the bits of a not-a-number for its spelling, and whether a
  result too small for a normal number sets \<^verbatim>\<open>errno\<close>.
\<close>

record Stdlib =
  sl_nan :: "string \<Rightarrow> double"
  sl_underflow :: "string \<Rightarrow> bool"

definition lower :: "char \<Rightarrow> char" where
  "lower c = (let n = of_char c :: nat in if 65 \<le> n \<and> n \<le> 90 then char_of (n + 32) else c)"

definition spells :: "string \<Rightarrow> string \<Rightarrow> bool" where
  "spells word s \<longleftrightarrow> map lower (take (length word) s) = word"

text \<open>The digits of the mantissa hold a digit other than 0, so that a result of zero is an underflow.\<close>

definition mantissa_nonzero :: "string \<Rightarrow> bool" where
  "mantissa_nonzero s =
     (let (ip, fp, rest) = (if take 2 s \<in> {''0x'', ''0X''} then scan_mantissa is_xdigit (drop 2 s) else scan_mantissa is_digit s)
      in list_ex (\<lambda>c. c \<noteq> CHR ''0'') (ip @ fp))"

definition stod :: "Stdlib \<Rightarrow> string \<Rightarrow> StdException + double" where
  "stod lib s =
     (let (neg, u) = scan_sign (dropWhile is_space (c_str s))
      in if spells ''inf'' u then Inr (mk_double neg inf_mag)
         else if spells ''nan'' u then Inr (sl_nan lib (c_str s))
         else case strtod (c_str s) of
           None \<Rightarrow> Inl Invalid_argument
         | Some (v, rest) \<Rightarrow>
             if is_inf v then Inl Out_of_range
             else if dmag v < 4503599627370496 \<and> mantissa_nonzero u \<and> sl_underflow lib (c_str s) then Inl Out_of_range
             else Inr v)"

section \<open>Coordinator\<close>

text \<open>The loop over the arguments; an option without a value and an unknown word are skipped.\<close>

fun coordinator_args :: "string list \<Rightarrow> u16 \<Rightarrow> string \<Rightarrow> StdException + (u16 \<times> string)" where
  "coordinator_args (a # v # rest) port state_file =
     (if a = ''--port''
      then (case stoi v of Inl e \<Rightarrow> Inl e | Inr n \<Rightarrow> coordinator_args rest (word_of_int n) state_file)
      else if a = ''--state'' then coordinator_args rest port v
      else coordinator_args (v # rest) port state_file)"
| "coordinator_args [a] port state_file = Inr (port, state_file)"
| "coordinator_args [] port state_file = Inr (port, state_file)"

text \<open>
  \<^verbatim>\<open>main\<close> up to the accept loop, with what it prints.  A coordinator that serves has started its monitor thread; when the
  loop ends, after a failed accept, \<^verbatim>\<open>main\<close> waits for the monitor, which never returns.
\<close>

datatype CoordinatorMain = CM_exits int | CM_throws StdException | CM_serves int Coordinator

definition load_message :: "i64 \<Rightarrow> bool \<Rightarrow> path \<Rightarrow> FileSystem \<Rightarrow> string" where
  "load_message ms readable state_file disk =
     (if state_file = [] then []
      else let st = fst (load readable state_file disk (co_fabric (set_scenario ms (initial_coordinator state_file disk))))
           in if status_ok st then []
              else ''coordinator: load state failed ('' @ c_str (status_message st) @ '')'' @ [CHR 0x0A])"

definition coordinator_main ::
  "('addr, 'w) SocketApi \<Rightarrow> i64 \<Rightarrow> bool \<Rightarrow> FileSystem \<Rightarrow> string list \<Rightarrow> 'w \<Rightarrow> string \<times> CoordinatorMain \<times> 'w" where
  "coordinator_main api ms readable disk argv w =
     (case coordinator_args (tl argv) kDefaultPort [] of
        Inl e \<Rightarrow> ([], CM_throws e, w)
      | Inr (port, state_file) \<Rightarrow>
          let co = start ms readable state_file disk;
              out = load_message ms readable state_file disk;
              (listener, st, w) = net_listen api ''127.0.0.1'' port w
          in if \<not> status_ok st
             then (out @ ''coordinator: listen failed: '' @ c_str (status_message st) @ [CHR 0x0A], CM_exits 1, w)
             else (out @ ''coordinator: READY port='' @ show_nonneg (uint port) @ '' epoch='' @ show_u64 (gen_value (co_epoch co)) @ [CHR 0x0A],
                   CM_serves listener co, w))"

text \<open>At most \<open>n\<close> turns of the accept loop: the sockets handed to handler threads, and whether the loop has ended.\<close>

fun accept_loop :: "('addr, 'w) SocketApi \<Rightarrow> nat \<Rightarrow> int \<Rightarrow> 'w \<Rightarrow> int list \<times> bool \<times> 'w" where
  "accept_loop api 0 listener w = ([], False, w)"
| "accept_loop api (Suc n) listener w =
     (let (sock, st, w) = net_accept api listener w
      in if \<not> status_ok st then ([], True, w)
         else let (socks, ended, w) = accept_loop api n listener w in (sock # socks, ended, w))"

section \<open>Worker\<close>

fun worker_args :: "Stdlib \<Rightarrow> string list \<Rightarrow> u16 \<Rightarrow> WorkerConfig \<Rightarrow> StdException + (u16 \<times> WorkerConfig)" where
  "worker_args lib (a # v # rest) port cfg =
     (if a = ''--port'' then (case stoi v of Inl e \<Rightarrow> Inl e | Inr n \<Rightarrow> worker_args lib rest (word_of_int n) cfg)
      else if a = ''--name'' then worker_args lib rest port (cfg\<lparr> wc_name := v \<rparr>)
      else if a = ''--latency''
      then (case stod lib v of Inl e \<Rightarrow> Inl e | Inr x \<Rightarrow> worker_args lib rest port (cfg\<lparr> wc_latency_ns := x \<rparr>))
      else if a = ''--mode'' then worker_args lib rest port (cfg\<lparr> wc_serve := (v = ''serve'') \<rparr>)
      else if a = ''--boot''
      then (case stoull v of Inl e \<Rightarrow> Inl e | Inr n \<Rightarrow> worker_args lib rest port (cfg\<lparr> wc_forced_boot := n \<rparr>))
      else if a = ''--epoch''
      then (case stoull v of Inl e \<Rightarrow> Inl e | Inr n \<Rightarrow> worker_args lib rest port (cfg\<lparr> wc_epoch := n \<rparr>))
      else worker_args lib (v # rest) port cfg)"
| "worker_args lib [a] port cfg = Inr (port, cfg)"
| "worker_args lib [] port cfg = Inr (port, cfg)"

text \<open>A registered worker stays in its loop; \<open>WM_loops\<close> carries its socket and configuration.\<close>

datatype WorkerMain = WM_exits int | WM_throws StdException | WM_loops int WorkerConfig

definition ack_text :: "bytes \<Rightarrow> string" where
  "ack_text p = (case decode_ack p of None \<Rightarrow> [] | Some a \<Rightarrow> ak_status a)"

definition registered_line :: "WorkerConfig \<Rightarrow> int \<Rightarrow> string \<Rightarrow> string" where
  "registered_line cfg code msg =
     ''worker: registered name='' @ c_str (wc_name cfg) @ '' boot='' @ show_u64 (wc_forced_boot cfg) @ '' code='' @ show_int code @
     '' msg='' @ c_str msg @ [CHR 0x0A]"

definition worker_main ::
  "('addr, 'w) SocketApi \<Rightarrow> Stdlib \<Rightarrow> u64 \<Rightarrow> int \<Rightarrow> string list \<Rightarrow> 'w \<Rightarrow> string \<times> WorkerMain \<times> 'w" where
  "worker_main api lib fresh uninit argv w =
     (case worker_args lib (tl argv) kDefaultPort default_worker of
        Inl e \<Rightarrow> ([], WM_throws e, w)
      | Inr (port, cfg) \<Rightarrow>
     let cfg = choose_boot fresh cfg;
         (sock, st, w) = net_connect api ''127.0.0.1'' port w
     in if \<not> status_ok st then (''worker: connect failed: '' @ c_str (status_message st) @ [CHR 0x0A], WM_exits 1, w)
     else let (st, w) = send_frame (api_send api sock) (worker_hello cfg) w
     in if \<not> status_ok st then ([], WM_exits 1, w)
     else let (r, w) = recv_frame (api_recv api sock) kMaxFramePayload w
     in case result_data r of
        None \<Rightarrow> ([], WM_exits 1, w)
      | Some ack \<Rightarrow>
          let code = decode_ack_code (f_payload ack) uninit;
              out = registered_line cfg code (ack_text (f_payload ack))
          in if code \<noteq> 0 then (out, WM_exits 2, net_close api sock w) else (out, WM_loops sock cfg, w))"

text \<open>\<open>n\<close> rounds of the loop of the worker, which ignores whether its frames were sent.\<close>

fun worker_rounds :: "('addr, 'w) SocketApi \<Rightarrow> int \<Rightarrow> WorkerConfig \<Rightarrow> nat \<Rightarrow> 'w \<Rightarrow> 'w" where
  "worker_rounds api sock cfg 0 w = w"
| "worker_rounds api sock cfg (Suc n) w =
     worker_rounds api sock cfg n (fold (\<lambda>f w. snd (send_frame (api_send api sock) f w)) (worker_round cfg) w)"

section \<open>Printed numbers are read back\<close>

lemma stoi_shown: "stoi (show_int n) = (if - 2147483648 \<le> n \<and> n \<le> 2147483647 then Inr n else Inl Out_of_range)"
  using show_nonneg_all [of n] show_nonneg_all [of "- n"]
  by (cases "n < 0") (auto simp: stoi_def show_int_def c_str_shown scan_shown read_show_nonneg)

lemma stoull_shown: "stoull (show_u64 w) = Inr w"
proof -
  have "0 \<le> uint w" "uint w < 18446744073709551616" using uint_bounded [of w] by simp_all
  then show ?thesis
    using show_nonneg_all [of "uint w"] by (simp add: stoull_def show_u64_def c_str_shown scan_shown read_show_nonneg)
qed

lemma stoi_port: "stoi (show_nonneg (uint (port :: u16))) = Inr (uint port)"
proof -
  have "0 \<le> uint port" "uint port < 65536" using uint_bounded [of port] by simp_all
  then have "- 2147483648 \<le> uint port" "uint port \<le> 2147483647" by linarith+
  then show ?thesis using stoi_shown [of "uint port"] by (simp add: show_int_def)
qed

section \<open>Properties\<close>

text \<open>
  A port number on the command line of the coordinator is not checked: a number in the range of an \<^verbatim>\<open>int\<close> is
  accepted and reduced modulo 65536, so that exactly the numbers from 0 to 65535 denote the port they name, and any other
  number ends the process with an exception.
\<close>

theorem port_option_reduced:
  "coordinator_args (''--port'' # show_int n # rest) port state_file =
     (if - 2147483648 \<le> n \<and> n \<le> 2147483647 then coordinator_args rest (word_of_int n) state_file else Inl Out_of_range) \<and>
   (uint (word_of_int n :: u16) = n \<longleftrightarrow> 0 \<le> n \<and> n < 65536)"
proof -
  have "uint (word_of_int n :: u16) = n \<longleftrightarrow> 0 \<le> n \<and> n < 65536"
  proof
    assume n: "uint (word_of_int n :: u16) = n"
    have "0 \<le> uint (word_of_int n :: u16)" by simp
    then show "0 \<le> n \<and> n < 65536" using uint_bounded [of "word_of_int n :: u16"] unfolding n by simp
  qed (simp add: uint_word_of_int)
  then show ?thesis by (auto simp: stoi_shown)
qed

end
