(* ===== verification/Driver.thy ===== *)
theory Driver
  imports Programs
begin

text \<open>
  The driver of the distributed proof (\<^verbatim>\<open>distributed_proof.cpp\<close>) with its process helper (\<^verbatim>\<open>process.hpp\<close>, the POSIX
  branches): it starts coordinator and workers as processes, asks the coordinator for its decision over a control
  connection, and counts the checks that fail.
\<close>

section \<open>Processes\<close>

text \<open>
  \<^verbatim>\<open>waitpid\<close> with \<^verbatim>\<open>WNOHANG\<close> yields its result and, when the process has exited by itself, its exit status.  The steady clock
  counts nanoseconds.
\<close>

record ('addr, 'w) DriverApi =
  dr_sockets :: "('addr, 'w) SocketApi"
  dr_spawn :: "string \<Rightarrow> string list \<Rightarrow> 'w \<Rightarrow> int \<times> 'w"
  dr_kill :: "int \<Rightarrow> 'w \<Rightarrow> 'w"
  dr_waitpid :: "int \<Rightarrow> 'w \<Rightarrow> (int \<times> int option) \<times> 'w"
  dr_now :: "'w \<Rightarrow> int \<times> 'w"
  dr_sleep :: "int \<Rightarrow> 'w \<Rightarrow> 'w"
  dr_remove :: "string \<Rightarrow> 'w \<Rightarrow> 'w"

record Process =
  pr_pid :: int

definition process_valid :: "Process \<Rightarrow> bool" where
  "process_valid p \<longleftrightarrow> 0 < pr_pid p"

text \<open>A child that cannot run the program exits with status 127, which \<^verbatim>\<open>waitpid\<close> reports; \<open>dr_spawn\<close> is \<^verbatim>\<open>fork\<close> and \<^verbatim>\<open>execv\<close>.\<close>

definition spawn :: "('addr, 'w) DriverApi \<Rightarrow> string \<Rightarrow> string list \<Rightarrow> 'w \<Rightarrow> Process \<times> 'w" where
  "spawn dr program args w = (let (pid, w) = dr_spawn dr (c_str program) (map c_str (program # args)) w in (\<lparr> pr_pid = pid \<rparr>, w))"

definition kill_process :: "('addr, 'w) DriverApi \<Rightarrow> Process \<Rightarrow> 'w \<Rightarrow> 'w" where
  "kill_process dr p w = (if \<not> process_valid p then w else dr_kill dr (pr_pid p) w)"

text \<open>The results of \<^verbatim>\<open>wait_exit\<close>: what it returns and the out-parameters \<^verbatim>\<open>exited\<close> and \<^verbatim>\<open>code\<close>.  Not returning is \<open>None\<close>.\<close>

type_synonym wait_result = "bool \<times> bool \<times> int"

partial_function (option) wait_loop ::
  "('addr, 'w) DriverApi \<Rightarrow> int \<Rightarrow> int \<Rightarrow> int \<Rightarrow> 'w \<Rightarrow> (wait_result \<times> 'w) option" where
  "wait_loop dr pid timeout_ms start_ns w =
     (case dr_now dr w of
        (now, w) \<Rightarrow>
          if timeout_ms \<le> (now - start_ns) div 1000000 then Some ((False, False, 0), w)
          else case dr_waitpid dr pid w of
            ((r, st), w) \<Rightarrow>
              if r = pid then Some ((True, True, case st of Some c \<Rightarrow> c | None \<Rightarrow> - 1), w)
              else if r < 0 then Some ((True, True, - 1), w)
              else wait_loop dr pid timeout_ms start_ns (dr_sleep dr 20 w))"

definition wait_exit :: "('addr, 'w) DriverApi \<Rightarrow> Process \<Rightarrow> int \<Rightarrow> 'w \<Rightarrow> (wait_result \<times> 'w) option" where
  "wait_exit dr p timeout_ms w =
     (if \<not> process_valid p then Some ((True, True, 0), w)
      else let (start_ns, w) = dr_now dr w in wait_loop dr (pr_pid p) timeout_ms start_ns w)"

definition wait_process :: "('addr, 'w) DriverApi \<Rightarrow> Process \<Rightarrow> int \<Rightarrow> 'w \<Rightarrow> (bool \<times> 'w) option" where
  "wait_process dr p timeout_ms w = map_option (\<lambda>((r, exited, code), w). (r, w)) (wait_exit dr p timeout_ms w)"

section \<open>Control connection\<close>

text \<open>The loop over \<open>n\<close> attempts.\<close>

fun ctrl_connect :: "('addr, 'w) DriverApi \<Rightarrow> nat \<Rightarrow> u16 \<Rightarrow> 'w \<Rightarrow> int \<times> 'w" where
  "ctrl_connect dr 0 port w = (kInvalidSocket, w)"
| "ctrl_connect dr (Suc n) port w =
     (let (c, st, w) = net_connect (dr_sockets dr) ''127.0.0.1'' port w
      in if status_ok st then (c, w) else ctrl_connect dr n port (dr_sleep dr 100 w))"

text \<open>The decoded reply, which the driver copies into its struct \<^verbatim>\<open>Eval\<close>; \<open>None\<close> when the function returns \<^verbatim>\<open>false\<close>.\<close>

definition ctrl_eval :: "('addr, 'w) DriverApi \<Rightarrow> int \<Rightarrow> 'w \<Rightarrow> Reply option \<times> 'w" where
  "ctrl_eval dr c w =
     (let (st, w) = send_frame (api_send (dr_sockets dr) c) \<lparr> f_kind = FK_EvaluateRequest, f_flags = 0, f_payload = [] \<rparr> w
      in if \<not> status_ok st then (None, w)
         else let (r, w) = recv_frame (api_recv (dr_sockets dr) c) kMaxFramePayload w
              in case result_data r of
                   None \<Rightarrow> (None, w)
                 | Some rep \<Rightarrow> (if f_kind rep \<noteq> FK_EvaluateReply then None else decode_reply (f_payload rep), w))"

fun poll :: "('addr, 'w) DriverApi \<Rightarrow> int \<Rightarrow> nat \<Rightarrow> (Reply \<Rightarrow> bool) \<Rightarrow> 'w \<Rightarrow> bool \<times> 'w" where
  "poll dr c 0 pred w = (False, w)"
| "poll dr c (Suc n) pred w =
     (case ctrl_eval dr c w of
        (Some e, w) \<Rightarrow> if pred e then (True, w) else poll dr c n pred (dr_sleep dr 100 w)
      | (None, w) \<Rightarrow> poll dr c n pred (dr_sleep dr 100 w))"

definition is_compliant :: "Reply \<Rightarrow> bool" where
  "is_compliant e \<longleftrightarrow> rp_compliance e = 0"

definition is_failure_transition :: "Reply \<Rightarrow> bool" where
  "is_failure_transition e \<longleftrightarrow>
     rp_compliance e = 3 \<or> rp_compliance e = 6 \<or> rp_compliance e = 4 \<or> rp_compliance e = 5"

fun contains :: "string \<Rightarrow> string \<Rightarrow> bool" where
  "contains sub [] \<longleftrightarrow> sub = []"
| "contains sub (c # cs) \<longleftrightarrow> take (length sub) (c # cs) = sub \<or> contains sub cs"

section \<open>Checks\<close>

record Checks =
  ck_out :: string
  ck_fail :: int

definition chk :: "bool \<Rightarrow> string \<Rightarrow> Checks \<Rightarrow> Checks" where
  "chk c m k = k\<lparr> ck_out := ck_out k @ (if c then ''[PASS] '' else ''[FAIL] '') @ m @ [CHR 0x0A],
                  ck_fail := (if c then ck_fail k else ck_fail k + 1) \<rparr>"

definition say :: "string \<Rightarrow> Checks \<Rightarrow> Checks" where
  "say m k = k\<lparr> ck_out := ck_out k @ m @ [CHR 0x0A] \<rparr>"

section \<open>Phases\<close>

text \<open>The command lines of the processes.\<close>

definition coordinator_argv :: "u16 \<Rightarrow> string \<Rightarrow> string list" where
  "coordinator_argv port state_file = [''--port'', show_nonneg (uint port), ''--state'', state_file]"

definition worker_argv :: "u16 \<Rightarrow> string \<Rightarrow> string \<Rightarrow> string \<Rightarrow> string \<Rightarrow> string list" where
  "worker_argv port name boot epoch latency =
     [''--port'', show_nonneg (uint port), ''--name'', name, ''--boot'', boot, ''--epoch'', epoch, ''--latency'', latency, ''--mode'', ''serve'']"

definition state_file_name :: "u16 \<Rightarrow> string" where
  "state_file_name port = ''coord_state_'' @ show_nonneg (uint port) @ ''.bin''"

text \<open>Phases 1 to 5, up to the worker with a stale boot id: the coordinator, the control connection, worker B.\<close>

definition driver_serving :: "('addr, 'w) DriverApi \<Rightarrow> string \<Rightarrow> string \<Rightarrow> u16 \<Rightarrow> Checks \<Rightarrow> 'w \<Rightarrow>
    (Process \<times> int \<times> Process \<times> Checks \<times> 'w) option" where
  "driver_serving dr coord_exe worker_exe port k w = do {
     let (coord, w) = spawn dr coord_exe (coordinator_argv port (state_file_name port)) w;
     let k = chk (process_valid coord) ''coordinator started'' k;
     let (ctl, w) = ctrl_connect dr 80 port w;
     let k = chk (ctl \<noteq> kInvalidSocket) ''coordinator accept connections'' k;
     let (workerA, w) = spawn dr worker_exe (worker_argv port ''A'' ''1001'' ''1'' ''50000000'') w;
     let k = chk (process_valid workerA) ''worker A started'' k;
     let (okay, w) = poll dr ctl 120 is_compliant w;
     let k = chk okay ''worker A serving yields compliant'' k;
     let (_, w) = poll dr ctl 5 (\<lambda>e. contains ''latency'' (rp_text e)) w;
     let w = kill_process dr workerA w;
     let k = say ''worker A killed (pid)'' k;
     let (failed, w) = poll dr ctl 120 is_failure_transition w;
     let k = chk failed ''worker A death produces a failure transition (revalidation/insufficient/recovering)'' k;
     let (workerB, w) = spawn dr worker_exe (worker_argv port ''B'' ''1002'' ''1'' ''60000000'') w;
     let k = chk (process_valid workerB) ''worker B started'' k;
     let (recovered, w) = poll dr ctl 120 is_compliant w;
     let k = chk recovered ''worker B failover restores compliance'' k;
     let (stale, w) = spawn dr worker_exe (worker_argv port ''A'' ''1001'' ''1'' ''50000000'') w;
     ((_, sex, scode), w) \<leftarrow> wait_exit dr stale 4000 w;
     let k = chk (sex \<and> scode = 2) ''stale boot id (reused 1001) rejected; worker exits with error'' k;
     Some (coord, ctl, workerB, k, w) }"

text \<open>Phase 6: the coordinator is told to save and exit, and is started again on its file.\<close>

definition driver_restart :: "('addr, 'w) DriverApi \<Rightarrow> string \<Rightarrow> u16 \<Rightarrow> Process \<Rightarrow> int \<Rightarrow> Checks \<Rightarrow> 'w \<Rightarrow>
    (Process \<times> int \<times> Checks \<times> 'w) option" where
  "driver_restart dr coord_exe port coord ctl k w = do {
     let (_, w) = send_frame (api_send (dr_sockets dr) ctl) \<lparr> f_kind = FK_Kill, f_flags = 0, f_payload = [] \<rparr> w;
     ((_, cexit, _), w) \<leftarrow> wait_exit dr coord 6000 w;
     let k = chk cexit ''coordinator stopped'' k;
     let w = net_close (dr_sockets dr) ctl w;
     let (coord2, w) = spawn dr coord_exe (coordinator_argv port (state_file_name port)) w;
     let k = chk (process_valid coord2) ''coordinator restarted'' k;
     let (ctl2, w) = ctrl_connect dr 80 port w;
     let k = chk (ctl2 \<noteq> kInvalidSocket) ''restarted coordinator accepts connections'' k;
     let (e2, w) = ctrl_eval dr ctl2 w;
     let k = (case e2 of
                Some e \<Rightarrow> chk (rp_epoch e = 2) ''coordinator epoch advanced to 2 after restart'' k
              | None \<Rightarrow> chk False ''restart eval reply'' k);
     Some (coord2, ctl2, k, w) }"

definition driver_epochs :: "('addr, 'w) DriverApi \<Rightarrow> string \<Rightarrow> u16 \<Rightarrow> Checks \<Rightarrow> 'w \<Rightarrow> (Process \<times> Checks \<times> 'w) option" where
  "driver_epochs dr worker_exe port k w = do {
     let (oldw, w) = spawn dr worker_exe (worker_argv port ''A'' ''2001'' ''1'' ''50000000'') w;
     ((_, owx, owc), w) \<leftarrow> wait_exit dr oldw 4000 w;
     let k = chk (owx \<and> owc = 2) ''stale epoch (1 after restart) worker rejected'' k;
     let (neww, w) = spawn dr worker_exe (worker_argv port ''A'' ''2002'' ''2'' ''50000000'') w;
     ((_, nwx, _), w) \<leftarrow> wait_exit dr neww 1500 w;
     let k = chk (\<not> nwx) ''new-epoch worker accepted (still running)'' k;
     Some (neww, k, w) }"

text \<open>\<open>Inl\<close> is the exception of an unreadable port, \<open>Inr\<close> the output and the exit code; not returning is \<open>None\<close>.\<close>

definition driver_main :: "('addr, 'w) DriverApi \<Rightarrow> string list \<Rightarrow> 'w \<Rightarrow> ((StdException + string \<times> int) \<times> 'w) option" where
  "driver_main dr argv w =
     (if length argv < 3
      then Some (Inr (''usage: distributed_proof <coordinator_exe> <worker_exe> [port]'' @ [CHR 0x0A], 2), w)
      else case (if 4 \<le> length argv then map_sum id word_of_int (stoi (argv ! 3)) else Inr 45701) of
        Inl e \<Rightarrow> Some (Inl e, w)
      | Inr port \<Rightarrow> do {
          (coord, ctl, workerB, k, w) \<leftarrow> driver_serving dr (argv ! 1) (argv ! 2) port \<lparr> ck_out = [], ck_fail = 0 \<rparr> w;
          (coord2, ctl2, k, w) \<leftarrow> driver_restart dr (argv ! 1) port coord ctl k w;
          (neww, k, w) \<leftarrow> driver_epochs dr (argv ! 2) port k w;
          let w = kill_process dr coord2 (kill_process dr neww (kill_process dr workerB w));
          let w = dr_remove dr (c_str (state_file_name port)) (net_close (dr_sockets dr) ctl2 w);
          Some (Inr (ck_out k @ [CHR 0x0A] @
                       (if ck_fail k = 0 then ''DISTRIBUTED PROOF: ALL PASS'' else ''DISTRIBUTED PROOF: FAILURES'') @ [CHR 0x0A],
                     if ck_fail k = 0 then 0 else 1), w) })"

section \<open>Waiting ends\<close>

text \<open>
  What the driver relies on: the steady clock never goes back and a sleep lasts at least as long as it was asked to.
  \<open>clock w\<close> is the time at \<open>w\<close>.
\<close>

definition clock_laws :: "('addr, 'w) DriverApi \<Rightarrow> ('w \<Rightarrow> int) \<Rightarrow> bool" where
  "clock_laws dr clock \<longleftrightarrow>
     (\<forall>w t w'. dr_now dr w = (t, w') \<longrightarrow> clock w \<le> t \<and> t \<le> clock w') \<and>
     (\<forall>p w r w'. dr_waitpid dr p w = (r, w') \<longrightarrow> clock w \<le> clock w') \<and>
     (\<forall>ms w. clock w + ms * 1000000 \<le> clock (dr_sleep dr ms w))"

lemma wait_loop_returns:
  assumes laws: "clock_laws dr clock"
  shows "wait_loop dr pid timeout_ms start_ns w \<noteq> None"
proof (induction "nat (start_ns + timeout_ms * 1000000 - clock w)" arbitrary: w rule: less_induct)
  case less
  obtain now w1 where now: "dr_now dr w = (now, w1)" by fastforce
  then have t: "clock w \<le> now" "now \<le> clock w1" using laws by (auto simp: clock_laws_def)
  obtain r st w2 where r: "dr_waitpid dr pid w1 = ((r, st), w2)" using prod_cases3 by (metis surj_pair)
  then have "clock w1 \<le> clock w2" using laws by (auto simp: clock_laws_def)
  moreover have "clock w2 + 20 * 1000000 \<le> clock (dr_sleep dr 20 w2)" using laws unfolding clock_laws_def by blast
  ultimately have later: "clock w + 20000000 \<le> clock (dr_sleep dr 20 w2)" using t by linarith
  show ?case
  proof (cases "timeout_ms \<le> (now - start_ns) div 1000000")
    case True
    then show ?thesis using now by (simp add: wait_loop.simps [of dr pid timeout_ms start_ns w])
  next
    case False
    then have "now - start_ns < timeout_ms * 1000000" by (simp add: not_le div_less_iff_less_mult)
    then have "nat (start_ns + timeout_ms * 1000000 - clock (dr_sleep dr 20 w2)) < nat (start_ns + timeout_ms * 1000000 - clock w)"
      using later t by simp
    from less.hyps [OF this] show ?thesis using now r False by (auto simp: wait_loop.simps [of dr pid timeout_ms start_ns w])
  qed
qed

lemma wait_exit_returns: "clock_laws dr clock \<Longrightarrow> yields (\<lambda>_. True) (wait_exit dr p timeout_ms w)"
  using wait_loop_returns [of dr clock] by (auto simp: wait_exit_def yields_def split_beta)

lemma driver_phases_return:
  assumes "clock_laws dr clock"
  shows "yields (\<lambda>_. True) (driver_serving dr coord_exe worker_exe port k w)"
    "yields (\<lambda>_. True) (driver_restart dr coord_exe port coord ctl k w)"
    "yields (\<lambda>_. True) (driver_epochs dr worker_exe port k w)"
  unfolding driver_serving_def driver_restart_def driver_epochs_def
  by (intro returns wait_exit_returns [OF assms]; simp)+

section \<open>Properties\<close>

text \<open>
  The driver of the distributed proof always ends: whatever the processes and the network do, as long as
  the steady clock advances with the sleeps of the driver, every wait for a process, every retry of a connection and every
  poll is bounded, and \<^verbatim>\<open>main\<close> returns 0, 1 or 2 or ends with the exception of an unreadable port.
\<close>

theorem driver_terminates:
  assumes "clock_laws dr clock"
  shows "\<exists>r w'. driver_main dr argv w = Some (r, w') \<and> (case r of Inl e \<Rightarrow> True | Inr (out, code) \<Rightarrow> code \<in> {0, 1, 2})"
proof -
  have "yields (\<lambda>(r, w'). case r of Inl e \<Rightarrow> True | Inr (out, code) \<Rightarrow> code \<in> {0, 1, 2}) (driver_main dr argv w)"
    unfolding driver_main_def by (simp split: sum.split) (intro conjI impI allI returns driver_phases_return [OF assms]; simp)
  then show ?thesis by (auto simp: yields_def)
qed

text \<open>A world that is a clock: no host has an address, a process never ends.\<close>

definition idle_sockets :: "(unit, int) SocketApi" where
  "idle_sockets = \<lparr> api_getaddrinfo = (\<lambda>h p b w. (None, w)), api_freeaddrinfo = (\<lambda>_ w. w), api_socket = (\<lambda>a w. (-1, w)),
     api_connect = (\<lambda>s a w. (-1, w)), api_reuse = (\<lambda>s w. w), api_bind = (\<lambda>s a w. (-1, w)), api_listen = (\<lambda>s k w. (-1, w)),
     api_accept = (\<lambda>s w. (-1, w)), api_close = (\<lambda>s w. w), api_recv = (\<lambda>s n w. (None, w)), api_send = (\<lambda>s bs w. (-1, w)) \<rparr>"

definition idle_driver :: "(unit, int) DriverApi" where
  "idle_driver = \<lparr> dr_sockets = idle_sockets, dr_spawn = (\<lambda>p as w. (5, w)), dr_kill = (\<lambda>p w. w), dr_waitpid = (\<lambda>p w. ((0, None), w)),
     dr_now = (\<lambda>w. (w, w)), dr_sleep = (\<lambda>ms w. w + ms * 1000000), dr_remove = (\<lambda>f w. w) \<rparr>"

theorem driver_terminates_witness:
  "\<exists>r w'. driver_main idle_driver [''proof'', ''coordinator'', ''worker''] 0 = Some (r, w')"
proof -
  have "clock_laws idle_driver (\<lambda>w. w)" by (simp add: clock_laws_def idle_driver_def)
  from driver_terminates [OF this] show ?thesis by blast
qed

text \<open>
  The driver and the programs it starts agree on their command lines: for every port, the coordinator
  takes the port and the state file from the arguments the driver passes, and the worker its port, name, boot id, epoch
  and latency, and serves.
\<close>

theorem command_lines_agree:
  "coordinator_args (coordinator_argv port (state_file_name port)) kDefaultPort [] = Inr (port, state_file_name port) \<and>
   worker_args lib (worker_argv port name (show_u64 boot) (show_u64 epoch) ''50000000'') kDefaultPort default_worker =
     Inr (port, \<lparr> wc_name = name, wc_latency_ns = dec 50000000 1, wc_serve = True, wc_forced_boot = boot, wc_epoch = epoch \<rparr>) \<and>
   [show_u64 1001, show_u64 1002, show_u64 2001, show_u64 2002, show_u64 1, show_u64 2] = [''1001'', ''1002'', ''2001'', ''2002'', ''1'', ''2'']"
proof -
  have "stod lib ''50000000'' = Inr (dec 50000000 1)" by code_simp
  moreover have "[show_u64 1001, show_u64 1002, show_u64 2001, show_u64 2002, show_u64 1, show_u64 2] = [''1001'', ''1002'', ''2001'', ''2002'', ''1'', ''2'']"
    by code_simp
  ultimately show ?thesis by (simp add: coordinator_argv_def worker_argv_def stoi_port stoull_shown default_worker_def)
qed

end
