(* ===== verification/Session.thy ===== *)
theory Session
  imports Driver
begin

text \<open>
  A connection from end to end: the handler of the coordinator (\<^verbatim>\<open>handle_client\<close> of \<^verbatim>\<open>coordinator_main.cpp\<close>) as it runs on a
  socket, receiving frames and sending its replies byte by byte, against the frames the other side sent and the
  programs that sent them.
\<close>

section \<open>The handler on a socket\<close>

text \<open>
  At most \<open>fuel\<close> frames are handled; the flag says that the handler has ended.  The other arguments are the socket
  interface, the environment of each turn and the socket.  \<open>CO_exit\<close> is the end of the process, which closes nothing.
\<close>

definition send_replies :: "'w send_call \<Rightarrow> Frame list \<Rightarrow> 'w \<Rightarrow> 'w" where
  "send_replies send fs w = fold (\<lambda>f w. snd (send_frame send f w)) fs w"

fun handle_client :: "('addr, 'w) SocketApi \<Rightarrow> (nat \<Rightarrow> Env) \<Rightarrow> socket_handle \<Rightarrow> nat \<Rightarrow> Coordinator \<Rightarrow> 'w \<Rightarrow> (bool \<times> Coordinator \<times> 'w) option" where
  "handle_client api envs sock 0 co w = Some (False, co, w)"
| "handle_client api envs sock (Suc fuel) co w =
     (let (r, w) = recv_frame (api_recv api sock) kMaxFramePayload w
      in case client_turn (envs 0) sock (result_data r) co of
           None \<Rightarrow> None
         | Some (out, replies, co) \<Rightarrow>
             let w = send_replies (api_send api sock) replies w
             in if out = CO_continue then handle_client api (\<lambda>i. envs (Suc i)) sock fuel co w
                else if out = CO_exit then Some (True, co, w)
                else Some (True, co, net_close api sock w))"

text \<open>
  The same conversation on frames: what the coordinator does with the frames it is sent, up to the end of the connection
  or to the first frame after which it goes no further.
\<close>

fun conversation :: "(nat \<Rightarrow> Env) \<Rightarrow> socket_handle \<Rightarrow> Frame list \<Rightarrow> Coordinator \<Rightarrow> (Frame list \<times> Coordinator) option" where
  "conversation envs sock [] co = map_option snd (client_turn (envs 0) sock None co)"
| "conversation envs sock (f # fs) co =
     (case client_turn (envs 0) sock (Some f) co of
        None \<Rightarrow> None
      | Some (out, replies, co) \<Rightarrow>
          if out = CO_continue
          then map_option (\<lambda>(rs, co). (replies @ rs, co)) (conversation (\<lambda>i. envs (Suc i)) sock fs co)
          else Some (replies, co))"

section \<open>What a connected socket promises\<close>

text \<open>
  A connected socket is a stream in each direction: \<open>incoming w\<close> is still to be received, \<open>sent w\<close> has been sent; neither
  direction touches the other, and closing takes nothing back.  A blocking send waits until it can take something.
\<close>

definition duplex :: "('addr, 'w) SocketApi \<Rightarrow> socket_handle \<Rightarrow> ('w \<Rightarrow> bytes) \<Rightarrow> ('w \<Rightarrow> bytes) \<Rightarrow> bool" where
  "duplex api sock incoming sent \<longleftrightarrow>
     stream_recv (api_recv api sock) incoming \<and> stream_send (api_send api sock) sent \<and>
     (\<forall>bs w. incoming (snd (api_send api sock bs w)) = incoming w) \<and>
     (\<forall>n w. sent (snd (api_recv api sock n w)) = sent w) \<and> (\<forall>w. sent (api_close api sock w) = sent w)"

definition blocking :: "'w send_call \<Rightarrow> bool" where
  "blocking send \<longleftrightarrow> (\<forall>bs w. bs \<noteq> [] \<longrightarrow> 0 < fst (send bs w))"

section \<open>Facts\<close>

subsection \<open>One direction at a time\<close>

lemma recv_exact_keeps:
  assumes "\<And>n w. P (snd (recv n w)) = P w"
  shows "P (snd (recv_exact recv n w)) = P w"
proof (induction n arbitrary: w rule: less_induct)
  case (less n)
  obtain b w1 where r: "recv n w = (b, w1)" by fastforce
  then have "P w1 = P w" using assms [of n w] by simp
  moreover have "P (snd (recv_exact recv (n - length bs) w1)) = P w1" if "n \<noteq> 0" "bs \<noteq> []" for bs :: bytes
    using that by (intro less.IH) simp
  ultimately show ?case by (auto simp: recv_exact.simps [of recv n w] r split_beta Let_def split: option.split)
qed

lemma recv_frame_keeps:
  assumes "\<And>n w. P (snd (recv n w)) = P w"
  shows "P (snd (recv_frame recv lim w)) = P w"
  using recv_exact_keeps [of P recv, OF assms]
  by (auto simp: recv_frame_def Let_def split: option.split prod.split if_split) (metis snd_conv)+

lemma send_exact_keeps:
  assumes "\<And>bs w. P (snd (send bs w)) = P w"
  shows "P (snd (send_exact send bs w)) = P w"
proof (induction bs arbitrary: w rule: length_induct)
  case (1 bs)
  obtain r w1 where r: "send bs w = (r, w1)" by fastforce
  then have "P w1 = P w" using assms [of bs w] by simp
  moreover have "P (snd (send_exact send (drop (nat r) bs) w1)) = P w1" if "bs \<noteq> []" "\<not> r \<le> 0"
    using that by (intro 1 [rule_format]) simp
  ultimately show ?case by (simp add: send_exact.simps [of send bs] r)
qed

lemma send_frame_keeps:
  assumes "\<And>bs w. P (snd (send bs w)) = P w"
  shows "P (snd (send_frame send f w)) = P w"
  using send_exact_keeps [of P send, OF assms] by (simp add: send_frame_def split_beta Let_def)

lemma send_replies_keeps:
  assumes "\<And>bs w. P (snd (send bs w)) = P w"
  shows "P (send_replies send fs w) = P w"
  unfolding send_replies_def by (induction fs arbitrary: w) (simp_all add: send_frame_keeps [of P send, OF assms])

text \<open>A blocking stream takes every frame.\<close>

lemma send_frame_all:
  assumes "stream_send send sent" "blocking send" "frame_wf f"
  shows "status_ok (fst (send_frame send f w)) \<and> sent (snd (send_frame send f w)) = sent w @ encode_frame f"
proof -
  have "fst (send_frames send [f] w) = length [f]"
    using assms(2,3) by (intro send_frames_total) (simp_all add: blocking_def)
  then have ok: "status_ok (fst (send_frame send f w))" by (simp add: split_beta split: if_splits)
  then show ?thesis using send_frame_prefix [OF assms(1,3), of w] by (metis prod.collapse take_all_iff order_refl)
qed

lemma send_replies_all:
  assumes "stream_send send sent" "blocking send"
  shows "\<forall>f \<in> set fs. frame_wf f \<Longrightarrow> sent (send_replies send fs w) = sent w @ concat (map encode_frame fs)"
  unfolding send_replies_def
  by (induction fs arbitrary: w) (simp_all add: send_frame_all [OF assms])

subsection \<open>The handler follows the conversation\<close>

lemma ack_frame_wf: "length txt \<le> 512 \<Longrightarrow> 0 \<le> code \<Longrightarrow> code < 256 \<Longrightarrow> frame_wf (ack_frame e b code txt)"
  using message_lengths(2) [of "\<lparr> ak_epoch = e, ak_granted_boot = b, ak_status_code = code, ak_status = txt \<rparr>"]
  by (simp add: frame_wf_def ack_frame_def ack_wf_def frame_kind_cast_def kMaxFramePayload_def)

lemma ack_frames_wf:
  "frame_wf (ack_frame e b 0 ''ok'')" "frame_wf (ack_frame e b 1 ''stale epoch'')" "frame_wf (ack_frame e b 2 ''stale boot id'')"
  "frame_wf (ack_frame e b 99 ''malformed hello'')"
  by (rule ack_frame_wf; simp)+

lemma replies_wf:
  assumes "client_turn env sock received co = Some (out, replies, co')"
  shows "\<forall>f \<in> set replies. frame_wf f"
proof -
  have reg: "\<forall>f \<in> set (fst (snd (register_worker ms sock h co))). frame_wf f" for ms h
    by (rule register_worker_cases [of h co ms sock]) (simp_all add: ack_frames_wf)
  have hello: "\<forall>f \<in> set (fst (snd (handle_hello env sock p co))). frame_wf f" for p
    by (rule handle_hello_cases [of p env sock co]) (simp_all add: ack_frames_wf reg)
  have evl: "\<forall>f \<in> set rs. frame_wf f" if e: "handle_evaluate env co = Some (rs, co2)" for rs co2
  proof -
    obtain res s where res: "evaluate (Id 100) (Id 200) (now_dur (en_now_ms env 0)) (co_fabric co) = Some (res, s)"
      "rs = [\<lparr> f_kind = FK_EvaluateReply, f_flags = 0, f_payload = encode_reply (reply_of (co_epoch co) res) \<rparr>]"
      using e by (auto simp: handle_evaluate_def split: option.splits)
    show ?thesis
      using message_lengths(4) [OF reply_of_wf [OF res(1)], of "co_epoch co"]
      by (simp add: res(2) frame_wf_def frame_kind_cast_def kMaxFramePayload_def)
  qed
  show ?thesis
  proof (cases received)
    case (Some f)
    then obtain co2 where f: "handle_frame env sock f co = Some (out, replies, co2)" using assms by (auto simp: client_turn_def)
    then show ?thesis
      using hello [of "f_payload f"] evl by (cases "f_kind f") (auto simp: handle_frame_def)
  qed (use assms in \<open>simp add: client_turn_def\<close>)
qed

lemma handle_client_step:
  assumes laws: "duplex api sock incoming sent" and f: "frame_wf f" "incoming w = encode_frame f @ rest"
    and turn: "client_turn (envs 0) sock (Some f) co = Some (out, rs, co1)"
  obtains w2 where "incoming w2 = rest" "blocking (api_send api sock) \<longrightarrow> sent w2 = sent w @ concat (map encode_frame rs)"
    "handle_client api envs sock (Suc k) co w =
       (if out = CO_continue then handle_client api (\<lambda>i. envs (Suc i)) sock k co1 w2
        else Some (True, co1, if out = CO_exit then w2 else net_close api sock w2))"
proof -
  have recv: "stream_recv (api_recv api sock) incoming" and send: "stream_send (api_send api sock) sent"
    and keep: "\<And>bs w. incoming (snd (api_send api sock bs w)) = incoming w" "\<And>n w. sent (snd (api_recv api sock n w)) = sent w"
    using laws by (simp_all add: duplex_def)
  have "\<exists>w'. recv_frame (api_recv api sock) kMaxFramePayload w = (result_value f, w') \<and> incoming w' = rest"
    using f by (intro recv_frame_delivers [OF recv]) (simp_all add: frame_wf_def, simp add: kMaxFramePayload_def)
  then obtain w1 where w1: "recv_frame (api_recv api sock) kMaxFramePayload w = (result_value f, w1)" "incoming w1 = rest" by blast
  have "sent w1 = sent w" using recv_frame_keeps [of sent "api_recv api sock", OF keep(2), of kMaxFramePayload w] by (simp add: w1(1))
  then have "blocking (api_send api sock) \<longrightarrow> sent (send_replies (api_send api sock) rs w1) = sent w @ concat (map encode_frame rs)"
    using send_replies_all [OF send _ replies_wf [OF turn]] by simp
  moreover have "incoming (send_replies (api_send api sock) rs w1) = rest"
    using send_replies_keeps [of incoming "api_send api sock", OF keep(1)] w1(2) by simp
  ultimately show thesis using that [of "send_replies (api_send api sock) rs w1"] by (auto simp: w1(1) turn Let_def)
qed

lemma handle_client_conversation:
  assumes laws: "duplex api sock incoming sent"
    and torn: "torn = [] \<or> (\<exists>f m. frame_wf f \<and> torn = take m (encode_frame f) \<and> m < length (encode_frame f))"
  shows "\<forall>f \<in> set fs. frame_wf f \<Longrightarrow> incoming w = concat (map encode_frame fs) @ torn \<Longrightarrow> length fs < fuel \<Longrightarrow>
    conversation envs sock fs co = Some (replies, co') \<Longrightarrow>
    \<exists>w'. handle_client api envs sock fuel co w = Some (True, co', w') \<and>
      (blocking (api_send api sock) \<longrightarrow> sent w' = sent w @ concat (map encode_frame replies))"
proof (induction fs arbitrary: fuel envs co w replies)
  case Nil
  obtain k where k: "fuel = Suc k" using Nil.prems(3) by (cases fuel) auto
  have recv: "stream_recv (api_recv api sock) incoming" "\<And>n w. sent (snd (api_recv api sock n w)) = sent w"
    "\<And>w. sent (net_close api sock w) = sent w" using laws by (simp_all add: duplex_def net_close_def)
  have "result_data (fst (recv_frame (api_recv api sock) kMaxFramePayload w)) = None"
    using recv_frame_torn [OF recv(1) torn] Nil.prems(2) by simp
  then show ?case
    using Nil.prems(4) recv_frame_keeps [of sent "api_recv api sock", OF recv(2), of kMaxFramePayload w]
    by (auto simp: k split_beta Let_def client_turn_def send_replies_def recv(3))
next
  case (Cons f fs)
  obtain k where k: "fuel = Suc k" using Cons.prems(3) by (cases fuel) auto
  obtain out rs co1 where turn: "client_turn (envs 0) sock (Some f) co = Some (out, rs, co1)"
    using Cons.prems(4) by (auto split: option.splits)
  have f: "frame_wf f" "incoming w = encode_frame f @ concat (map encode_frame fs) @ torn" using Cons.prems(1,2) by simp_all
  have close: "sent (net_close api sock w) = sent w" for w using laws by (simp add: duplex_def net_close_def)
  obtain w2 where w2: "incoming w2 = concat (map encode_frame fs) @ torn"
    "blocking (api_send api sock) \<longrightarrow> sent w2 = sent w @ concat (map encode_frame rs)"
    "handle_client api envs sock fuel co w =
       (if out = CO_continue then handle_client api (\<lambda>i. envs (Suc i)) sock k co1 w2
        else Some (True, co1, if out = CO_exit then w2 else net_close api sock w2))"
    unfolding k using handle_client_step [where envs = envs and k = k, OF laws f turn] by blast
  show ?case
  proof (cases "out = CO_continue")
    case True
    then obtain rs' where conv: "conversation (\<lambda>i. envs (Suc i)) sock fs co1 = Some (rs', co')" "replies = rs @ rs'"
      using Cons.prems(4) turn by auto
    have "\<exists>w'. handle_client api (\<lambda>i. envs (Suc i)) sock k co1 w2 = Some (True, co', w') \<and>
        (blocking (api_send api sock) \<longrightarrow> sent w' = sent w2 @ concat (map encode_frame rs'))"
      using Cons.IH [OF _ w2(1) _ conv(1)] Cons.prems(1,3) k by simp
    then show ?thesis using w2(2,3) conv(2) True by auto
  next
    case False
    then show ?thesis using Cons.prems(4) turn w2(2,3) close by auto
  qed
qed

subsection \<open>A worker that serves\<close>

text \<open>
  What the coordinator hands the engine for \<open>k\<close> rounds of a serving worker: two samples per round, with consecutive ids
  from \<open>i\<close>, and after the first latency sample, if a recovery is due, its restoration and verification.  The frames of a
  round are handled in three turns.
\<close>

datatype EngineInput = In_sample EvidenceRecord | In_recovery RecoveryEventPhase i64

fun take_input :: "EngineInput \<Rightarrow> Impl \<Rightarrow> Impl" where
  "take_input (In_sample e) s = snd (ingest e (e_time e) s)"
| "take_input (In_recovery ph ms) s = snd (record_recovery_event (Id kRecoveryObjId) ph (now_dur ms) s)"

definition take_inputs :: "EngineInput list \<Rightarrow> Impl \<Rightarrow> Impl" where
  "take_inputs = fold take_input"

definition recovery_due :: "WorkerConfig \<Rightarrow> Coordinator \<Rightarrow> bool" where
  "recovery_due cfg co \<longleftrightarrow> co_recovery_auth co \<and> \<not> co_recovery_verified co \<and> wc_forced_boot cfg \<noteq> 1001"

fun round_inputs :: "(nat \<Rightarrow> Env) \<Rightarrow> WorkerConfig \<Rightarrow> Coordinator \<Rightarrow> u64 \<Rightarrow> bool \<Rightarrow> nat \<Rightarrow> EngineInput list" where
  "round_inputs envs cfg co i due 0 = []"
| "round_inputs envs cfg co i due (Suc k) =
     In_sample (latency_evidence i (en_now_ms (envs 0) 0) (wc_forced_boot cfg) (wc_latency_ns cfg) co) #
     (if due then [In_recovery REP_Restored (en_now_ms (envs 0) 1), In_recovery REP_Verified (en_now_ms (envs 0) 2)] else []) @
     In_sample (availability_evidence (i + 1) (en_now_ms (envs 1) 0) (wc_forced_boot cfg) (dec 10000 1) 1 co) #
     round_inputs (\<lambda>j. envs (j + 3)) cfg co (i + 2) False k"

lemma evidence_epoch_only:
  "co_epoch co' = co_epoch co \<Longrightarrow> latency_evidence i ms b v co' = latency_evidence i ms b v co"
  "co_epoch co' = co_epoch co \<Longrightarrow> availability_evidence i ms b v n co' = availability_evidence i ms b v n co"
  by (simp_all add: latency_evidence_def availability_evidence_def)

lemma round_inputs_epoch: "co_epoch co' = co_epoch co \<Longrightarrow> round_inputs envs cfg co' i due k = round_inputs envs cfg co i due k"
  by (induction envs cfg co i due k rule: round_inputs.induct) (simp_all add: latency_evidence_def availability_evidence_def)

text \<open>
  What turns of a serving worker do to the parts of the coordinator that matter here: the inputs of the engine, the
  number of samples among them, and whether the recovery was verified.
\<close>

definition served :: "EngineInput list \<Rightarrow> nat \<Rightarrow> bool \<Rightarrow> Coordinator \<Rightarrow> Coordinator \<Rightarrow> bool" where
  "served xs n v co co' \<longleftrightarrow>
     co_fabric co' = take_inputs xs (co_fabric co) \<and> co_next_evidence co' = co_next_evidence co + of_nat n \<and>
     co_epoch co' = co_epoch co \<and> co_recovery_auth co' = co_recovery_auth co \<and>
     co_recovery_verified co' = (co_recovery_verified co \<or> v) \<and> seen_boots co' = seen_boots co"

lemma served_trans: "served xs n v co co' \<Longrightarrow> served ys m u co' co'' \<Longrightarrow> served (xs @ ys) (n + m) (v \<or> u) co co''"
  by (auto simp: served_def take_inputs_def)

lemma served_refl: "served [] 0 False co co"
  by (simp add: served_def take_inputs_def)

lemma heartbeat_served: "served xs n v co co' \<Longrightarrow> served xs n v co (heartbeat ms sock co')"
  by (auto simp: served_def heartbeat_def seen_boots_def split: option.split)

lemma ingest_served:
  "served [In_sample (latency_evidence (co_next_evidence co) ms b v co)] 1 False co (ingest_latency ms b v co)"
  "served [In_sample (availability_evidence (co_next_evidence co) ms b v n co)] 1 False co (ingest_availability ms b v n co)"
  by (simp_all add: served_def take_inputs_def ingest_latency_def ingest_availability_def bump_evidence_def ingest_now_def
      Let_def seen_boots_def latency_evidence_def availability_evidence_def)

lemma recovery_served:
  "served [In_recovery REP_Restored ms, In_recovery REP_Verified ms'] 0 True co
     ((recovery_phase REP_Verified ms' (recovery_phase REP_Restored ms co))\<lparr> co_recovery_verified := True \<rparr>)"
  by (simp add: served_def take_inputs_def recovery_phase_def seen_boots_def)

lemma worker_turns:
  assumes "wc_epoch cfg = gen_value (co_epoch co)"
  shows "\<exists>co'. client_turn env sock (Some (worker_evidence 1 0 v cfg)) co = Some (CO_continue, [], co') \<and>
      served (In_sample (latency_evidence (co_next_evidence co) (en_now_ms env 0) (wc_forced_boot cfg) v co) #
        (if recovery_due cfg co then [In_recovery REP_Restored (en_now_ms env 1), In_recovery REP_Verified (en_now_ms env 2)] else []))
        1 (recovery_due cfg co) co co'"
    "\<exists>co'. client_turn env sock (Some (worker_evidence 3 2 v cfg)) co = Some (CO_continue, [], co') \<and>
      served [In_sample (availability_evidence (co_next_evidence co) (en_now_ms env 0) (wc_forced_boot cfg) v 1 co)] 1 False co co'"
    "\<exists>co'. client_turn env sock (Some \<lparr> f_kind = FK_Heartbeat, f_flags = 0, f_payload = [] \<rparr>) co = Some (CO_continue, [], co') \<and>
      served [] 0 False co co'"
proof -
  have kind: "f_kind (worker_evidence oid dim v cfg) = FK_Evidence" for oid dim v by (simp add: worker_evidence_def)
  let ?l = "ingest_latency (en_now_ms env 0) (wc_forced_boot cfg) v co"
  let ?r = "(recovery_phase REP_Verified (en_now_ms env 2) (recovery_phase REP_Restored (en_now_ms env 1) ?l))\<lparr> co_recovery_verified := True \<rparr>"
  note l = ingest_served(1) [of co "en_now_ms env 0" "wc_forced_boot cfg" v]
  have due: "recovery_due cfg ?l = recovery_due cfg co" using l by (simp add: served_def recovery_due_def)
  have "handle_evidence env sock (f_payload (worker_evidence 1 0 v cfg)) co = heartbeat (en_now_ms env 3) sock (if recovery_due cfg ?l then ?r else ?l)"
    using assms by (simp add: handle_evidence_def worker_evidence_decodes recovery_due_def Let_def)
  moreover have "served (In_sample (latency_evidence (co_next_evidence co) (en_now_ms env 0) (wc_forced_boot cfg) v co) #
        (if recovery_due cfg co then [In_recovery REP_Restored (en_now_ms env 1), In_recovery REP_Verified (en_now_ms env 2)] else []))
        1 (recovery_due cfg co) co (if recovery_due cfg ?l then ?r else ?l)"
    using l served_trans [OF l recovery_served [of "en_now_ms env 1" "en_now_ms env 2" ?l]] unfolding due by simp
  ultimately show "\<exists>co'. client_turn env sock (Some (worker_evidence 1 0 v cfg)) co = Some (CO_continue, [], co') \<and>
      served (In_sample (latency_evidence (co_next_evidence co) (en_now_ms env 0) (wc_forced_boot cfg) v co) #
        (if recovery_due cfg co then [In_recovery REP_Restored (en_now_ms env 1), In_recovery REP_Verified (en_now_ms env 2)] else []))
        1 (recovery_due cfg co) co co'"
    using heartbeat_served by (auto simp: client_turn_def handle_frame_def kind)
  have "handle_evidence env sock (f_payload (worker_evidence 3 2 v cfg)) co =
      heartbeat (en_now_ms env 3) sock (ingest_availability (en_now_ms env 0) (wc_forced_boot cfg) v 1 co)"
    using assms by (simp add: handle_evidence_def worker_evidence_decodes)
  then show "\<exists>co'. client_turn env sock (Some (worker_evidence 3 2 v cfg)) co = Some (CO_continue, [], co') \<and>
      served [In_sample (availability_evidence (co_next_evidence co) (en_now_ms env 0) (wc_forced_boot cfg) v 1 co)] 1 False co co'"
    using heartbeat_served [OF ingest_served(2)] by (simp add: client_turn_def handle_frame_def kind)
  show "\<exists>co'. client_turn env sock (Some \<lparr> f_kind = FK_Heartbeat, f_flags = 0, f_payload = [] \<rparr>) co = Some (CO_continue, [], co') \<and>
      served [] 0 False co co'"
    using heartbeat_served [OF served_refl] by (auto simp: client_turn_def handle_frame_def)
qed

lemma recovery_due_served: "served xs n v co co' \<Longrightarrow> recovery_due cfg co' = (recovery_due cfg co \<and> \<not> v)"
  by (auto simp: served_def recovery_due_def)

lemma rounds_conversation:
  assumes "wc_serve cfg"
  shows "wc_epoch cfg = gen_value (co_epoch co) \<Longrightarrow>
    \<exists>co'. conversation envs sock (concat (replicate k (worker_round cfg))) co = Some ([], client_end sock co') \<and>
      served (round_inputs envs cfg co (co_next_evidence co) (recovery_due cfg co) k) (2 * k) (recovery_due cfg co \<and> 0 < k) co co'"
proof (induction k arbitrary: envs co)
  case 0
  then show ?case using served_refl by (auto simp: client_turn_def)
next
  case (Suc k)
  obtain co1 where 1: "client_turn (envs 0) sock (Some (worker_evidence 1 0 (wc_latency_ns cfg) cfg)) co = Some (CO_continue, [], co1)"
    "served (In_sample (latency_evidence (co_next_evidence co) (en_now_ms (envs 0) 0) (wc_forced_boot cfg) (wc_latency_ns cfg) co) #
      (if recovery_due cfg co then [In_recovery REP_Restored (en_now_ms (envs 0) 1), In_recovery REP_Verified (en_now_ms (envs 0) 2)] else []))
      1 (recovery_due cfg co) co co1"
    using worker_turns(1) [OF Suc.prems] by blast
  then have p1: "wc_epoch cfg = gen_value (co_epoch co1)" "co_epoch co1 = co_epoch co"
    "co_next_evidence co1 = co_next_evidence co + 1" using Suc.prems by (simp_all add: served_def)
  obtain co2 where 2: "client_turn (envs 1) sock (Some (worker_evidence 3 2 (dec 10000 1) cfg)) co1 = Some (CO_continue, [], co2)"
    "served [In_sample (availability_evidence (co_next_evidence co1) (en_now_ms (envs 1) 0) (wc_forced_boot cfg) (dec 10000 1) 1 co1)] 1 False co1 co2"
    using worker_turns(2) [OF p1(1)] by blast
  then have p2: "wc_epoch cfg = gen_value (co_epoch co2)" using p1 by (simp add: served_def)
  obtain co3 where 3: "client_turn (envs 2) sock (Some \<lparr> f_kind = FK_Heartbeat, f_flags = 0, f_payload = [] \<rparr>) co2 = Some (CO_continue, [], co3)"
    "served [] 0 False co2 co3" using worker_turns(3) [OF p2] by blast
  note s3 = served_trans [OF served_trans [OF 1(2) 2(2)] 3(2)]
  have p3: "wc_epoch cfg = gen_value (co_epoch co3)" "co_epoch co3 = co_epoch co" "co_next_evidence co3 = co_next_evidence co + 2"
    using s3 Suc.prems by (simp_all add: served_def)
  have due: "recovery_due cfg co3 = False" using recovery_due_served [OF s3, of cfg] by simp
  obtain co' where co': "conversation (\<lambda>j. envs (j + 3)) sock (concat (replicate k (worker_round cfg))) co3 = Some ([], client_end sock co')"
    "served (round_inputs (\<lambda>j. envs (j + 3)) cfg co3 (co_next_evidence co3) False k) (2 * k) False co3 co'"
    using Suc.IH [OF p3(1)] unfolding due by auto
  have "conversation envs sock (concat (replicate (Suc k) (worker_round cfg))) co = Some ([], client_end sock co')"
    using 1(1) 2(1) 3(1) co'(1) by (simp add: worker_round_def assms numeral_2_eq_2 numeral_3_eq_3)
  moreover have "served (round_inputs envs cfg co (co_next_evidence co) (recovery_due cfg co) (Suc k)) (2 * Suc k) (recovery_due cfg co \<and> 0 < Suc k) co co'"
    using served_trans [OF s3 co'(2)] p1(3) p3(3) round_inputs_epoch [OF p3(2)]
    by (simp add: evidence_epoch_only [OF p1(2)])
  ultimately show ?case by blast
qed

text \<open>The samples among the inputs are the same whether a recovery is due or not.\<close>

lemma round_inputs_samples:
  "filter (\<lambda>x. \<exists>e. x = In_sample e) (round_inputs envs cfg co i due k) = round_inputs envs cfg co i False k"
  by (induction envs cfg co i due k rule: round_inputs.induct) auto

text \<open>The registration of a worker whose epoch is current and whose boot id is new.\<close>

lemma worker_registers:
  assumes "length (wc_name cfg) \<le> 256" "wc_epoch cfg = gen_value (co_epoch co)" "(wc_name cfg, wc_forced_boot cfg) \<notin> seen_boots co"
  shows "\<exists>co'. client_turn env sock (Some (worker_hello cfg)) co =
      Some (CO_continue, [ack_frame (gen_value (co_epoch co)) (wc_forced_boot cfg) 0 ''ok''], co') \<and>
    co_fabric co' = co_fabric co \<and> co_next_evidence co' = co_next_evidence co \<and> co_epoch co' = co_epoch co \<and>
    recovery_due cfg co' = recovery_due cfg co \<and> co_recovery_verified co' = co_recovery_verified co \<and>
    seen_boots co' = insert (wc_name cfg, wc_forced_boot cfg) (seen_boots co)"
proof -
  let ?h = "\<lparr> hl_name = wc_name cfg, hl_boot = wc_forced_boot cfg, hl_epoch = wc_epoch cfg \<rparr>"
  have turn: "client_turn env sock (Some (worker_hello cfg)) co =
      Some (case register_worker (en_now_ms env 0) sock ?h co of
        (out, rs, co') \<Rightarrow> (out, rs, if out = CO_break then client_end sock co' else co'))"
    using assms(2) worker_hello_decodes [OF assms(1)] by (simp add: client_turn_def handle_frame_def handle_hello_def worker_hello_def)
  show ?thesis
  proof (rule register_worker_cases [of ?h co "en_now_ms env 0" sock])
    fix bs assume bs: "bs = (case co_seen_boots co (hl_name ?h) of None \<Rightarrow> [] | Some bs \<Rightarrow> bs)"
      "register_worker (en_now_ms env 0) sock ?h co = (CO_continue, [ack_frame (gen_value (co_epoch co)) (hl_boot ?h) 0 ''ok''],
         co\<lparr> co_seen_boots := (co_seen_boots co)(hl_name ?h \<mapsto> bs @ [hl_boot ?h]),
             co_workers := map_assign sock \<lparr> wi_name = hl_name ?h, wi_boot_id = hl_boot ?h, wi_last_hb_ms = en_now_ms env 0, wi_alive = True \<rparr>
               (co_workers co) \<rparr>)"
    then show ?thesis by (auto simp: turn seen_boots_def recovery_due_def split: option.splits if_splits)
  qed (use assms(3) in simp)
qed

lemma worker_frames_wf: "length (wc_name cfg) \<le> 256 \<Longrightarrow> frame_wf (worker_hello cfg)" "\<forall>f \<in> set (worker_round cfg). frame_wf f"
proof -
  have "length (encode_evidence e) \<le> 4194304" for e using message_lengths(3) [of e] by linarith
  then show "\<forall>f \<in> set (worker_round cfg). frame_wf f"
    by (auto simp: worker_round_def worker_evidence_def frame_wf_def frame_kind_cast_def kMaxFramePayload_def)
  show "frame_wf (worker_hello cfg)" if "length (wc_name cfg) \<le> 256"
    using that message_lengths(1) [of "\<lparr> hl_name = wc_name cfg, hl_boot = wc_forced_boot cfg, hl_epoch = wc_epoch cfg \<rparr>"]
    by (simp add: worker_hello_def hello_wf_def frame_wf_def frame_kind_cast_def kMaxFramePayload_def)
qed

lemma worker_rounds_sent:
  assumes "stream_send (api_send api sock) sent" "blocking (api_send api sock)"
  shows "sent (worker_rounds api sock cfg k w) = sent w @ concat (map encode_frame (concat (replicate k (worker_round cfg))))"
proof (induction k arbitrary: w)
  case (Suc k)
  then show ?case using send_replies_all [OF assms worker_frames_wf(2) [of cfg], of w] by (simp add: send_replies_def)
qed simp

subsection \<open>A socket for the concrete instances\<close>

text \<open>The world is what is still to come and what was sent; at most three bytes are received and five sent at a time.\<close>

definition narrow_socket :: "(unit, bytes \<times> bytes) SocketApi" where
  "narrow_socket = \<lparr> api_getaddrinfo = (\<lambda>h p b w. (None, w)), api_freeaddrinfo = (\<lambda>_ w. w), api_socket = (\<lambda>a w. (-1, w)),
     api_connect = (\<lambda>s a w. (-1, w)), api_reuse = (\<lambda>s w. w), api_bind = (\<lambda>s a w. (-1, w)), api_listen = (\<lambda>s k w. (-1, w)),
     api_accept = (\<lambda>s w. (-1, w)), api_close = (\<lambda>s w. w),
     api_recv = (\<lambda>s n w. (Some (take (min n 3) (fst w)), (drop (min n 3) (fst w), snd w))),
     api_send = (\<lambda>s bs w. (int (min 5 (length bs)), (fst w, snd w @ take 5 bs))) \<rparr>"

lemma narrow_socket_laws: "duplex narrow_socket sock fst snd" "blocking (api_send narrow_socket sock)"
  by (auto simp: duplex_def blocking_def narrow_socket_def stream_recv_def stream_send_def min_def)

definition narrow_driver :: "(unit, bytes \<times> bytes) DriverApi" where
  "narrow_driver = \<lparr> dr_sockets = narrow_socket, dr_spawn = (\<lambda>p as w. (5, w)), dr_kill = (\<lambda>p w. w), dr_waitpid = (\<lambda>p w. ((0, None), w)),
     dr_now = (\<lambda>w. (0, w)), dr_sleep = (\<lambda>ms w. w), dr_remove = (\<lambda>f w. w) \<rparr>"

section \<open>Properties\<close>

text \<open>
  Property C26.  The handler on a socket does what the conversation on frames says: whatever frames a client sends, over a
  stream that may break at any byte, the handler ends after handling exactly the frames that were reported as sent, in
  order, then the end of the connection, with the same effect on the coordinator as the conversation; on a blocking
  socket it has sent exactly the encodings of the replies.
\<close>

theorem handler_refines_conversation:
  assumes "stream_send csend csent" "csent u = []" "\<forall>f \<in> set fs. frame_wf f" "send_frames csend fs u = (n, u')"
    "duplex api sock incoming sent" "incoming w = csent u'" "length fs < fuel"
    "conversation envs sock (take n fs) co = Some (replies, co')"
  shows "\<exists>w'. handle_client api envs sock fuel co w = Some (True, co', w') \<and>
    (blocking (api_send api sock) \<longrightarrow> sent w' = sent w @ concat (map encode_frame replies))"
proof -
  from send_frames_stream [OF assms(1,3,4)] obtain torn where n: "n \<le> length fs"
    and torn: "csent u' = concat (map encode_frame (take n fs)) @ torn"
      "torn = [] \<or> (\<exists>m. n < length fs \<and> torn = take m (encode_frame (fs ! n)) \<and> m < length (encode_frame (fs ! n)))"
    using assms(2) by auto
  have "torn = [] \<or> (\<exists>f m. frame_wf f \<and> torn = take m (encode_frame f) \<and> m < length (encode_frame f))"
    using torn(2) assms(3) nth_mem by blast
  then show ?thesis
    using handle_client_conversation [OF assms(5), of torn "take n fs" w fuel envs co replies co'] assms(3,6-8) torn(1) n
    by (auto dest: in_set_takeD)
qed

theorem handler_refines_conversation_witness:
  "\<exists>w'. handle_client narrow_socket (\<lambda>_. sample_env) 7 2 (start 0 True [] empty_disk) (encode_frame sample_hello, []) =
     Some (True, client_end 7 sample_registered, w')"
proof -
  have wf: "\<forall>f \<in> set [sample_hello]. frame_wf f" by code_simp
  have "fst (send_frames narrow_send [sample_hello] []) = length [sample_hello]"
    using wf by (intro send_frames_total) (simp_all add: narrow_send_def)
  then obtain u' where u': "send_frames narrow_send [sample_hello] [] = (1, u')" by (metis prod.collapse length_Cons list.size(3) One_nat_def)
  have sent: "u' = encode_frame sample_hello"
    using send_frames_stream [OF narrow_streams(1) wf u'] by auto
  obtain replies where "conversation (\<lambda>_. sample_env) 7 (take 1 [sample_hello]) (start 0 True [] empty_disk) =
      Some (replies, client_end 7 sample_registered)"
    using sample_registration by (auto simp: client_turn_def)
  from handler_refines_conversation [OF narrow_streams(1) refl wf u' narrow_socket_laws(1) _ _ this,
      of "(encode_frame sample_hello, [])" 2] sent show ?thesis by auto
qed

end
