(* ===== verification/Promises.thy ===== *)
theory Promises
  imports Restart
begin

text \<open>
  What the documentation promises about evidence, budgets and authority, against what the engine does: the parts of a
  piece of evidence that ingestion never reads, where fences can be passed by, and events that are counted again.
\<close>

section \<open>Evidence\<close>

text \<open>The fields of a piece of evidence that ingestion reads.\<close>

definition same_reading :: "EvidenceRecord \<Rightarrow> EvidenceRecord \<Rightarrow> bool" where
  "same_reading e e' \<longleftrightarrow>
     e_id e = e_id e' \<and> e_epoch e = e_epoch e' \<and> e_objective_id e = e_objective_id e' \<and> e_objective_gen e = e_objective_gen e' \<and>
     e_dimension e = e_dimension e' \<and> e_time e = e_time e' \<and> e_value e = e_value e' \<and> e_sample_count e = e_sample_count e'"

lemma ingest_sample_reading: "same_reading e e' \<Longrightarrow> ingest_sample ob e a = ingest_sample ob e' a"
  by (simp add: same_reading_def ingest_sample_def window_sample_def availability_sample_def cong: Dimension.case_cong)

lemma ingest_reading: "same_reading e e' \<Longrightarrow> ingest e now s = ingest e' now' s"
  using ingest_sample_reading [of e e']
  by (simp add: same_reading_def ingest_def unit_compatible_def cong: option.case_cong if_cong)

lemma reported_provenance:
  "os_current_value (oe_st (fst (snd (eval_objective ob now a)))) = Some v \<Longrightarrow> os_provenance (oe_st (fst (snd (eval_objective ob now a)))) = PV_Measured"
  by (auto simp: eval_objective_def Let_def with_budget_def objective_state_def split: if_splits)

text \<open>
  The sample is filed under the dimension the evidence names, not under that of the objective: a latency value that
  calls itself an availability is acknowledged, but never reaches the window of the latency objective.  And a cost
  sample is acknowledged whether or not the window took it.
\<close>

lemma evidence_dimension_unchecked:
  "e_dimension e = Dim_Availability \<Longrightarrow>
   fst (ingest_sample ob e a) = ok \<and> a_window (snd (ingest_sample ob e a)) = a_window a \<and> a_cost (snd (ingest_sample ob e a)) = a_cost a"
  by (simp add: ingest_sample_def availability_sample_def Let_def)

lemma cost_rejection_hidden:
  "e_dimension e = Dim_Cost \<Longrightarrow> o_kind ob \<noteq> K_CostWindowBudget \<Longrightarrow>
   fst (ingest_sample ob e a) = ok \<and>
   a_window (snd (ingest_sample ob e a)) = snd (window_ingest (a_window a) (e_time e) (numeric_of (e_value e)) (a_next_seq a))"
  by (simp add: ingest_sample_def window_sample_def split_beta Let_def)

text \<open>The fence on the epoch is passed by evidence that names none: it counts as evidence of the current epoch.\<close>

lemma epoch_fence_optional: "ingest (e\<lparr> e_epoch := Gen 0 \<rparr>) now s = ingest (e\<lparr> e_epoch := im_epoch s \<rparr>) now s"
proof -
  have "unit_compatible ob (e\<lparr> e_epoch := g \<rparr>) = unit_compatible ob e" "ingest_sample ob (e\<lparr> e_epoch := g \<rparr>) a = ingest_sample ob e a" for ob a g
    by (simp_all add: unit_compatible_def ingest_sample_def window_sample_def availability_sample_def cong: Dimension.case_cong)
  then show ?thesis by (simp add: ingest_def split_beta Let_def gen_valid_def gen_invalid_def split: option.split)
qed

section \<open>Authority\<close>

text \<open>
  \<^verbatim>\<open>dispatch\<close> asks the engine for nothing: an intent with all generations set is carried out by a sink without a fence
  whatever the engine says about it, also when its authorisation would be refused.
\<close>

lemma dispatch_unchecked:
  "status_ok (validate_intent_generations i) \<Longrightarrow> \<not> snk_fence sink \<Longrightarrow> \<not> snk_fail_all sink \<Longrightarrow>
   fst (dispatch i sink s) = ok \<and>
   (\<exists>n. snk_records (fst (snd (dispatch i sink s))) = snk_records sink @ [DispatchRecord (i_action i) i ok n])"
  by (simp add: dispatch_def sink_dispatch_def sink_record_def Let_def split_beta)

text \<open>
  The completion of an enforcement is not fenced: a receipt carries an epoch, but a completion or a transition names the
  receipt only, and is accepted after a restart as it was before.
\<close>

lemma completion_not_fenced:
  assumes "fabric_inv s"
  shows "fst (complete_enforcement i now (restore (snapshot order s) t)) = fst (complete_enforcement i now s)"
    "fst (transition i to now (restore (snapshot order s) t)) = fst (transition i to now s)"
  using restore_configuration(4) [OF assms, of order t] by (simp_all add: complete_enforcement_def transition_def split_beta Let_def)

section \<open>Budgets\<close>

text \<open>A violation event has no identity: reporting the same one twice consumes the budget twice.\<close>

definition budgeted_fabric :: Impl where
  "budgeted_fabric = snd (set_objective_budget (Id 5) (Count 10) (seconds 60) sample_fabric)"

lemma violation_counted_again:
  "map_option (b_consumed \<circ> a_budget) (map_of (im_accumulators (snd (ingest_violation_event (Id 5) (Duration 70)
     (snd (ingest_violation_event (Id 5) (Duration 70) budgeted_fabric))))) (Id 5)) = Some (Count 2)"
  by code_simp

section \<open>Properties\<close>

text \<open>
  Property C12.  Evidence is judged by eight of its fields: two pieces of evidence that agree on identity, epoch, objective
  and its generation, dimension, time, value and sample count have the same effect at any time of ingestion, whatever
  they say of their source, its generation, their own generation, their provenance, status, aggregation and confidence;
  and every value an evaluation reports is labelled as measured, so that synthetic evidence is reported as measured.
\<close>

theorem provenance_forgotten:
  assumes "same_reading e e'" "fabric_inv s" "evaluate sv wl now s = Some (result_value r, s')"
    "st \<in> set (ex_objectives (er_explanation r))" "os_current_value st = Some v"
  shows "ingest e t1 u = ingest e' t2 u \<and> os_provenance st = PV_Measured"
proof -
  have "os_provenance st = PV_Measured"
    using assms(3)
  proof (rule evaluate_value)
    fix c p s1 evals digest overall binding
    assume ev: "eval_objectives now (c_objectives c) (show_u64 (gen_value (c_gen c)) @ ''|'' @ show_u64 (gen_value (p_gen p)) @ ''|'')
        (s\<lparr> im_evaluation_counter := im_evaluation_counter s + 1 \<rparr>) = (s1, evals, digest)"
      and ex0: "er_explanation r = make_explanation sv wl c p evals overall binding (er_intent r) s1"
    have "ex_objectives (er_explanation r) = map oe_st evals" by (simp add: ex0 make_explanation_def Let_def)
    then obtain e where e: "e \<in> set evals" "st = oe_st e" using assms(4) by auto
    then obtain ob a where "e = fst (snd (eval_objective ob now a))"
      using eval_objectives_evals(2) [OF counter_inv(1) [OF assms(2)] ev] by (blast elim: judgedE)
    then show ?thesis using reported_provenance [of ob now a v] assms(5) e(2) by simp
  qed
  then show ?thesis using ingest_reading [OF assms(1)] by simp
qed

theorem provenance_forgotten_witness:
  "\<exists>r s' st. snd (ingest (sample_evidence\<lparr> e_provenance := PV_Synthetic \<rparr>) (Duration 10) sample_fabric) = sample_measured \<and>
     evaluate (Id 1) (Id 2) (Duration 20) sample_measured = Some (result_value r, s') \<and>
     st \<in> set (ex_objectives (er_explanation r)) \<and> os_provenance st = PV_Measured"
proof -
  have same: "same_reading (sample_evidence\<lparr> e_provenance := PV_Synthetic \<rparr>) sample_evidence" by (simp add: same_reading_def)
  obtain r s' st v where r: "evaluate (Id 1) (Id 2) (Duration 20) sample_measured = Some (result_value r, s')"
    "st \<in> set (ex_objectives (er_explanation r))" "os_current_value st = Some v" by (rule sample_report)
  from provenance_forgotten [OF same sample_measured_inv r, of "Duration 10" sample_fabric "Duration 10"] r show ?thesis
    by (auto simp: sample_measured_def)
qed

end
