(* ===== verification/Tracking.thy ===== *)
theory Tracking
  imports Restart
begin

text \<open>
  What a history of operations leaves true of the accumulators.  The locale \<^verbatim>\<open>accumulator_property\<close> says what a property of
  single accumulators has to satisfy so that every run keeps it; it is interpreted on the cooldown of an objective and on
  the absence of evidence after a restart.
\<close>

section \<open>Properties of accumulators\<close>

text \<open>
  Every accumulator is good, every objective in force is admitted, and the identities in \<open>must\<close> have accumulators.  An
  operation is tame when it brings only admitted objectives, sets the cooldown only of identities in \<open>may_cool\<close>, loads
  nothing, and brings evidence only if \<open>fed\<close>.
\<close>

definition tracks :: "(ObjectiveId \<Rightarrow> ObjectiveAccumulator \<Rightarrow> bool) \<Rightarrow> (Objective \<Rightarrow> bool) \<Rightarrow> ObjectiveId set \<Rightarrow> Impl \<Rightarrow> bool" where
  "tracks good admits must s \<longleftrightarrow>
     (\<forall>j a. map_of (im_accumulators s) j = Some a \<longrightarrow> good j a) \<and> (\<forall>ob \<in> set (all_objectives s). admits ob) \<and>
     (\<forall>j \<in> must. map_of (im_accumulators s) j \<noteq> None)"

fun tame :: "(Objective \<Rightarrow> bool) \<Rightarrow> ObjectiveId set \<Rightarrow> bool \<Rightarrow> FabricOp \<Rightarrow> bool" where
  "tame admits may_cool fed (Op_add_contract c) \<longleftrightarrow> (\<forall>ob \<in> set (c_objectives c). admits ob)"
| "tame admits may_cool fed (Op_supersede c now) \<longleftrightarrow> (\<forall>ob \<in> set (c_objectives c). admits ob)"
| "tame admits may_cool fed (Op_ingest e now) \<longleftrightarrow> fed"
| "tame admits may_cool fed (Op_recovery i ph t) \<longleftrightarrow> fed"
| "tame admits may_cool fed (Op_authorize x now) \<longleftrightarrow> i_objective_id x \<in> may_cool"
| "tame admits may_cool fed (Op_load rd path fs) \<longleftrightarrow> False"
| "tame admits may_cool fed op \<longleftrightarrow> True"

locale accumulator_property =
  fixes good :: "ObjectiveId \<Rightarrow> ObjectiveAccumulator \<Rightarrow> bool" and admits :: "Objective \<Rightarrow> bool"
    and must :: "ObjectiveId set" and may_cool :: "ObjectiveId set" and fed :: bool
  assumes fresh: "o_id ob \<notin> must \<Longrightarrow> admits ob \<Longrightarrow> good (o_id ob) (new_accumulator ob)"
    and reset: "good (o_id ob) a \<Longrightarrow> admits ob \<Longrightarrow> o_gen (a_def a) \<noteq> o_gen ob \<Longrightarrow> good (o_id ob) (reset_for_new_gen ob a)"
    and judge: "good j a \<Longrightarrow> good j (fst (eval_objective ob now a))"
    and budget: "good j a \<Longrightarrow> good j (a\<lparr> a_has_budget := h, a_budget := b \<rparr>)"
    and cool: "j \<in> may_cool \<Longrightarrow> good j a \<Longrightarrow> good j (a\<lparr> a_cooldown_until := u \<rparr>)"
    and seen: "good j a \<Longrightarrow> good j (remember i a)"
    and sample: "fed \<Longrightarrow> good j a \<Longrightarrow> good j (snd (ingest_sample ob e a))"
    and recovery: "fed \<Longrightarrow> good j a \<Longrightarrow> good j (a\<lparr> a_recovery := rt \<rparr>)"

lemma newest_objective_in_force: "newest_objective i s = Some ob \<Longrightarrow> ob \<in> set (all_objectives s) \<and> o_id ob = i"
proof -
  let ?f = "\<lambda>best ob. if o_id ob = i then (case best of None \<Rightarrow> Some ob | Some b \<Rightarrow> if o_gen b < o_gen ob then Some ob else best) else best"
  have "foldl ?f None obs = Some ob \<Longrightarrow> ob \<in> set obs \<and> o_id ob = i" for obs
    by (induction obs arbitrary: ob rule: rev_induct) (auto split: if_splits option.splits)
  then show "newest_objective i s = Some ob \<Longrightarrow> ob \<in> set (all_objectives s) \<and> o_id ob = i" by (simp add: newest_objective_def)
qed

lemma all_objectives_iff: "fabric_inv s \<Longrightarrow> ob \<in> set (all_objectives s) \<longleftrightarrow> (\<exists>k c. map_of (im_contracts s) k = Some c \<and> ob \<in> set (c_objectives c))"
  by (auto simp: all_objectives_def fabric_inv_def omap.in_set_iff) (metis omap.in_set_iff)+

lemma replace_contract_entry:
  "fabric_inv s \<Longrightarrow> map_of (im_contracts (snd (replace_contract c s))) k = Some d \<Longrightarrow> map_of (im_contracts s) k = Some d \<or> d = c"
  by (auto simp: replace_contract_def fabric_inv_def put_contract_def omap.lookup_assign omap.wf_assign split: option.splits if_splits)

context accumulator_property
begin

lemma tracks_same:
  "im_contracts t = im_contracts s \<Longrightarrow> im_accumulators t = im_accumulators s \<Longrightarrow> tracks good admits must s \<Longrightarrow> tracks good admits must t"
  by (simp add: tracks_def all_objectives_def)

lemma tracks_put: "fabric_inv s \<Longrightarrow> tracks good admits must s \<Longrightarrow> good j a \<Longrightarrow> tracks good admits must (put_accumulator j a s)"
  by (auto simp: tracks_def) (auto simp: put_accumulator_def fabric_inv_def hmap.lookup_assign split: if_splits)

lemma tracks_get:
  assumes "fabric_inv s" "tracks good admits must s" "ob \<in> set (all_objectives s)"
  shows "good (o_id ob) (fst (get_accumulator ob s))" "tracks good admits must (snd (get_accumulator ob s))"
proof -
  have ob: "admits ob" using assms(2,3) by (simp add: tracks_def)
  have r: "route_for ob (new_accumulator ob) = new_accumulator ob" by (simp add: new_accumulator_def route_for_idem)
  show "good (o_id ob) (fst (get_accumulator ob s))"
    using assms(2) fresh [OF _ ob] reset [OF _ ob]
    by (force simp: get_accumulator_def tracks_def r Let_def split: option.split)
  then show "tracks good admits must (snd (get_accumulator ob s))"
    using assms(1,2) by (auto simp: get_accumulator_def Let_def tracks_put split: option.split)
qed

lemma tracks_contracts:
  assumes "tracks good admits must s" "im_accumulators t = im_accumulators s"
    "\<And>ob. ob \<in> set (all_objectives t) \<Longrightarrow> ob \<in> set (all_objectives s) \<or> admits ob"
  shows "tracks good admits must t"
  using assms by (auto simp: tracks_def)

lemma tracks_replace:
  assumes "fabric_inv s" "tracks good admits must s" "\<forall>ob \<in> set (c_objectives c). admits ob"
  shows "tracks good admits must (snd (replace_contract c s))"
proof (rule tracks_contracts [OF assms(2)])
  show "im_accumulators (snd (replace_contract c s)) = im_accumulators s"
    by (simp add: replace_contract_def put_contract_def split: option.split)
  fix ob assume "ob \<in> set (all_objectives (snd (replace_contract c s)))"
  then obtain k d where "map_of (im_contracts (snd (replace_contract c s))) k = Some d" "ob \<in> set (c_objectives d)"
    using all_objectives_iff [OF replace_contract_inv [OF assms(1)]] by blast
  then show "ob \<in> set (all_objectives s) \<or> admits ob"
    using assms(3) all_objectives_iff [OF assms(1)] replace_contract_entry [OF assms(1), of c k d] by blast
qed

lemma tracks_modify:
  assumes "fabric_inv s" "tracks good admits must s" "\<And>c. c_objectives (f c) = c_objectives c \<and> c_id (f c) = c_id c"
  shows "tracks good admits must (snd (modify_contract f i s))"
proof (rule tracks_contracts [OF assms(2)])
  show "im_accumulators (snd (modify_contract f i s)) = im_accumulators s" by (simp add: modify_contract_def split: option.split)
  fix ob assume "ob \<in> set (all_objectives (snd (modify_contract f i s)))"
  then obtain k d where "map_of (im_contracts (snd (modify_contract f i s))) k = Some d" "ob \<in> set (c_objectives d)"
    using all_objectives_iff modify_contract_inv [OF assms(1)] assms(3) by blast
  then obtain d' where "map_of (im_contracts s) k = Some d'" "ob \<in> set (c_objectives d')"
    using assms(3) by (auto simp: modify_contract_lookup [OF assms(1)] split: if_splits)
  then show "ob \<in> set (all_objectives s) \<or> admits ob" using all_objectives_iff [OF assms(1)] by blast
qed

lemma tracks_evals:
  assumes "fabric_inv s" "tracks good admits must s" "set obs \<subseteq> set (all_objectives s)" "eval_objectives now obs d s = (s1, evals, digest)"
  shows "tracks good admits must s1"
    "\<forall>e \<in> set evals. \<exists>a. acc_inv a \<and> good (o_id (oe_obj e)) a \<and> e = fst (snd (eval_objective (oe_obj e) now a))"
proof -
  let ?keep = "\<lambda>t. fabric_inv t \<and> tracks good admits must t \<and> all_objectives t = all_objectives s"
  let ?good = "\<lambda>ob a. acc_inv a \<and> good (o_id ob) a"
  let ?next = "\<lambda>ob t. put_accumulator (o_id ob) (fst (eval_objective ob now (fst (get_accumulator ob t)))) (snd (get_accumulator ob t))"
  have step: "?good ob (fst (get_accumulator ob t)) \<and> ?keep (?next ob t)" if "ob \<in> set obs" "?keep t" for ob t
  proof -
    have ob: "ob \<in> set (all_objectives t)" using that assms(3) by auto
    have same: "all_objectives (snd (get_accumulator ob t)) = all_objectives t" by (simp add: all_objectives_def)
    note g = get_accumulator_inv [of t ob] tracks_get [OF _ _ ob]
    have "fabric_inv (?next ob t)" using that(2) g by (auto simp: eval_objective_fields intro!: fabric_inv_put_acc eval_objective_inv)
    moreover have "tracks good admits must (?next ob t)" using that(2) g by (auto intro!: tracks_put judge)
    ultimately show ?thesis using that(2) g same by simp
  qed
  show "\<forall>e \<in> set evals. \<exists>a. acc_inv a \<and> good (o_id (oe_obj e)) a \<and> e = fst (snd (eval_objective (oe_obj e) now a))"
    using fold_eval_evals [of ?keep "(s, [], d)" obs ?good now, OF _ step] assms by (auto simp: eval_objectives_def)
  have "?keep (fst (fold (eval_step now) obs x))" if "?keep (fst x)" "set obs \<subseteq> set (all_objectives s)" for obs x
    using that
  proof (induction obs arbitrary: x)
    case (Cons ob obs)
    have ob: "ob \<in> set (all_objectives (fst x))" using Cons.prems by auto
    note g = get_accumulator_inv [of "fst x" ob] tracks_get [OF _ _ ob]
    have "?keep (fst (eval_step now ob x))"
      using Cons.prems(1) g eval_step_inv [of x now ob]
      by (auto simp: eval_step_def split_beta Let_def all_objectives_def intro!: tracks_put judge)
    then show ?case using Cons.IH Cons.prems(2) by simp
  qed simp
  from this [of "(s, [], d)" obs] show "tracks good admits must s1" using assms by (simp add: eval_objectives_def)
qed

lemma tracks_violation:
  assumes "fabric_inv s" "tracks good admits must s"
  shows "tracks good admits must (snd (ingest_violation_event i now s))"
proof -
  let ?f = "\<lambda>(_, c). touch_objective i c"
  have touched: "fabric_inv (snd (fold ?f cs x)) \<and> tracks good admits must (snd (fold ?f cs x))"
    if "fabric_inv (snd x)" "tracks good admits must (snd x)" "set cs \<subseteq> set (im_contracts (snd x))" for cs x
    using that
  proof (induction cs arbitrary: x)
    case (Cons c cs)
    have ob: "ob \<in> set (all_objectives (snd x))" if "find (\<lambda>ob. o_id ob = i) (c_objectives (snd c)) = Some ob" for ob
    proof -
      have "ob \<in> set (c_objectives (snd c))" using that by (auto simp: find_Some_iff)
      moreover have "c \<in> set (im_contracts (snd x))" using Cons.prems(3) by simp
      ultimately show ?thesis by (cases c) (force simp: all_objectives_def)
    qed
    have "fabric_inv (snd (?f c x)) \<and> tracks good admits must (snd (?f c x)) \<and> im_contracts (snd (?f c x)) = im_contracts (snd x)"
      using Cons.prems(1,2) tracks_get [OF _ _ ob] get_accumulator_inv(1)
      by (auto simp: touch_objective_def split_beta split: option.split)
    then show ?case using Cons.IH [of "?f c x"] Cons.prems(3) by simp
  qed simp
  have b: "good j (a\<lparr> a_budget := b \<rparr>)" if "good j a" for j a b using budget [OF that, where h = "a_has_budget a" and b = b] by simp
  obtain found u where u: "fold ?f (im_contracts s) (False, s) = (found, u)" by fastforce
  then have "fabric_inv u" "tracks good admits must u" using touched [of "(False, s)" "im_contracts s"] assms by simp_all
  then show ?thesis
    by (auto simp: ingest_violation_event_def u intro!: tracks_put b split: option.split) (simp add: tracks_def)
qed

lemma tracks_ingest:
  assumes "fabric_inv s" "tracks good admits must s" fed
  shows "tracks good admits must (snd (ingest e now s))"
proof -
  let ?n = "snd (note_evidence (e_id e) s)"
  have n: "fabric_inv ?n" "tracks good admits must ?n"
    using note_evidence_inv [OF assms(1)] tracks_same [OF _ _ assms(2), of ?n] by simp_all
  have "tracks good admits must (put_accumulator (o_id ob) a (snd (get_accumulator ob ?n)))"
    if "newest_objective (e_objective_id e) ?n = Some ob" "good (o_id ob) a" for ob a
    using that tracks_get [OF n, of ob] get_accumulator_inv(1) [OF n(1), of ob] newest_objective_in_force [of "e_objective_id e" ?n ob]
    by (intro tracks_put) auto
  moreover have "good (o_id ob) (fst (get_accumulator ob ?n)) \<and> tracks good admits must (snd (get_accumulator ob ?n))"
    if "newest_objective (e_objective_id e) ?n = Some ob" for ob
    using that tracks_get [OF n, of ob] newest_objective_in_force [of "e_objective_id e" ?n ob] by auto
  ultimately show ?thesis
    using n seen sample [OF assms(3)] by (auto simp: ingest_def split_beta Let_def split: option.split)
qed

lemma tracks_update:
  assumes "fabric_inv s" "tracks good admits must s" "newest_objective i s = Some ob"
    "\<And>a. good (o_id ob) a \<Longrightarrow> good (o_id ob) (f a)"
  shows "tracks good admits must (put_accumulator (o_id ob) (f (fst (get_accumulator ob s))) (snd (get_accumulator ob s)))"
  using assms tracks_get [OF assms(1,2)] get_accumulator_inv(1) [OF assms(1), of ob] newest_objective_in_force [OF assms(3)]
  by (intro tracks_put) auto

lemma tracks_authorize:
  assumes "fabric_inv s" "tracks good admits must s" "i_objective_id x \<in> may_cool"
  shows "tracks good admits must (snd (authorize x now s))"
proof (cases "result_ok (fst (authorize x now s))")
  case True
  have g: "good (i_objective_id x) a" if "map_of (im_accumulators s) (i_objective_id x) = Some a" for a
    using assms(2) that by (simp add: tracks_def)
  have "tracks good admits must (set_cooldown x now s)"
    using assms(1,2) g cool [OF assms(3)] by (auto simp: set_cooldown_def intro!: tracks_put split: option.split)
  then show ?thesis
    using authorize_value(4) [OF True] authorize_frame(1) [of s x now]
    by (intro tracks_same [of "snd (authorize x now s)" "set_cooldown x now s"]) (simp_all add: same_authority_def)
qed (simp add: authorize_error assms(2))

lemma tracks_evaluate:
  assumes "fabric_inv s" "tracks good admits must s" "evaluate sv wl now s = Some (res, s')"
  shows "tracks good admits must s'"
proof (cases "\<exists>r. res = result_value r")
  case True
  then obtain r where "evaluate sv wl now s = Some (result_value r, s')" using assms(3) by blast
  then show ?thesis
  proof (rule evaluate_value)
    let ?s1 = "s\<lparr> im_evaluation_counter := im_evaluation_counter s + 1 \<rparr>"
    fix c p s1 evals digest and overall :: ComplianceState and binding :: "Objective option" and rec
    assume sel: "select_contract sv wl now s = Some c" and s': "s' = record_evaluation rec s1"
      and ev: "eval_objectives now (c_objectives c) (show_u64 (gen_value (c_gen c)) @ ''|'' @ show_u64 (gen_value (p_gen p)) @ ''|'') ?s1 = (s1, evals, digest)"
    have sub: "set (c_objectives c) \<subseteq> set (all_objectives ?s1)"
      using map_of_SomeD [OF select_contract_some(1) [OF assms(1) sel]] by (force simp: all_objectives_def)
    have inv: "fabric_inv ?s1" using assms(1) by (rule counter_inv(1))
    have "tracks good admits must ?s1" by (rule tracks_same [OF _ _ assms(2)]) simp_all
    from tracks_evals(1) [OF inv this sub ev] have "tracks good admits must s1" .
    then show ?thesis by (intro tracks_same [of s' s1]) (simp_all add: s')
  qed
next
  case False
  then obtain e where "res = result_error e" "\<not> status_ok e" using evaluate_shape [OF assms(3)] by blast
  then have "\<not> result_ok res" by simp
  then show ?thesis using evaluate_error [OF assms(3)] assms(2) by simp
qed

lemma tracks_contract_ops:
  assumes "fabric_inv s" "tracks good admits must s"
  shows "tracks good admits must (snd (activate_contract i now s))" "tracks good admits must (snd (suspend_contract i now s))"
    "tracks good admits must (snd (expire_contract i now s))" "tracks good admits must (snd (retire_contract i now s))"
    "(\<forall>ob \<in> set (c_objectives c). admits ob) \<Longrightarrow> tracks good admits must (snd (supersede_contract c now s))"
    "(\<forall>ob \<in> set (c_objectives c). admits ob) \<Longrightarrow> tracks good admits must (snd (add_contract c s))"
  unfolding activate_contract_def suspend_contract_def expire_contract_def retire_contract_def supersede_contract_def add_contract_def
  using assms by (simp_all add: tracks_modify tracks_replace Let_def)

lemma tracks_other_ops:
  assumes "tracks good admits must s"
  shows "tracks good admits must (set_clock ck s)" "tracks good admits must (snd (set_policy pol s))"
    "tracks good admits must (snd (snd (dispatch x sink s)))" "tracks good admits must (snd (transition ei l now s))"
    "tracks good admits must (snd (complete_enforcement ei now s))"
  by (rule tracks_same [OF _ _ assms]; simp add: set_clock_def set_policy_def dispatch_def transition_def complete_enforcement_def
      split_beta Let_def split: option.split)+

lemma tracks_recovery:
  assumes "fabric_inv s" "tracks good admits must s" fed
  shows "tracks good admits must (snd (record_recovery_event i ph t s))"
  using tracks_update [OF assms(1,2), where f = "\<lambda>a. a\<lparr> a_recovery := recovery_event ph t ((a_recovery a)\<lparr> rt_observed := True \<rparr>) \<rparr>"]
    recovery [OF assms(3)] assms(2)
  by (simp add: record_recovery_event_def split_beta Let_def split: option.split)

lemma tracks_budget:
  assumes "fabric_inv s" "tracks good admits must s"
  shows "tracks good admits must (snd (set_objective_budget i n w s))"
proof (cases "newest_objective i s")
  case (Some ob)
  have "tracks good admits must (put_accumulator (o_id ob) ((fst (get_accumulator ob s))\<lparr> a_has_budget := True, a_budget := error_budget n w \<rparr>)
      (snd (get_accumulator ob s)))"
    using tracks_update [OF assms Some, of "\<lambda>a. a\<lparr> a_has_budget := True, a_budget := error_budget n w \<rparr>"] budget by blast
  moreover have "tracks good admits must (snd (get_accumulator ob s))"
    using tracks_get(2) [OF assms] newest_objective_in_force [OF Some] by blast
  ultimately show ?thesis using Some by (simp add: set_objective_budget_def split_beta Let_def)
qed (simp add: set_objective_budget_def assms(2))

text \<open>Every tame step keeps the property, and so does every run of them.\<close>

lemma tracks_step:
  "fabric_step s op t \<Longrightarrow> fabric_inv s \<Longrightarrow> tame admits may_cool fed op \<Longrightarrow> tracks good admits must s \<Longrightarrow> tracks good admits must t"
  by (induction rule: fabric_step.induct)
     (simp_all add: tracks_contract_ops tracks_other_ops tracks_recovery tracks_budget tracks_violation tracks_ingest tracks_authorize
       tracks_evaluate)

lemma tracks_run:
  assumes "fabric_run s ops t" "\<forall>op \<in> set ops. tame admits may_cool fed op" "fabric_inv s" "tracks good admits must s"
  shows "tracks good admits must t"
  using assms(1) by (rule fabric_run_preserves) (use assms(2-4) tracks_step in blast)+

end

section \<open>Cooldowns\<close>



lemma sample_keeps [simp]:
  "a_cooldown_until (snd (ingest_sample ob e a)) = a_cooldown_until a" "a_cooldown_until (remember k a) = a_cooldown_until a"
  by (simp_all add: ingest_sample_def window_sample_def availability_sample_def remember_def split_beta Let_def split: Dimension.split)


section \<open>No evidence\<close>

definition awaits :: "ObjectiveId \<Rightarrow> ObjectiveId \<Rightarrow> ObjectiveAccumulator \<Rightarrow> bool" where
  "awaits i j a \<longleftrightarrow> blank a \<and> (j = i \<longrightarrow> o_dim (a_def a) \<noteq> Dim_RecoveryTime)"

definition needs_samples :: "ObjectiveId \<Rightarrow> Objective \<Rightarrow> bool" where
  "needs_samples i ob \<longleftrightarrow> (o_id ob = i \<longrightarrow> o_dim ob \<noteq> Dim_RecoveryTime)"

lemma blank_remember [simp]: "blank (remember k a) = blank a"
  by (simp add: blank_def remember_def Let_def)

interpretation noev: accumulator_property "awaits i" "needs_samples i" "{}" UNIV False for i
  by unfold_locales (auto simp: awaits_def needs_samples_def blank_new eval_objective_acc eval_objective_fields)

section \<open>Properties\<close>



text \<open>
  Property C17.  After a restart nothing is enforced before there is new evidence: whatever operations are made on a
  restored state, as long as they bring no evidence, record no recovery event and load nothing, every evaluation asks
  for no action and reports insufficient evidence, provided the selected contract has an objective whose identity is
  never given to a recovery-time objective.
\<close>

theorem restart_awaits_evidence:
  assumes "fabric_inv t" "durable_wf st" "fabric_run (restore st t) ops u"
    "\<forall>op \<in> set ops. tame (needs_samples (o_id ob)) UNIV False op"
    "\<forall>ob' \<in> set (all_objectives (restore st t)). o_id ob' = o_id ob \<longrightarrow> o_dim ob' \<noteq> Dim_RecoveryTime"
    "evaluate sv wl now u = Some (result_value r, u')" "select_contract sv wl now u = Some c" "ob \<in> set (c_objectives c)"
  shows "i_action (er_intent r) = EA_NoAction \<and> ex_compliance (er_explanation r) = CS_InsufficientEvidence"
  using assms(6)
proof (rule evaluate_value)
  let ?s = "restore st t" and ?u = "u\<lparr> im_evaluation_counter := im_evaluation_counter u + 1 \<rparr>"
  let ?tracks = "tracks (awaits (o_id ob)) (needs_samples (o_id ob)) {}"
  fix c' p s1 evals digest overall binding rec
  assume sel: "select_contract sv wl now u = Some c'"
    and ev: "eval_objectives now (c_objectives c') (show_u64 (gen_value (c_gen c')) @ ''|'' @ show_u64 (gen_value (p_gen p)) @ ''|'') ?u
        = (s1, evals, digest)"
    and dec: "decide evals = Some (overall, binding)"
    and i0: "er_intent r = make_intent sv wl c' p now overall binding s1"
    and ex0: "er_explanation r = make_explanation sv wl c' p evals overall binding (er_intent r) s1"
  have c: "c' = c" using sel assms(7) by simp
  have inv: "fabric_inv ?s" "fabric_inv u" using restore_inv [OF assms(1,2)] fabric_run_inv [OF assms(3)] by blast+
  have "awaits (o_id ob) j a" if "map_of (im_accumulators ?s) j = Some a" for j a
  proof -
    have "a_def a \<in> set (all_objectives ?s)" "blank a"
      using map_of_SomeD [OF that] restore_known [of st t] restore_blank [of st t] by (auto simp: defs_known_def all_blank_def)
    moreover have "o_id (a_def a) = j" using fabric_inv_acc [OF inv(1) that] by simp
    ultimately show ?thesis using assms(5) by (auto simp: awaits_def)
  qed
  then have "?tracks ?s" using assms(5) by (auto simp: tracks_def needs_samples_def)
  then have "?tracks u" using noev.tracks_run [OF assms(3,4) inv(1)] by blast
  then have tr: "?tracks ?u" by (rule noev.tracks_same [rotated 2]) simp_all
  have sub: "set (c_objectives c') \<subseteq> set (all_objectives ?u)"
    using map_of_SomeD [OF select_contract_some(1) [OF inv(2) sel]] by (force simp: all_objectives_def)
  note evals = noev.tracks_evals(2) [OF counter_inv(1) [OF inv(2)] tr sub ev]
  have "map oe_obj evals = c_objectives c" using eval_objectives_evals(1) [OF counter_inv(1) [OF inv(2)] ev] c by simp
  then obtain e where e: "e \<in> set evals" "oe_obj e = ob" using assms(8) by (metis imageE list.set_map)
  have none: "oe_state e' \<noteq> CS_RevalidationRequired" if e': "e' \<in> set evals" for e'
  proof -
    obtain a where "acc_inv a" "awaits (o_id ob) (o_id (oe_obj e')) a" "e' = fst (snd (eval_objective (oe_obj e') now a))"
      using evals e' by blast
    then have a: "acc_inv a" "blank a" "oe_state e' = oe_state (fst (snd (eval_objective (oe_obj e') now a)))"
      by (simp_all add: awaits_def)
    then show ?thesis
      using blank_fresh [OF a(2,1), of now] verdict_judges [of a "oe_obj e'" now] by (auto simp: eval_objective_state acc_inv_def)
  qed
  obtain a where a: "acc_inv a" "awaits (o_id ob) (o_id ob) a" "e = fst (snd (eval_objective ob now a))" using evals e by blast
  have "oe_state e = CS_InsufficientEvidence"
    using blank_insufficient [of a now] a by (simp add: eval_objective_state awaits_def)
  then have "decide evals = Some (CS_InsufficientEvidence, None)" using none e(1) by (auto simp: decide_def)
  then show ?thesis using dec by (simp add: i0 ex0 make_intent_def make_explanation_def Let_def)
qed

theorem restart_awaits_evidence_witness:
  "\<exists>r s'. evaluate (Id 1) (Id 2) (Duration 20)
       (snd (set_objective_budget (Id 5) (Count 3) (Duration 100) (restore (snapshot (\<lambda>xs. xs) sample_measured) (new_fabric None)))) =
     Some (result_value r, s') \<and> i_action (er_intent r) = EA_NoAction \<and> ex_compliance (er_explanation r) = CS_InsufficientEvidence"
proof -
  let ?s = "restore (snapshot (\<lambda>xs. xs) sample_measured) (new_fabric None)"
  let ?u = "snd (set_objective_budget (Id 5) (Count 3) (Duration 100) ?s)"
  have "case evaluate (Id 1) (Id 2) (Duration 20) ?u of Some (Result (Some r) st, _) \<Rightarrow> st = ok | _ \<Rightarrow> False" by code_simp
  then obtain r s' where r: "evaluate (Id 1) (Id 2) (Duration 20) ?u = Some (result_value r, s')"
    by (auto simp: result_value_def split: option.splits Result.splits)
  have run: "fabric_run ?s [Op_budget (Id 5) (Count 3) (Duration 100)] ?u"
    by (intro run_Cons [OF step_budget] run_Nil) (simp add: in_i64_def i64_min_def i64_max_def)
  have "select_contract (Id 1) (Id 2) (Duration 20) ?u = Some sample_contract" by code_simp
  moreover have "\<forall>ob' \<in> set (all_objectives ?s). o_id ob' = o_id sample_objective \<longrightarrow> o_dim ob' \<noteq> Dim_RecoveryTime" by code_simp
  moreover have "sample_objective \<in> set (c_objectives sample_contract)" by (simp add: sample_contract_def)
  ultimately show ?thesis
    using restart_awaits_evidence [OF fabric_inv_new sample_snapshot_ok(1) run _ _ r] r by simp
qed

end
