(* ===== verification/Examples.thy ===== *)
theory Examples
  imports Engine_Run
begin

text \<open>
  The example programs of the library: eleven small \<^verbatim>\<open>main\<close> functions that set up one contract, present evidence and print
  the decisions.  Their comments say what each evaluation should find; the theorem at the end compares that with what the
  engine decides.
\<close>

section \<open>Printing\<close>

text \<open>\<^verbatim>\<open>printf\<close> of strings without null characters; \<open>row\<close> ends the line.\<close>

definition row :: "string list \<Rightarrow> string" where
  "row parts = concat parts @ [CHR 0x0A]"

definition optstr :: "ObjectiveValue option \<Rightarrow> string" where
  "optstr v = (case v of None \<Rightarrow> ''n/a'' | Some x \<Rightarrow> value_to_string x)"

definition yes_no :: "bool \<Rightarrow> string" where
  "yes_no b = (if b then ''yes'' else ''no'')"

definition print_failed :: "string \<Rightarrow> EvaluationResult Result \<Rightarrow> string" where
  "print_failed label res = row [label, '': evaluate FAILED: '', status_message (result_status res)]"

definition objective_row :: "ObjectiveState \<Rightarrow> string" where
  "objective_row os =
     row [''  obj['', id_to_string (os_id os), ''] '', os_name os, '': state='', compliance_state_name (os_state os),
          '' value='', optstr (os_current_value os), '' target='', value_to_string (os_target os),
          '' samples='', show_int (count_value (os_sample_count os)), '' detail='', os_detail os]"

definition decision_row :: "string \<Rightarrow> EvaluationResult \<Rightarrow> string" where
  "decision_row label er =
     (let ex = er_explanation er
      in row [label, '': compliance='', compliance_state_name (ex_compliance ex), '' binding='', dimension_name (ex_binding_dimension ex),
              ''/'', id_to_string (ex_binding_objective ex), '' action='', enforcement_action_name (i_action (er_intent er))])"

definition rationale_rows :: "EvaluationResult \<Rightarrow> string" where
  "rationale_rows er =
     row [''  policy_rationale: '', ex_policy_rationale (er_explanation er)] @ row [''  intent.reason: '', i_reason (er_intent er)]"

definition print_result :: "string \<Rightarrow> EvaluationResult Result \<Rightarrow> string" where
  "print_result label res =
     (case (result_ok res, result_data res) of
        (True, Some er) \<Rightarrow> decision_row label er @ rationale_rows er @ concat (map objective_row (ex_objectives (er_explanation er)))
      | _ \<Rightarrow> print_failed label res)"

text \<open>The examples of error budgets and of supersession print more of an objective and of the decision.\<close>

definition budget_objective_row :: "ObjectiveState \<Rightarrow> string" where
  "budget_objective_row os =
     row [''  obj['', id_to_string (os_id os), ''] '', os_name os, '': state='', compliance_state_name (os_state os),
          '' value='', optstr (os_current_value os), '' target='', value_to_string (os_target os),
          '' budget='', (case os_budget_state os of Some b \<Rightarrow> budget_state_name b | None \<Rightarrow> ''n/a''),
          '' burn='', (case os_burn os of Some b \<Rightarrow> burn_rate_name b | None \<Rightarrow> ''n/a''),
          '' sample_count='', show_int (count_value (os_sample_count os)), '' detail='', os_detail os]"

definition print_budget_result :: "string \<Rightarrow> EvaluationResult Result \<Rightarrow> string" where
  "print_budget_result label res =
     (case (result_ok res, result_data res) of
        (True, Some er) \<Rightarrow> decision_row label er @ rationale_rows er @ concat (map budget_objective_row (ex_objectives (er_explanation er)))
      | _ \<Rightarrow> print_failed label res)"

definition print_supersession_result :: "string \<Rightarrow> EvaluationResult Result \<Rightarrow> string" where
  "print_supersession_result label res =
     (case (result_ok res, result_data res) of
        (True, Some er) \<Rightarrow>
          (let ex = er_explanation er
           in row [label, '': contract_gen='', gen_to_string (ex_contract_gen ex), '' compliance='', compliance_state_name (ex_compliance ex),
                   '' binding='', dimension_name (ex_binding_dimension ex), ''/'', id_to_string (ex_binding_objective ex),
                   '' action='', enforcement_action_name (i_action (er_intent er))] @
              rationale_rows er @ concat (map objective_row (ex_objectives ex)))
      | _ \<Rightarrow> print_failed label res)"

definition secondary_row :: "Explanation \<Rightarrow> string" where
  "secondary_row ex = row (''  secondary_constraints:'' # map (\<lambda>i. '' '' @ id_to_string i) (ex_secondary_constraints ex))"

definition ranked_rows :: "Explanation \<Rightarrow> string" where
  "ranked_rows ex =
     concat (map (\<lambda>ri. row [''  ranked_intent: action='', enforcement_action_name (ri_action ri), '' selected='', yes_no (ri_selected ri),
                            '' rationale='', ri_rationale ri]) (ex_ranked_intents ex)) @
     concat (map (\<lambda>rc. row [''  what_would_change: reason='', change_reason_name (rc_reason rc), '' desc='', rc_description rc])
       (wwc_required_changes (ex_what_would_change ex)))"

definition print_multi :: "string \<Rightarrow> EvaluationResult Result \<Rightarrow> string" where
  "print_multi label res =
     (case (result_ok res, result_data res) of
        (True, Some er) \<Rightarrow>
          decision_row label er @ rationale_rows er @ secondary_row (er_explanation er) @
          concat (map objective_row (ex_objectives (er_explanation er))) @ ranked_rows (er_explanation er)
      | _ \<Rightarrow> print_failed label res)"

definition print_full :: "string \<Rightarrow> EvaluationResult Result \<Rightarrow> string" where
  "print_full label res =
     (case (result_ok res, result_data res) of
        (True, Some er) \<Rightarrow>
          (let ex = er_explanation er; intent = er_intent er
           in row [label, '': compliance='', compliance_state_name (ex_compliance ex), '' binding='',
                   dimension_name (ex_binding_dimension ex), ''/'', id_to_string (ex_binding_objective ex)] @
              row [''  intent: action='', enforcement_action_name (i_action intent), '' class='', enforcement_class_name (i_cls intent),
                   '' dimension='', dimension_name (i_dimension intent), '' objective='', id_to_string (i_objective_id intent)] @
              row [''  intent.generations: contract='', gen_to_string (i_contract_gen intent), '' policy='', gen_to_string (i_policy_gen intent),
                   '' evidence='', gen_to_string (i_evidence_gen intent), '' epoch='', gen_to_string (i_epoch intent),
                   '' evaluation_id='', id_to_string (i_evaluation_id intent), '' evaluation_gen='', gen_to_string (i_evaluation_gen intent)] @
              row [''  intent.cooldown='', show_int (as_ns (i_cooldown intent)), ''ns reason='', i_reason intent] @
              row [''  policy_rationale: '', ex_policy_rationale ex] @
              secondary_row ex @
              concat (map (\<lambda>os.
                row [''  obj['', id_to_string (os_id os), ''] '', os_name os, '': state='', compliance_state_name (os_state os),
                     '' value='', optstr (os_current_value os), '' target='', value_to_string (os_target os)] @
                row [''      breach='', optstr (os_breach_threshold os), '' recovery='', optstr (os_recovery_threshold os),
                     '' comparison='', comparison_name (os_comparison os), '' hard='', hardsoft_name (os_hard os),
                     '' samples='', show_int (count_value (os_sample_count os)), '' sufficient='', yes_no (os_sufficient os),
                     '' freshness='', freshness_name (os_freshness os), '' risk='', predicted_risk_name (os_predicted os)] @
                row [''      detail: '', os_detail os]) (ex_objectives ex)) @
              ranked_rows ex)
      | _ \<Rightarrow> print_failed label res)"

section \<open>Runs\<close>

text \<open>
  What a \<^verbatim>\<open>main\<close> has to print: the message before an early return with code 1, or the labelled results of its evaluations.
\<close>

datatype ExampleRun = Ex_failed string | Ex_results "(string \<times> EvaluationResult Result) list"

fun example_output :: "(string \<Rightarrow> EvaluationResult Result \<Rightarrow> string) \<Rightarrow> ExampleRun \<Rightarrow> string \<times> int" where
  "example_output print (Ex_failed msg) = (row [msg], 1)"
| "example_output print (Ex_results rs) = (concat (map (\<lambda>(label, res). print label res) rs), 0)"

text \<open>The structs the examples fill in, apart from what differs.\<close>

definition example_policy :: "string \<Rightarrow> string \<Rightarrow> SloPolicy" where
  "example_policy name description = \<lparr> p_id = Id 1, p_gen = Gen 1, p_mode = PM_HardThenSoft, p_tie_break = TB_ByName,
     p_name = name, p_description = description \<rparr>"

definition example_contract :: "SloContractGen \<Rightarrow> string \<Rightarrow> Objective list \<Rightarrow> SloContract" where
  "example_contract gen name objectives = \<lparr> c_id = Id 1, c_gen = gen, c_service = Id 100, c_workload = Id 200, c_tenant = Id 1,
     c_objectives = objectives, c_policy_id = Id 1, c_policy_gen = Gen 1, c_effective_from = seconds 0, c_expiration = None,
     c_epoch = Gen 1, c_lifecycle = CL_Active, c_name = name, c_provenance = ''example'' \<rparr>"

definition p99_latency :: "Duration \<Rightarrow> Objective" where
  "p99_latency target = default_objective\<lparr> o_id := Id 1, o_gen := Gen 1, o_name := ''p99-latency'', o_dim := Dim_Latency,
     o_kind := K_LatencyPercentile, o_percentile_rank := dec 99 100, o_comparison := AtMost, o_hard := Hard,
     o_enforcement := EC_Authorized, o_target := VDuration target, o_min_evidence := Count 64, o_window_type := WT_Sliding,
     o_window_duration := seconds 120, o_window_count := Count 64 \<rparr>"

definition cost_budget :: "ObjectiveId \<Rightarrow> Objective" where
  "cost_budget i = default_objective\<lparr> o_id := i, o_gen := Gen 1, o_name := ''cost-window-budget'', o_dim := Dim_Cost,
     o_kind := K_CostWindowBudget, o_comparison := AtMost, o_hard := Hard, o_enforcement := EC_Authorized,
     o_target := VCostMicros (CostMicros 1000000), o_window_type := WT_Sliding, o_window_duration := seconds 60 \<rparr>"

definition example_evidence :: "u64 \<Rightarrow> ObjectiveId \<Rightarrow> Dimension \<Rightarrow> int \<Rightarrow> ObjectiveValue \<Rightarrow> EvidenceRecord" where
  "example_evidence i oid dim sec v = default_evidence\<lparr> e_id := Id i, e_gen := Gen 1, e_dimension := dim, e_objective_id := oid,
     e_objective_gen := Gen 1, e_source := Id 1, e_source_gen := Gen 1, e_epoch := Gen 1, e_time := seconds sec, e_value := v \<rparr>"

text \<open>The first contract of a new engine; the status of \<^verbatim>\<open>add_contract\<close> is checked or not by the caller.\<close>

definition example_fabric :: "SloPolicy \<Rightarrow> SloContract \<Rightarrow> Status \<times> Impl" where
  "example_fabric p c = add_contract c (snd (set_policy p (new_fabric None)))"

definition feed :: "EvidenceRecord \<Rightarrow> Impl \<Rightarrow> Impl" where
  "feed e s = snd (ingest e (e_time e) s)"

text \<open>The loop over 64 samples, one per second, which stops at the first that is refused, with its index.\<close>

fun feed_checked :: "EvidenceRecord list \<Rightarrow> nat \<Rightarrow> Impl \<Rightarrow> (nat \<times> Status) option \<times> Impl" where
  "feed_checked [] k s = (None, s)"
| "feed_checked (e # es) k s =
     (let (st, s) = ingest e (e_time e) s in if \<not> status_ok st then (Some (k, st), s) else feed_checked es (k + 1) s)"

definition latency_samples :: "int \<Rightarrow> EvidenceRecord list" where
  "latency_samples ns =
     map (\<lambda>i. example_evidence (of_nat (i + 1)) (Id 1) Dim_Latency (int i) (VDuration (Duration ns))) [0..<64]"

definition ask :: "int \<Rightarrow> Impl \<Rightarrow> (EvaluationResult Result \<times> Impl) option" where
  "ask sec s = evaluate (Id 100) (Id 200) (seconds sec) s"

section \<open>The examples\<close>

definition availability_objective :: Objective where
  "availability_objective = default_objective\<lparr> o_id := Id 1, o_gen := Gen 1, o_name := ''request-availability'',
     o_dim := Dim_Availability, o_kind := K_AvailabilityRequest, o_comparison := AtLeast, o_hard := Hard,
     o_enforcement := EC_Authorized, o_target := VBasisPoints (BasisPoints 9990), o_availability_mode := AM_Requests,
     o_min_evidence := Count 1 \<rparr>"

definition example_availability :: "ExampleRun option" where
  "example_availability =
     (let (st, s) = example_fabric (example_policy ''availability-policy'' ''serve at least 99.90% of eligible requests'')
                      (example_contract (Gen 1) ''availability-contract'' [availability_objective])
      in if \<not> status_ok st then Some (Ex_failed ''add_contract failed'')
         else do {
           let s = feed ((example_evidence 1 (Id 1) Dim_Availability 1 (VBasisPoints (BasisPoints 10000)))\<lparr> e_sample_count := Count 1000 \<rparr>) s;
           (r1, s) \<leftarrow> ask 2 s;
           let s = feed ((example_evidence 2 (Id 1) Dim_Availability 2 (VBasisPoints (BasisPoints 9900)))\<lparr> e_sample_count := Count 1000 \<rparr>) s;
           (r2, s) \<leftarrow> ask 3 s;
           Some (Ex_results [(''availability[1] all-100%'', r1), (''availability[2] single-99%'', r2)]) })"

definition example_cost :: "ExampleRun option" where
  "example_cost =
     (let (st, s) = example_fabric (example_policy ''cost-policy'' ''stay within the 60s cost budget'')
                      (example_contract (Gen 1) ''cost-contract'' [cost_budget (Id 1)])
      in if \<not> status_ok st then Some (Ex_failed ''add_contract failed'')
         else do {
           let s = feed (example_evidence 1 (Id 1) Dim_Cost 1 (VCostMicros (CostMicros 300000))) s;
           (r1, s) \<leftarrow> ask 2 s;
           let s = feed (example_evidence 2 (Id 1) Dim_Cost 3 (VCostMicros (CostMicros 800000))) s;
           (r2, s) \<leftarrow> ask 4 s;
           Some (Ex_results [(''cost[1] 300k-micros'', r1), (''cost[2] 1.1M-micros'', r2)]) })"

definition example_latency :: "ExampleRun option" where
  "example_latency =
     (let (st, s) = example_fabric (example_policy ''latency-policy'' ''stay under the p99 latency target'')
                      (example_contract (Gen 1) ''latency-contract'' [p99_latency (milliseconds 100)])
      in if \<not> status_ok st then Some (Ex_failed ''add_contract failed'')
         else case feed_checked (latency_samples 130000000) 0 s of
           (Some (k, st), s) \<Rightarrow> Some (Ex_failed (''ingest[x'' @ show_int (int k) @ ''] failed: '' @ status_message st))
         | (None, s) \<Rightarrow> do { (res, s) \<leftarrow> ask 70 s; Some (Ex_results [(''latency'', res)]) })"

definition memory_objective :: Objective where
  "memory_objective = default_objective\<lparr> o_id := Id 1, o_gen := Gen 1, o_name := ''memory-pressure-max'', o_dim := Dim_MemoryPressure,
     o_kind := K_MemoryPressureMax, o_comparison := AtMost, o_hard := Hard, o_enforcement := EC_Authorized,
     o_target := VPressureRatio (PressureRatio (dec 90 100)), o_breach_threshold := Some (VPressureRatio (PressureRatio (dec 90 100))),
     o_recovery_threshold := Some (VPressureRatio (PressureRatio (dec 80 100))), o_min_evidence := Count 1, o_window_type := WT_Sliding,
     o_window_duration := seconds 2 \<rparr>"

definition example_memory :: "ExampleRun option" where
  "example_memory =
     (let (st, s) = example_fabric (example_policy ''memory-policy'' ''keep sustained memory pressure under 0.90'')
                      (example_contract (Gen 1) ''memory-contract'' [memory_objective])
      in if \<not> status_ok st then Some (Ex_failed ''add_contract failed'')
         else do {
           let s = feed (example_evidence 1 (Id 1) Dim_MemoryPressure 1 (VPressureRatio (PressureRatio (dec 95 100)))) s;
           (r1, s) \<leftarrow> ask 2 s;
           let s = feed (example_evidence 2 (Id 1) Dim_MemoryPressure 4 (VPressureRatio (PressureRatio (dec 85 100)))) s;
           (r2, s) \<leftarrow> ask 5 s;
           let s = feed (example_evidence 3 (Id 1) Dim_MemoryPressure 7 (VPressureRatio (PressureRatio (dec 75 100)))) s;
           (r3, s) \<leftarrow> ask 8 s;
           Some (Ex_results [(''memory[1] pressure-0.95'', r1), (''memory[2] pressure-0.85'', r2), (''memory[3] pressure-0.75'', r3)]) })"

definition throughput_objective :: Objective where
  "throughput_objective = default_objective\<lparr> o_id := Id 1, o_gen := Gen 1, o_name := ''request-throughput'', o_dim := Dim_Throughput,
     o_kind := K_ThroughputRate, o_comparison := AtLeast, o_hard := Hard, o_enforcement := EC_Authorized,
     o_target := VRequestsPerSecond (Rate (dec 100 1)), o_rate_tag := RT_Requests, o_min_evidence := Count 1 \<rparr>"

definition example_throughput :: "ExampleRun option" where
  "example_throughput =
     (let (st, s) = example_fabric (example_policy ''throughput-policy'' ''sustain at least 100 requests per second'')
                      (example_contract (Gen 1) ''throughput-contract'' [throughput_objective])
      in if \<not> status_ok st then Some (Ex_failed ''add_contract failed'')
         else do {
           let s = feed (example_evidence 1 (Id 1) Dim_Throughput 1 (VRequestsPerSecond (Rate (dec 150 1)))) s;
           (r1, s) \<leftarrow> ask 2 s;
           let s = feed (example_evidence 2 (Id 1) Dim_Throughput 2 (VRequestsPerSecond (Rate (dec 40 1)))) s;
           (r2, s) \<leftarrow> ask 3 s;
           Some (Ex_results [(''throughput[1] 150-req/s'', r1), (''throughput[2] mean-95-req/s'', r2)]) })"

definition recovery_objective :: Objective where
  "recovery_objective = default_objective\<lparr> o_id := Id 2, o_gen := Gen 1, o_name := ''recovery-max-duration'', o_dim := Dim_RecoveryTime,
     o_kind := K_RecoveryMaxDuration, o_comparison := AtMost, o_hard := Hard, o_enforcement := EC_Authorized,
     o_target := VDuration (seconds 5), o_min_evidence := Count 1 \<rparr>"

definition recovery_at :: "RecoveryEventPhase \<Rightarrow> int \<Rightarrow> Impl \<Rightarrow> Impl" where
  "recovery_at phase sec s = snd (record_recovery_event (Id 2) phase (seconds sec) s)"

definition example_recovery :: "ExampleRun option" where
  "example_recovery =
     (let (st, s) = example_fabric (example_policy ''recovery-policy'' ''recover within the 5 second RTO'')
                      (example_contract (Gen 1) ''recovery-contract'' [recovery_objective])
      in if \<not> status_ok st then Some (Ex_failed ''add_contract failed'')
         else do {
           let s = recovery_at REP_Authoritative 0 (recovery_at REP_Observed 0 s);
           (r1, s) \<leftarrow> ask 3 s;
           let s = recovery_at REP_Verified 6 (recovery_at REP_Restored 6 s);
           (r2, s) \<leftarrow> ask 7 s;
           Some (Ex_results [(''recovery[1] in-progress-3s'', r1), (''recovery[2] restored-6s'', r2)]) })"

definition ingest_failed :: "string \<Rightarrow> Status \<Rightarrow> ExampleRun option" where
  "ingest_failed what st = Some (Ex_failed (what @ '' failed: '' @ status_message st))"

definition example_stale_evidence :: "ExampleRun option" where
  "example_stale_evidence =
     (let (st, s) = example_fabric (example_policy ''stale-policy'' ''revalidate evidence that falls outside the window'')
                      (example_contract (Gen 1) ''latency-contract'' [p99_latency (milliseconds 100)])
      in if \<not> status_ok st then Some (Ex_failed ''add_contract failed'')
         else case feed_checked (latency_samples 50000000) 0 s of
           (Some (k, st), s) \<Rightarrow> ingest_failed ''ingest'' st
         | (None, s) \<Rightarrow> do {
             (r1, s) \<leftarrow> ask 70 s;
             (r2, s) \<leftarrow> ask 1000 s;
             Some (Ex_results [(''stale[1] fresh-in-window'', r1), (''stale[2] far-past-window'', r2)]) })"

definition violations :: "nat \<Rightarrow> Impl \<Rightarrow> Impl" where
  "violations n s = ((\<lambda>s. snd (ingest_violation_event (Id 1) (seconds 70) s)) ^^ n) s"

definition example_error_budget :: "ExampleRun option" where
  "example_error_budget =
     (let (st, s) = example_fabric (example_policy ''budget-policy'' ''an exhausted error budget pushes the objective to the limit'')
                      (example_contract (Gen 1) ''budget-contract'' [p99_latency (milliseconds 100)])
      in if \<not> status_ok st then Some (Ex_failed ''add_contract failed'')
         else let s = snd (set_objective_budget (Id 1) (Count 100) (seconds 60) s)
              in case feed_checked (latency_samples 50000000) 0 s of
                   (Some (k, st), s) \<Rightarrow> ingest_failed ''ingest'' st
                 | (None, s) \<Rightarrow> do {
                     (r1, s) \<leftarrow> ask 70 s;
                     (r2, s) \<leftarrow> ask 70 (violations 90 s);
                     (r3, s) \<leftarrow> ask 70 (violations 11 s);
                     Some (Ex_results [(''budget[1] healthy'', r1), (''budget[2] near-limit'', r2), (''budget[3] exhausted'', r3)]) })"

text \<open>\<^verbatim>\<open>make_contract\<close> of the example of supersession; there the status of \<^verbatim>\<open>add_contract\<close> is ignored.\<close>

definition superseding_contract :: "SloContractGen \<Rightarrow> Duration \<Rightarrow> SloContract" where
  "superseding_contract gen target = example_contract gen ''latency-contract'' [p99_latency target]"

definition example_supersession :: "ExampleRun option" where
  "example_supersession =
     (let s = snd (example_fabric (example_policy ''supersession-policy'' ''the newest active contract governs'')
                     (superseding_contract (Gen 1) (milliseconds 100)))
      in case feed_checked (latency_samples 130000000) 0 s of
           (Some (k, st), s) \<Rightarrow> ingest_failed ''ingest'' st
         | (None, s) \<Rightarrow> do {
             (r1, s) \<leftarrow> ask 70 s;
             let s = snd (supersede_contract (superseding_contract (Gen 2) (milliseconds 200)) (seconds 71) s);
             (r2, s) \<leftarrow> ask 72 s;
             Some (Ex_results [(''supersession[before]'', r1), (''supersession[after]'', r2)]) })"

definition example_multobjective :: "ExampleRun option" where
  "example_multobjective =
     (let (st, s) = example_fabric (example_policy ''multobjective-policy'' ''honour the most-severely-violated hard objective first'')
                      (example_contract (Gen 1) ''multobjective-contract'' [p99_latency (milliseconds 100), cost_budget (Id 2)])
      in if \<not> status_ok st then Some (Ex_failed ''add_contract failed'')
         else case feed_checked (latency_samples 130000000) 0 s of
           (Some (k, st), s) \<Rightarrow> ingest_failed ''ingest latency'' st
         | (None, s) \<Rightarrow> do {
             let s = feed (example_evidence 65 (Id 2) Dim_Cost 1 (VCostMicros (CostMicros 300000))) s;
             let s = feed (example_evidence 66 (Id 2) Dim_Cost 3 (VCostMicros (CostMicros 800000))) s;
             (res, s) \<leftarrow> ask 70 s;
             Some (Ex_results [(''multobjective'', res)]) })"

definition example_enforcement_explanation :: "ExampleRun option" where
  "example_enforcement_explanation =
     (let (st, s) = example_fabric (example_policy ''enforcement-policy'' ''violations authorize a typed runtime action'')
                      (example_contract (Gen 1) ''enforcement-contract'' [p99_latency (milliseconds 100)])
      in if \<not> status_ok st then Some (Ex_failed ''add_contract failed'')
         else case feed_checked (latency_samples 130000000) 0 s of
           (Some (k, st), s) \<Rightarrow> ingest_failed ''ingest'' st
         | (None, s) \<Rightarrow> do { (res, s) \<leftarrow> ask 70 s; Some (Ex_results [(''enforcement'', res)]) })"

section \<open>The examples return\<close>

text \<open>What an evaluation needs to be defined, and that every call of the examples keeps it.\<close>

definition sane :: "Impl \<Rightarrow> bool" where
  "sane s \<longleftrightarrow> fabric_inv s \<and> has_objectives s"

lemma sane_engine: "engine_run s t \<Longrightarrow> sane s \<Longrightarrow> sane t"
  using engine_run_inv engine_run_objectives by (auto simp: sane_def)

lemma sane_new: "sane (new_fabric None)"
proof -
  have "has_objectives (new_fabric None)" by (simp add: has_objectives_def new_fabric_def)
  then show ?thesis using fabric_inv_new by (simp add: sane_def)
qed

lemma sane_fabric [intro]: "sane (snd (example_fabric p c))"
  unfolding example_fabric_def using sane_new sane_engine [OF setup_engine(2)] sane_engine [OF setup_engine(1)] by blast

lemma sane_feed [intro]: "in_i64 (as_ns (e_time e)) \<Longrightarrow> sane s \<Longrightarrow> sane (feed e s)"
  unfolding feed_def using sane_engine [OF ingest_engine] by blast

lemma sane_feed_checked [intro]:
  "\<forall>e \<in> set es. in_i64 (as_ns (e_time e)) \<Longrightarrow> sane s \<Longrightarrow> sane (snd (feed_checked es k s))"
proof (induction es arbitrary: k s)
  case (Cons e es)
  obtain st t where t: "ingest e (e_time e) s = (st, t)" by force
  then have "sane t" using Cons.prems sane_feed [of e s] by (simp add: feed_def)
  then show ?case using Cons t by simp
qed simp

lemma sane_recovery [intro]: "sane s \<Longrightarrow> sane (recovery_at phase sec s)"
  unfolding recovery_at_def using sane_engine [OF recovery_engine] by blast

lemma sane_budget [intro]: "in_i64 (count_value n) \<Longrightarrow> sane s \<Longrightarrow> sane (snd (set_objective_budget oi n w s))"
  using sane_engine [OF budget_engine] by blast

lemma sane_violations [intro]: "sane s \<Longrightarrow> sane (violations n s)"
proof (induction n)
  case (Suc n)
  have "engine_run t (snd (ingest_violation_event (Id 1) (seconds 70) t))" for t
    using step_violation by (rule engine_run_step) (simp_all add: keeps_process_def)
  from sane_engine [OF this] show ?case using Suc by (simp add: violations_def)
qed (simp add: violations_def)

lemma sane_supersede [intro]: "c_objectives c \<noteq> [] \<Longrightarrow> sane s \<Longrightarrow> sane (snd (supersede_contract c now s))"
  using fabric_step_inv [OF step_supersede, of s c now]
  by (auto simp: sane_def has_objectives_def supersede_contract_def replace_contract_def put_contract_def fabric_inv_def
      omap.lookup_assign omap.wf_assign split: option.splits if_splits)

lemma ask_returns: "sane s \<Longrightarrow> yields (\<lambda>(res, t). sane t) (ask sec s)"
  unfolding ask_def yields_def using evaluate_defined sane_engine [OF evaluate_engine] by (fastforce simp: sane_def)

lemma ask_then: "sane s \<Longrightarrow> (\<And>res t. sane t \<Longrightarrow> yields P (f (res, t))) \<Longrightarrow> yields P (Option.bind (ask sec s) f)"
  using ask_returns by (rule yields_bind) auto

lemma seconds_range [simp]: "in_i64 (as_ns (seconds n))"
  by (simp add: seconds_def)

lemma hundred_range [simp]: "in_i64 100"
  by (simp add: in_i64_def i64_min_def i64_max_def)

lemma example_times [simp]:
  "in_i64 (as_ns (e_time (example_evidence i oid dim sec v)))" "\<forall>e \<in> set (latency_samples ns). in_i64 (as_ns (e_time e))"
  by (simp_all add: example_evidence_def latency_samples_def)

lemma fed_then:
  assumes "sane s" "\<forall>e \<in> set es. in_i64 (as_ns (e_time e))"
    "\<And>k st t. yields P (f k st t)" "\<And>t. sane t \<Longrightarrow> yields P (g t)"
  shows "yields P (case feed_checked es n s of (Some (k, st), t) \<Rightarrow> f k st t | (None, t) \<Rightarrow> g t)"
  using sane_feed_checked [OF assms(2,1), of n] assms(3,4) by (auto split: prod.split option.split)

lemma setup_then: "(\<And>st t. sane t \<Longrightarrow> yields P (f st t)) \<Longrightarrow> yields P (case example_fabric p c of (st, t) \<Rightarrow> f st t)"
  using sane_fabric [of p c] by (cases "example_fabric p c") simp

text \<open>Every example runs to its end without undefined behaviour.\<close>

lemma examples_return:
  "yields (\<lambda>_. True) example_availability" "yields (\<lambda>_. True) example_cost" "yields (\<lambda>_. True) example_memory"
  "yields (\<lambda>_. True) example_throughput" "yields (\<lambda>_. True) example_recovery"
  unfolding example_availability_def example_cost_def example_memory_def example_throughput_def example_recovery_def Let_def
  by (rule setup_then, auto intro!: ask_then sane_feed sane_recovery)+

lemma looping_examples_return:
  "yields (\<lambda>_. True) example_latency" "yields (\<lambda>_. True) example_stale_evidence" "yields (\<lambda>_. True) example_error_budget"
  "yields (\<lambda>_. True) example_supersession" "yields (\<lambda>_. True) example_multobjective"
  "yields (\<lambda>_. True) example_enforcement_explanation"
  unfolding example_latency_def example_stale_evidence_def example_error_budget_def example_supersession_def example_multobjective_def
    example_enforcement_explanation_def Let_def
  by (auto simp: ingest_failed_def superseding_contract_def example_contract_def
      intro!: setup_then fed_then ask_then sane_feed sane_budget sane_violations sane_supersede sane_fabric)

section \<open>Verdicts\<close>

text \<open>The verdicts of a run: for each evaluation the overall state, the states of the objectives and the action.\<close>

definition verdict_of :: "EvaluationResult Result \<Rightarrow> (ComplianceState \<times> ComplianceState list \<times> EnforcementAction) option" where
  "verdict_of res =
     map_option (\<lambda>er. (ex_compliance (er_explanation er), map os_state (ex_objectives (er_explanation er)), i_action (er_intent er)))
       (result_data res)"

fun verdicts :: "ExampleRun \<Rightarrow> (ComplianceState \<times> ComplianceState list \<times> EnforcementAction) option list" where
  "verdicts (Ex_failed msg) = []"
| "verdicts (Ex_results rs) = map (verdict_of \<circ> snd) rs"

text \<open>The examples without a long loop find what their comments announce.\<close>

lemma example_availability_verdicts:
  "map_option verdicts example_availability =
     Some [Some (CS_Compliant, [CS_Compliant], EA_NoAction), Some (CS_Violating, [CS_Violating], EA_Replicate)]"
  by code_simp

lemma example_cost_verdicts:
  "map_option verdicts example_cost =
     Some [Some (CS_Compliant, [CS_Compliant], EA_NoAction), Some (CS_Violating, [CS_Violating], EA_ManualInterventionRequired)]"
  by code_simp

text \<open>The hysteresis band holds the violation until the pressure is below the recovery threshold.\<close>

lemma example_memory_verdicts:
  "map_option verdicts example_memory =
     Some [Some (CS_Violating, [CS_Violating], EA_ReclaimMemory), Some (CS_Violating, [CS_Violating], EA_ReclaimMemory),
           Some (CS_Compliant, [CS_Compliant], EA_NoAction)]"
  by code_simp

lemma example_throughput_verdicts:
  "map_option verdicts example_throughput =
     Some [Some (CS_Compliant, [CS_Compliant], EA_NoAction), Some (CS_Violating, [CS_Violating], EA_IncreaseCapacity)]"
  by code_simp

lemma example_recovery_verdicts:
  "map_option verdicts example_recovery =
     Some [Some (CS_Compliant, [CS_Compliant], EA_NoAction), Some (CS_Violating, [CS_Violating], EA_Failover)]"
  by code_simp

text \<open>
  A cost budget does not age: the spending of the first seconds still violates a budget of one minute an hour later, since
  the window only drops old items when new evidence arrives.
\<close>

definition spent :: Impl where
  "spent = feed (example_evidence 1 (Id 1) Dim_Cost 1 (VCostMicros (CostMicros 1100000)))
     (snd (example_fabric (example_policy [] []) (example_contract (Gen 1) [] [cost_budget (Id 1)])))"

lemma cost_window_not_aged:
  "map_option (verdict_of \<circ> fst) (ask 3600 spent) = Some (Some (CS_Violating, [CS_Violating], EA_ManualInterventionRequired))"
  by code_simp

end
