(* ===== verification/Binary32.thy ===== *)
theory Binary32
  imports Ceilings
begin

text \<open>
  The C++ type \<^verbatim>\<open>float\<close>: IEEE-754 binary32.  A float is represented by the double of the same value, so that comparison
  and the conversion to \<^verbatim>\<open>double\<close> are those of \<^verbatim>\<open>Binary64\<close>.  Sum, difference and product round the result of the double
  operation once more, which is the correctly rounded result: 53 bits are at least twice 24 bits and two.
\<close>

type_synonym float32 = double

text \<open>The float nearest to \<open>n / d * 2 ^ e\<close>, with 24 bits or the least exponent -149; from \<open>2 ^ 128\<close> on it is infinite.\<close>

definition single_exp :: "int \<Rightarrow> int \<Rightarrow> int \<Rightarrow> int" where
  "single_exp n d e =
     (let k = max (- 149) (bit_len n - bit_len d + e - 24)
      in if 16777216 * (d * pow2 (k - e)) \<le> n * pow2 (e - k) then k + 1 else k)"

definition single_round :: "bool \<Rightarrow> int \<Rightarrow> int \<Rightarrow> int \<Rightarrow> float32" where
  "single_round neg n d e =
     (if n = 0 then mk_double neg 0
      else let k = single_exp n d e;
               q = rne (n * pow2 (e - k)) (d * pow2 (k - e))
           in if pow2 128 \<le> q * pow2 k then mk_double neg inf_mag else mk_double neg (round_mag q 1 k))"

definition to_single :: "double \<Rightarrow> float32" where
  "to_single x = (if is_nan x then qnan else if is_inf x then x else single_round (dsign x) (dmant x) 1 (dexp x))"

definition fdec :: "int \<Rightarrow> int \<Rightarrow> float32" where
  "fdec n d = single_round False n d 0"

definition f_of_int :: "int \<Rightarrow> float32" where
  "f_of_int i = single_round (i < 0) \<bar>i\<bar> 1 0"

definition fadd :: "float32 \<Rightarrow> float32 \<Rightarrow> float32" where
  "fadd x y = to_single (dadd x y)"

definition fsub :: "float32 \<Rightarrow> float32 \<Rightarrow> float32" where
  "fsub x y = to_single (dsub x y)"

definition fmul :: "float32 \<Rightarrow> float32 \<Rightarrow> float32" where
  "fmul x y = to_single (dmul x y)"

section \<open>Facts\<close>

lemma dmant_nonneg [simp]: "0 \<le> dmant x"
  by (simp add: dmant_def)

lemma is_nan_dneg [simp]: "is_nan (dneg x) = is_nan x" "is_inf (dneg x) = is_inf x" "dsign (dneg x) = (\<not> dsign x)" "dmant (dneg x) = dmant x" "dexp (dneg x) = dexp x"
  by (simp_all add: dneg_def is_nan_def is_inf_def dmant_def dexp_def)

text \<open>Results that are not negative.\<close>

definition not_below :: "double \<Rightarrow> bool" where
  "not_below x \<longleftrightarrow> is_nan x \<or> \<not> dsign x"

lemma not_below_zero: "not_below x \<Longrightarrow> \<not> dlt x dzero"
  by (auto simp: not_below_def dlt_def dzero_def dkey_def dsign_def dmag_def)

lemma not_below_mk: "0 \<le> m \<and> m \<le> inf_mag \<Longrightarrow> not_below (mk_double False m)"
  using dsign_mk_double [of m False] by (simp add: not_below_def inf_mag_def)

lemma not_below_dmul: "not_below x \<Longrightarrow> not_below y \<Longrightarrow> not_below (dmul x y)"
  using round_mag_range [of "dmant x * dmant y" 1 "dexp x + dexp y"]
  by (auto simp: dmul_def not_below_def [of x] not_below_def [of y] not_below_mk) (auto simp: not_below_def qnan_def is_nan_def dmag_def inf_mag_def)

lemma not_below_single: "not_below x \<Longrightarrow> not_below (to_single x)"
proof (cases "is_finite x")
  case True
  assume "not_below x"
  then have s: "\<not> dsign x" using True by (auto simp: not_below_def is_finite_def is_nan_def)
  have "not_below (single_round False (dmant x) 1 (dexp x))"
    using round_mag_range rne_nonneg pow2_pos not_below_mk inf_mag_bounds
    by (simp add: single_round_def Let_def less_imp_le)
  then show ?thesis using True s by (simp add: to_single_def is_finite_def is_nan_def is_inf_def)
qed (auto simp: to_single_def is_finite_def not_below_def is_nan_def is_inf_def qnan_def dmag_def inf_mag_def)

lemma single_specials [simp]: "is_nan qnan" "to_single qnan = qnan" "to_single dzero = dzero"
  by code_simp+

lemma fsub_self: "is_nan (fsub x x) \<or> fsub x x = dzero"
proof (cases "is_nan x \<or> is_inf x")
  case True
  then have "dsub x x = qnan" by (auto simp: dsub_def dadd_def)
  then show ?thesis by (simp add: fsub_def)
next
  case False
  then have "dsub x x = mk_double False 0" by (simp add: dsub_def dadd_def Let_def)
  then show ?thesis by (simp add: fsub_def mk_double_def dzero_def [symmetric])
qed

lemma fsub_nan: "is_nan y \<Longrightarrow> is_nan (fsub x y)"
  by (simp add: fsub_def dsub_def dadd_def)

end
