(* ===== verification/Cuda_Kernel.thy ===== *)
theory Cuda_Kernel
  imports Binary32
begin

text \<open>
  The kernel of the CUDA proof (\<^verbatim>\<open>cuda_proof.cu\<close>) and the check of its results on the host.  A launch is the list of its
  threads in the order in which they happen to run.  The compiler may contract a product and a sum into one rounding,
  and does so by default for the device: the multiply-add of the device is the argument \<open>mad\<close>; that of the host,
  compiled for x86-64, rounds twice.
\<close>

section \<open>Kernel\<close>

text \<open>\<open>mad p q r\<close> computes \<open>p * q + r\<close>.\<close>

type_synonym mad = "float32 \<Rightarrow> float32 \<Rightarrow> float32 \<Rightarrow> float32"

definition unfused :: mad where
  "unfused p q r = fadd (fmul p q) r"

definition saxpy_element :: "mad \<Rightarrow> float32 \<Rightarrow> float32 \<Rightarrow> float32 \<Rightarrow> int \<Rightarrow> float32" where
  "saxpy_element mad x y a iters = ((\<lambda>v. mad v (fdec 999 1000) x) ^^ nat (iters - 1)) (mad a y x)"

definition saxpy_thread :: "mad \<Rightarrow> float32 list \<Rightarrow> float32 list \<Rightarrow> nat \<Rightarrow> float32 \<Rightarrow> int \<Rightarrow> nat \<Rightarrow> float32 list \<Rightarrow> float32 list" where
  "saxpy_thread mad x y n a iters idx out =
     (if n \<le> idx then out else out[idx := saxpy_element mad (x ! idx) (y ! idx) a iters])"

definition saxpy_kernel :: "mad \<Rightarrow> nat list \<Rightarrow> float32 list \<Rightarrow> float32 list \<Rightarrow> nat \<Rightarrow> float32 \<Rightarrow> int \<Rightarrow> float32 list \<Rightarrow> float32 list" where
  "saxpy_kernel mad threads x y n a iters out = fold (saxpy_thread mad x y n a iters) threads out"

definition grid_size :: "nat \<Rightarrow> nat \<Rightarrow> nat" where
  "grid_size n block = (n + block - 1) div block"

section \<open>Reference on the host\<close>

definition element_valid :: "float32 \<Rightarrow> float32 \<Rightarrow> float32 \<Rightarrow> float32 \<Rightarrow> int \<Rightarrow> bool" where
  "element_valid x y result a iters =
     (let v = saxpy_element unfused x y a iters;
          delta = fsub v result;
          delta = (if dlt delta dzero then dneg delta else delta);
          scale = (if dlt v dzero then dneg v else v);
          scale = (if dlt scale (fdec 1 1) then fdec 1 1 else scale)
      in \<not> dlt (fmul (fdec 2 1000) scale) delta)"

definition cpu_reference_valid :: "float32 list \<Rightarrow> float32 list \<Rightarrow> float32 list \<Rightarrow> float32 \<Rightarrow> int \<Rightarrow> bool" where
  "cpu_reference_valid x y out a iters = list_all (\<lambda>i. element_valid (x ! i) (y ! i) (out ! i) a iters) [0..<length x]"

section \<open>Facts\<close>

text \<open>The blocks cover the data.\<close>

lemma grid_covers: "0 < block \<Longrightarrow> n \<le> grid_size n block * block"
proof -
  assume b: "0 < block"
  have "n + block - 1 < (n + block - 1) div block * block + block"
    using b by (metis add_less_cancel_left div_mult_mod_eq mod_less_divisor)
  then show ?thesis using b by (simp add: grid_size_def)
qed

text \<open>
  The order of the threads does not matter, nor does it how often one runs: when every index below \<open>n\<close> has its thread
  the output is the elementwise result.
\<close>

lemma length_kernel [simp]: "length (saxpy_kernel mad threads x y n a iters out) = length out"
  unfolding saxpy_kernel_def by (induction threads arbitrary: out) (simp_all add: saxpy_thread_def)

lemma kernel_nth:
  assumes "i < length out"
  shows "saxpy_kernel mad threads x y n a iters out ! i =
    (if i \<in> set threads \<and> i < n then saxpy_element mad (x ! i) (y ! i) a iters else out ! i)"
  using assms unfolding saxpy_kernel_def
  by (induction threads arbitrary: out) (auto simp: saxpy_thread_def nth_list_update)

lemma kernel_elementwise:
  assumes "length out = n" "set threads = {..<grid_size n 256 * 256}"
  shows "saxpy_kernel mad threads x y n a iters out = map (\<lambda>i. saxpy_element mad (x ! i) (y ! i) a iters) [0..<n]"
  using assms grid_covers [of 256 n] by (intro nth_equalityI) (auto simp: kernel_nth)

text \<open>The tolerance is never negative, so the check accepts what it computed itself.\<close>

lemma below_cases: "not_below v \<or> dlt v dzero \<and> not_below (dneg v) \<or> \<not> dlt v dzero \<and> dlt v (fdec 1 1)"
proof -
  have key: "dkey dzero = 0" "\<not> is_nan dzero" "0 < dkey (fdec 1 1)" "\<not> is_nan (fdec 1 1)" by code_simp+
  have "0 < dmag v \<or> dmag v = 0" by (auto simp: dmag_def)
  then show ?thesis using key by (auto simp: not_below_def dlt_def dkey_def [of v])
qed

lemma element_valid_self: "element_valid x y (saxpy_element unfused x y a iters) a iters"
proof -
  define v where "v = saxpy_element unfused x y a iters"
  define s where "s = (if dlt v dzero then dneg v else v)"
  define scale where "scale = (if dlt s (fdec 1 1) then fdec 1 1 else s)"
  have one: "not_below (fdec 1 1)" "not_below (fdec 2 1000)" by code_simp+
  have "not_below scale"
    using below_cases [of v] not_below_zero [of v] one(1) by (auto simp: scale_def s_def)
  then have "not_below (fmul (fdec 2 1000) scale)"
    using one not_below_dmul not_below_single by (simp add: fmul_def)
  then have "\<not> dlt (fmul (fdec 2 1000) scale) dzero" by (rule not_below_zero)
  then show ?thesis
    using fsub_self [of v] unfolding element_valid_def v_def [symmetric] Let_def s_def [symmetric] scale_def [symmetric]
    by (auto simp: dlt_def)
qed

text \<open>It accepts a result that is not a number, whatever it computed.\<close>

lemma element_valid_nan: "is_nan result \<Longrightarrow> element_valid x y result a iters"
  using fsub_nan by (simp add: element_valid_def Let_def dlt_def)

text \<open>A device that rounds twice, as the host does, passes the check.\<close>

lemma kernel_passes:
  assumes "length x = n" "length out = n" "set threads = {..<grid_size n 256 * 256}"
  shows "cpu_reference_valid x y (saxpy_kernel unfused threads x y n a iters out) a iters"
  using assms element_valid_self by (simp add: cpu_reference_valid_def kernel_elementwise list_all_iff)

lemma nan_passes: "length x = n \<Longrightarrow> cpu_reference_valid x y (replicate n qnan) a iters"
  by (simp add: cpu_reference_valid_def list_all_iff element_valid_nan)

end
