(* ===== verification/Cuda_Proof.thy ===== *)
theory Cuda_Proof
  imports Examples Cuda_Kernel
begin

text \<open>
  The CUDA proof (\<^verbatim>\<open>cuda_proof.cu\<close>) around the kernel of \<^verbatim>\<open>Cuda_Kernel\<close>: the contract, the figures it derives from the
  measured launch times and memory sizes, the evidence of one run and its evaluation, and the whole program with its
  checked and unchecked calls of the CUDA runtime, which are an argument.
\<close>

section \<open>Contract and evidence\<close>

definition cuda_latency :: "double \<Rightarrow> Objective" where
  "cuda_latency latency_target_ns = default_objective\<lparr> o_id := Id 1, o_gen := Gen 1, o_name := ''kernel-latency'', o_dim := Dim_Latency,
     o_kind := K_LatencyPercentile, o_percentile_rank := dec 99 100, o_comparison := AtMost, o_hard := Hard,
     o_target := VDuration (Duration (d_to_i64 latency_target_ns)), o_min_evidence := Count 8, o_window_type := WT_Sliding,
     o_window_duration := seconds 10, o_window_count := Count 64 \<rparr>"

definition cuda_throughput_objective :: "double \<Rightarrow> Objective" where
  "cuda_throughput_objective throughput_target = default_objective\<lparr> o_id := Id 2, o_gen := Gen 1, o_name := ''kernel-throughput'',
     o_dim := Dim_Throughput, o_kind := K_ThroughputRate, o_comparison := AtLeast, o_hard := Hard,
     o_target := VOperationsPerSecond (Rate throughput_target), o_rate_tag := RT_Operations, o_min_evidence := Count 8,
     o_window_type := WT_Sliding, o_window_duration := seconds 10, o_window_count := Count 64 \<rparr>"

definition cuda_memory :: "double \<Rightarrow> Objective" where
  "cuda_memory pressure_target = default_objective\<lparr> o_id := Id 3, o_gen := Gen 1, o_name := ''device-memory'', o_dim := Dim_MemoryPressure,
     o_kind := K_MemoryPressureMax, o_comparison := AtMost, o_hard := Hard, o_target := VPressureRatio (PressureRatio pressure_target),
     o_min_evidence := Count 1 \<rparr>"

definition setup_fabric :: "double \<Rightarrow> double \<Rightarrow> double \<Rightarrow> Impl \<Rightarrow> Impl" where
  "setup_fabric latency_target_ns throughput_target pressure_target s =
     (let s = snd (set_policy (example_policy ''cuda'' ''cuda proof policy'') s);
          c = \<lparr> c_id = Id 1, c_gen = Gen 1, c_service = Id 100, c_workload = Id 200, c_tenant = Id 1,
                c_objectives = [cuda_latency latency_target_ns, cuda_throughput_objective throughput_target, cuda_memory pressure_target],
                c_policy_id = Id 1, c_policy_gen = Gen 1, c_effective_from = Duration 0, c_expiration = None, c_epoch = Gen 1,
                c_lifecycle = CL_Active, c_name = ''cuda-contract'', c_provenance = ''test'' \<rparr>;
          s = snd (add_contract c s)
      in snd (activate_contract (Id 1) (Duration 0) s))"

text \<open>The best of the measured launch times, and the figures derived from it.\<close>

definition best_of :: "double list \<Rightarrow> double" where
  "best_of ts = fold (\<lambda>t best. if dlt t best then t else best) ts (dec 1000000000000000000 1)"

definition cuda_throughput :: "int \<Rightarrow> int \<Rightarrow> double \<Rightarrow> double" where
  "cuda_throughput n iters best = ddiv (d_of_int (n * iters)) (dmul best (dec 1 1000000000))"

definition cuda_pressure :: "int \<Rightarrow> int \<Rightarrow> double" where
  "cuda_pressure used total0 = ddiv (d_of_int used) (d_of_int total0)"

definition cuda_evidence :: "int \<Rightarrow> ObjectiveId \<Rightarrow> Dimension \<Rightarrow> int \<Rightarrow> ObjectiveValue \<Rightarrow> EvidenceRecord" where
  "cuda_evidence i oid dim ms v = default_evidence\<lparr> e_id := Id (word_of_int i), e_gen := Gen 1, e_dimension := dim, e_objective_id := oid,
     e_objective_gen := Gen 1, e_source := Id 1, e_source_gen := Gen 1, e_epoch := Gen 1, e_time := milliseconds ms,
     e_provenance := PV_Measured, e_value := v \<rparr>"

text \<open>The evidence of one run, eight pairs of latency and throughput and one memory pressure, and its evaluation.\<close>

definition cuda_pair :: "int \<Rightarrow> double \<Rightarrow> double \<Rightarrow> nat \<Rightarrow> Impl \<Rightarrow> Impl" where
  "cuda_pair run best throughput i s =
     feed (cuda_evidence (2000 + run * 10 + int i) (Id 2) Dim_Throughput (int i * 10) (VOperationsPerSecond (Rate throughput)))
       (feed (cuda_evidence (1000 + run * 10 + int i) (Id 1) Dim_Latency (int i * 10) (VDuration (Duration (d_to_i64 best)))) s)"

definition cuda_run :: "int \<Rightarrow> double \<Rightarrow> double \<Rightarrow> double \<Rightarrow> (EvaluationResult Result \<times> Impl) option" where
  "cuda_run run best throughput pressure =
     (let s = setup_fabric (dec 12000 1) (dec 1000000000000 1) (dec 90 100) (new_fabric None);
          s = fold (cuda_pair run best throughput) [0..<8] s;
          s = feed (cuda_evidence (3000 + run) (Id 3) Dim_MemoryPressure 100 (VPressureRatio (PressureRatio pressure))) s
      in evaluate (Id 100) (Id 200) (milliseconds 200) s)"

text \<open>The exit code: the free device memory, in mebibytes, is back to within 16 of what it was.\<close>

definition cuda_exit_code :: "int \<Rightarrow> int \<Rightarrow> int" where
  "cuda_exit_code free0 free1 = (if free0 div 1048576 - 16 \<le> free1 div 1048576 then 0 else 1)"

section \<open>The CUDA runtime\<close>

text \<open>
  What the program calls, on the world \<open>'w\<close>.  An \<open>int\<close> among the results is the \<^verbatim>\<open>cudaError_t\<close>, 0 for \<^verbatim>\<open>cudaSuccess\<close>.
  The outputs of a call are the values its zero-initialised variables hold afterwards.  \<open>cu_malloc\<close> yields what the new
  buffer happens to contain.  \<open>cu_launch\<close> yields the threads that run, in their order: those of the grid, or none when
  the launch fails.  The events are handles; the results of their calls are ignored by the program.  \<open>cu_file\<close> is the
  value of \<^verbatim>\<open>__FILE__\<close>.
\<close>

record DeviceProp =
  prop_name :: string
  prop_major :: int
  prop_minor :: int
  prop_totalGlobalMem :: int

record 'w CudaApi =
  cu_file :: string
  cu_error_string :: "int \<Rightarrow> string"
  cu_device_properties :: "int \<Rightarrow> 'w \<Rightarrow> (int \<times> DeviceProp) \<times> 'w"
  cu_get_device :: "'w \<Rightarrow> (int \<times> int) \<times> 'w"
  cu_mem_get_info :: "'w \<Rightarrow> (int \<times> int \<times> int) \<times> 'w"
  cu_malloc :: "nat \<Rightarrow> 'w \<Rightarrow> (int \<times> float32 list) \<times> 'w"
  cu_memcpy :: "nat \<Rightarrow> 'w \<Rightarrow> int \<times> 'w"
  cu_launch :: "nat \<Rightarrow> nat \<Rightarrow> 'w \<Rightarrow> nat list \<times> 'w"
  cu_device_synchronize :: "'w \<Rightarrow> int \<times> 'w"
  cu_free :: "'w \<Rightarrow> int \<times> 'w"
  cu_event_create :: "'w \<Rightarrow> int \<times> 'w"
  cu_event_record :: "int \<Rightarrow> 'w \<Rightarrow> 'w"
  cu_event_synchronize :: "int \<Rightarrow> 'w \<Rightarrow> 'w"
  cu_event_elapsed :: "int \<Rightarrow> int \<Rightarrow> 'w \<Rightarrow> float32 \<times> 'w"
  cu_event_destroy :: "int \<Rightarrow> 'w \<Rightarrow> 'w"

text \<open>The contents of the device buffers.\<close>

record Buffers =
  b_x :: "float32 list"
  b_y :: "float32 list"
  b_out :: "float32 list"

definition cuda_n :: nat where
  "cuda_n = 1048576"

definition cuda_a :: float32 where
  "cuda_a = fdec 3 2"

definition host_x :: "float32 list" where
  "host_x = map (\<lambda>i. fadd (fdec 1 1) (fmul (f_of_int (int i)) (fdec 1 1000000))) [0..<cuda_n]"

definition host_y :: "float32 list" where
  "host_y = map (\<lambda>i. fsub (fdec 2 1) (fmul (f_of_int (int i)) (fdec 1 1000000))) [0..<cuda_n]"

text \<open>One launch of the kernel, and the timed launch.\<close>

definition run_kernel :: "'w CudaApi \<Rightarrow> mad \<Rightarrow> nat \<Rightarrow> nat \<Rightarrow> int \<Rightarrow> Buffers \<Rightarrow> 'w \<Rightarrow> Buffers \<times> 'w" where
  "run_kernel api mad grid block iters b w =
     (let (threads, w) = cu_launch api grid block w
      in (b\<lparr> b_out := saxpy_kernel mad threads (b_x b) (b_y b) cuda_n cuda_a iters (b_out b) \<rparr>, w))"

definition gpu_launch :: "'w CudaApi \<Rightarrow> mad \<Rightarrow> int \<Rightarrow> Buffers \<Rightarrow> 'w \<Rightarrow> double \<times> Buffers \<times> 'w" where
  "gpu_launch api mad iters b w =
     (let block = 256;
          grid = grid_size cuda_n block;
          (s, w) = cu_event_create api w;
          (e, w) = cu_event_create api w;
          w = cu_event_record api s w;
          (b, w) = run_kernel api mad grid block iters b w;
          w = cu_event_record api e w;
          w = cu_event_synchronize api e w;
          (ms, w) = cu_event_elapsed api s e w;
          w = cu_event_destroy api s w;
          w = cu_event_destroy api e w
      in (dmul ms (dec 1000000 1), b, w))"

fun launch_times :: "'w CudaApi \<Rightarrow> mad \<Rightarrow> nat \<Rightarrow> int \<Rightarrow> Buffers \<Rightarrow> 'w \<Rightarrow> double list \<times> Buffers \<times> 'w" where
  "launch_times api mad 0 iters b w = ([], b, w)"
| "launch_times api mad (Suc k) iters b w =
     (let (t, b, w) = gpu_launch api mad iters b w;
          (ts, b, w) = launch_times api mad k iters b w
      in (t # ts, b, w))"

fun warm_up :: "'w CudaApi \<Rightarrow> mad \<Rightarrow> nat \<Rightarrow> Buffers \<Rightarrow> 'w \<Rightarrow> Buffers \<times> 'w" where
  "warm_up api mad 0 b w = (b, w)"
| "warm_up api mad (Suc k) b w = (let (b, w) = run_kernel api mad ((cuda_n + 255) div 256) 256 4 b w in warm_up api mad k b w)"

definition used_device_memory :: "'w CudaApi \<Rightarrow> 'w \<Rightarrow> int \<times> 'w" where
  "used_device_memory api w = (let ((e, free_b, total_b), w) = cu_mem_get_info api w in (wrap64 (total_b - free_b), w))"

section \<open>The program\<close>

text \<open>
  A program ends with its output, its exit code and the world; \<open>None\<close> is undefined behaviour.  The macro \<^verbatim>\<open>CUDA_CHECK\<close> at
  line \<open>ln\<close> goes on with \<open>rest\<close> or exits.  \<^verbatim>\<open>printf\<close> with \<^verbatim>\<open>%.kf\<close> prints \<open>k\<close> decimals of the exact value, ties to even.
\<close>

type_synonym 'w ending = "(string \<times> int \<times> 'w) option"

definition cuda_check :: "'w CudaApi \<Rightarrow> int \<Rightarrow> string \<Rightarrow> int \<times> 'w \<Rightarrow> ('w \<Rightarrow> 'w ending) \<Rightarrow> 'w ending" where
  "cuda_check api ln out call rest =
     (case call of (e, w) \<Rightarrow>
        if e \<noteq> 0 then Some (out @ row [''CUDA error at '', cu_file api, '':'', show_int ln, '': '', cu_error_string api e], 1, w)
        else rest w)"

definition mib :: "int \<Rightarrow> int" where
  "mib bytes = bytes div 1048576"

definition d_fixed :: "nat \<Rightarrow> double \<Rightarrow> string" where
  "d_fixed k x =
     (let v = rne (dmant x * 10 ^ k * pow2 (dexp x)) (pow2 (- dexp x))
      in (if is_nan x then ''nan''
          else (if dsign x then ''-'' else []) @
            (if is_inf x then ''inf''
             else show_int (v div 10 ^ k) @ (if k = 0 then [] else ''.'' @ pad_left k (show_int (v mod 10 ^ k))))))"

text \<open>Up to the warm-up: the device, the memory before, the buffers with the input.\<close>

definition cuda_device :: "'w CudaApi \<Rightarrow> 'w \<Rightarrow> (int \<Rightarrow> int \<Rightarrow> string \<Rightarrow> 'w \<Rightarrow> 'w ending) \<Rightarrow> 'w ending" where
  "cuda_device api w rest =
     (let ((e, prop), w) = cu_device_properties api 0 w
      in cuda_check api 113 [] (e, w) (\<lambda>w.
         let out = row [''=== CUDA device (REAL) ===''] @
               row [''name='', prop_name prop, ''  computeCapability='', show_int (prop_major prop), ''.'', show_int (prop_minor prop),
                    ''  memMiB='', show_int (sint (word_of_int (mib (prop_totalGlobalMem prop)) :: u32))];
             ((e, dev), w) = cu_get_device api w
         in cuda_check api 117 out (e, w) (\<lambda>w.
            let ((e, free0, total0), w) = cu_mem_get_info api w
            in cuda_check api 118 out (e, w) (\<lambda>w.
               rest free0 total0 (out @ row [''device memory before: used='', show_int (mib ((total0 - free0) mod 18446744073709551616)),
                                             ''MiB free='', show_int (mib free0), ''MiB'']) w))))"

definition cuda_buffers :: "'w CudaApi \<Rightarrow> mad \<Rightarrow> string \<Rightarrow> 'w \<Rightarrow> (Buffers \<Rightarrow> 'w \<Rightarrow> 'w ending) \<Rightarrow> 'w ending" where
  "cuda_buffers api mad out w rest =
     (let ((e, dx), w) = cu_malloc api cuda_n w
      in cuda_check api 128 out (e, w) (\<lambda>w.
         let ((e, dy), w) = cu_malloc api cuda_n w
         in cuda_check api 129 out (e, w) (\<lambda>w.
            let ((e, dout), w) = cu_malloc api cuda_n w
            in cuda_check api 130 out (e, w) (\<lambda>w.
               cuda_check api 131 out (cu_memcpy api cuda_n w) (\<lambda>w.
               cuda_check api 132 out (cu_memcpy api cuda_n w) (\<lambda>w.
               let (b, w) = warm_up api mad 3 \<lparr> b_x = host_x, b_y = host_y, b_out = dout \<rparr> w
               in cuda_check api 136 out (cu_device_synchronize api w) (rest b)))))))"

text \<open>One scenario: measurement, parity with the host, evidence, evaluation.\<close>

definition cuda_objective_row :: "ObjectiveState \<Rightarrow> string" where
  "cuda_objective_row os =
     row [''    obj='', os_name os, '' state='', compliance_state_name (os_state os), '' samples='',
          show_int (count_value (os_sample_count os)), '' fresh='', freshness_name (os_freshness os)]"

definition cuda_scenario :: "'w CudaApi \<Rightarrow> mad \<Rightarrow> int \<Rightarrow> int \<Rightarrow> int \<times> string \<Rightarrow> Buffers \<Rightarrow> string \<Rightarrow> 'w \<Rightarrow>
    (Buffers \<Rightarrow> string \<Rightarrow> 'w \<Rightarrow> 'w ending) \<Rightarrow> 'w ending" where
  "cuda_scenario api mad total0 run work b out w rest =
     (let (iters, name) = work;
          (ts, b, w) = launch_times api mad 8 iters b w;
          best = best_of ts;
          throughput = cuda_throughput (int cuda_n) iters best;
          (used, w) = used_device_memory api w;
          pressure = cuda_pressure used total0
      in cuda_check api 156 out (cu_memcpy api cuda_n w) (\<lambda>w.
         let cpu_ver = cpu_reference_valid host_x host_y (b_out b) cuda_a iters;
             out = out @ [CHR 0x0A] @ row [''=== run '', show_int run, '' ('', name, '') [REAL measured] ===''] @
               row [''  kernel latency (best, REAL)='', d_fixed 2 best, '' ns  throughput='', d_fixed 0 throughput,
                    '' op/s  deviceMemoryPressure (REAL)='', d_fixed 4 pressure, ''  cpuParity='', if cpu_ver then ''OK'' else ''FAIL'']
         in Option.bind (cuda_run run best throughput pressure) (\<lambda>(res, _).
            case (result_ok res, result_data res) of
              (True, Some er) \<Rightarrow>
                let ex = er_explanation er
                in rest b (out @ row [''  compliance='', compliance_state_name (ex_compliance ex), ''  binding='',
                                      dimension_name (ex_binding_dimension ex), ''  action='', enforcement_action_name (ex_selected_action ex)] @
                           concat (map cuda_objective_row (ex_objectives ex)) @
                           row [''  (target is policy; measured values are REAL)'']) w
            | _ \<Rightarrow> Some (out @ row [''  evaluate failed: '', status_message (result_status res)], 1, w))))"

fun cuda_scenarios :: "'w CudaApi \<Rightarrow> mad \<Rightarrow> int \<Rightarrow> int \<Rightarrow> (int \<times> string) list \<Rightarrow> Buffers \<Rightarrow> string \<Rightarrow> 'w \<Rightarrow>
    (string \<Rightarrow> 'w \<Rightarrow> 'w ending) \<Rightarrow> 'w ending" where
  "cuda_scenarios api mad total0 run [] b out w rest = rest out w"
| "cuda_scenarios api mad total0 run (work # works) b out w rest =
     cuda_scenario api mad total0 run work b out w (\<lambda>b out w. cuda_scenarios api mad total0 (run + 1) works b out w rest)"

text \<open>The buffers are freed and the memory compared.\<close>

definition cuda_close :: "'w CudaApi \<Rightarrow> int \<Rightarrow> string \<Rightarrow> 'w \<Rightarrow> 'w ending" where
  "cuda_close api free0 out w =
     cuda_check api 213 out (cu_free api w) (\<lambda>w. cuda_check api 213 out (cu_free api w) (\<lambda>w. cuda_check api 213 out (cu_free api w) (\<lambda>w.
     cuda_check api 214 out (cu_device_synchronize api w) (\<lambda>w.
       let ((e, free1, total1), w) = cu_mem_get_info api w
       in cuda_check api 215 out (e, w) (\<lambda>w.
          let code = cuda_exit_code free0 free1
          in Some (out @ [CHR 0x0A] @ row [''=== device memory baseline restored: '', if code = 0 then ''YES'' else ''NO'', '' ===''] @
                   row [''CUDA PROOF: '', if code = 0 then ''PASS'' else ''FAIL''], code, w))))))"

text \<open>The program also configures a fabric it does not use, beside the one of each scenario.\<close>

definition cuda_main :: "'w CudaApi \<Rightarrow> mad \<Rightarrow> 'w \<Rightarrow> 'w ending" where
  "cuda_main api mad w =
     cuda_device api w (\<lambda>free0 total0 out w.
     cuda_buffers api mad out w (\<lambda>b w.
     cuda_scenarios api mad total0 0 [(4, ''low-work''), (64, ''mid-work''), (256, ''high-work'')] b out w (\<lambda>out w.
     cuda_close api free0 out w)))"

section \<open>Facts\<close>

text \<open>Whatever was measured, infinities and not-a-numbers included, the evaluation of a run is defined.\<close>

lemma cuda_run_returns: "yields (\<lambda>_. True) (cuda_run run best throughput pressure)"
proof -
  have t: "in_i64 (as_ns (e_time (cuda_evidence i oid dim ms v)))" for i oid dim ms v
    by (simp add: cuda_evidence_def milliseconds_def)
  have pairs: "sane (fold (cuda_pair run best throughput) is s)" if "sane s" for "is" s
    using that by (induction "is" arbitrary: s) (simp_all add: cuda_pair_def sane_feed t)
  have "sane (setup_fabric a b c (new_fabric None))" for a b c
    unfolding setup_fabric_def Let_def
    using sane_new sane_engine [OF setup_engine(1)] sane_engine [OF setup_engine(2)] sane_engine [OF setup_engine(3)] by blast
  then have "sane (feed (cuda_evidence i oid dim ms v) (fold (cuda_pair run best throughput) is (setup_fabric a b c (new_fabric None))))"
    for i oid dim ms v "is" a b c
    using pairs sane_feed [OF t] by blast
  then show ?thesis
    unfolding cuda_run_def Let_def yields_def using evaluate_defined by (fastforce simp: sane_def)
qed

text \<open>The best time is one of the times, or the initial value.\<close>

lemma best_of_member: "best_of ts \<in> insert (dec 1000000000000000000 1) (set ts)"
proof -
  have "fold (\<lambda>t best. if dlt t best then t else best) ts b \<in> insert b (set ts)" for b
    by (induction ts arbitrary: b) auto
  then show ?thesis by (simp add: best_of_def)
qed

text \<open>
  The program ends on every runtime: whatever the calls report and measure, it returns with exit code 0 or 1.
\<close>

definition exits :: "'w ending \<Rightarrow> bool" where
  "exits r \<longleftrightarrow> yields (\<lambda>(out, code, w). code \<in> {0, 1}) r"

lemma check_exits: "(\<And>w. exits (rest w)) \<Longrightarrow> exits (cuda_check api ln out call rest)"
  by (simp add: cuda_check_def exits_def split: prod.split)

lemma pair_exits: "(\<And>a b. exits (f a b)) \<Longrightarrow> exits (case p of (a, b) \<Rightarrow> f a b)"
  by (cases p) simp

lemma pair_app_exits: "(\<And>a b. exits (f a b c)) \<Longrightarrow> exits ((case p of (a, b) \<Rightarrow> f a b) c)"
  by (cases p) simp

lemma let_exits: "(\<And>x. exits (f x)) \<Longrightarrow> exits (Let a f)"
  by (simp add: Let_def)

lemmas exits_intros = check_exits pair_exits pair_app_exits let_exits

lemma scenario_exits: "(\<And>b out w. exits (rest b out w)) \<Longrightarrow> exits (cuda_scenario api mad total0 run work b out w rest)"
  unfolding cuda_scenario_def
  by (intro exits_intros, unfold exits_def, rule yields_call [OF cuda_run_returns]) (auto simp: Let_def split: option.split bool.split)

lemma scenarios_exit: "(\<And>out w. exits (rest out w)) \<Longrightarrow> exits (cuda_scenarios api mad total0 run works b out w rest)"
  by (induction works arbitrary: run b out w) (simp_all add: scenario_exits)

lemma close_exits: "exits (cuda_close api free0 out w)"
  unfolding cuda_close_def Let_def by (intro exits_intros) (simp add: exits_def cuda_exit_code_def)

lemma cuda_main_exits: "exits (cuda_main api mad w)"
  unfolding cuda_main_def cuda_device_def cuda_buffers_def by (intro exits_intros scenarios_exit close_exits)

text \<open>
  On a device that runs every thread of a grid, the timed launches leave the elementwise result in the output buffer.
\<close>

definition runs_grids :: "'w CudaApi \<Rightarrow> bool" where
  "runs_grids api \<longleftrightarrow> (\<forall>grid block w. set (fst (cu_launch api grid block w)) = {..<grid * block})"

lemma gpu_launch_result:
  assumes "runs_grids api" "length (b_out b) = cuda_n" "gpu_launch api mad iters b w = (t, b', w')"
  shows "b' = b\<lparr> b_out := map (\<lambda>i. saxpy_element mad (b_x b ! i) (b_y b ! i) cuda_a iters) [0..<cuda_n] \<rparr>"
proof -
  have "set threads = {..<grid_size cuda_n 256 * 256}" if "cu_launch api (grid_size cuda_n 256) 256 v = (threads, v')" for v v' threads
    using assms(1) that by (metis fst_conv runs_grids_def)
  then show ?thesis
    using assms(2,3) by (auto simp: gpu_launch_def run_kernel_def Let_def kernel_elementwise split: prod.splits)
qed

lemma launch_times_result:
  assumes "runs_grids api" "length (b_out b) = cuda_n" "launch_times api mad (Suc k) iters b w = (ts, b', w')"
  shows "b' = b\<lparr> b_out := map (\<lambda>i. saxpy_element mad (b_x b ! i) (b_y b ! i) cuda_a iters) [0..<cuda_n] \<rparr>"
  using assms(2,3)
proof (induction k arbitrary: b w ts b' w')
  case 0
  then show ?case using gpu_launch_result [OF assms(1)] by (auto split: prod.splits)
next
  case (Suc k)
  obtain t b1 w1 where l: "gpu_launch api mad iters b w = (t, b1, w1)" by (metis prod_cases3)
  obtain ts1 b2 w2 where r: "launch_times api mad (Suc k) iters b1 w1 = (ts1, b2, w2)" by (metis prod_cases3)
  have b1: "b1 = b\<lparr> b_out := map (\<lambda>i. saxpy_element mad (b_x b ! i) (b_y b ! i) cuda_a iters) [0..<cuda_n] \<rparr>"
    using gpu_launch_result [OF assms(1) Suc.prems(1) l] .
  have "b' = b2" using Suc.prems(2) l r by (simp add: launch_times.simps(2) [of _ _ "Suc k"] del: launch_times.simps)
  then show ?case using Suc.IH [OF _ r] b1 by simp
qed

text \<open>
  Events whose calls fail leave the elapsed time at zero.  No other time is less, so one failed measurement among the
  eight makes the best time zero.
\<close>

lemma best_of_least: "t \<in> set ts \<Longrightarrow> \<not> dlt t (best_of ts)"
proof -
  have keep: "\<not> dlt u b \<Longrightarrow> \<not> dlt u (fold (\<lambda>t best. if dlt t best then t else best) us b)" for us u b
    by (induction us arbitrary: b) (auto intro: dlt_trans)
  have "t \<in> set us \<Longrightarrow> \<not> dlt t (fold (\<lambda>t best. if dlt t best then t else best) us b)" for us b
    by (induction us arbitrary: b) (auto simp: keep)
  then show "t \<in> set ts \<Longrightarrow> \<not> dlt t (best_of ts)" by (simp add: best_of_def)
qed

end
