(* ===== verification/Platform.thy ===== *)
theory Platform
  imports Budget
begin

text \<open>
  The clocks of \<^verbatim>\<open>clock.hpp\<close> behind the contract their interface \<^verbatim>\<open>IClock\<close> states, that time does not jump backward, and
  the version symbols.  The readings of the clocks of the operating system, in nanoseconds, are arguments.
\<close>

section \<open>Clocks\<close>

record TimeSource =
  ts_steady :: i64
  ts_system :: i64

definition monotonic_now :: "TimeSource \<Rightarrow> Duration" where
  "monotonic_now ts = Duration (ts_steady ts)"

definition monotonic_wall_epoch_ns :: "TimeSource \<Rightarrow> i64" where
  "monotonic_wall_epoch_ns ts = ts_system ts"

definition wall_wall_epoch_ns :: "TimeSource \<Rightarrow> i64" where
  "wall_wall_epoch_ns ts = ts_system ts"

definition wall_now :: "TimeSource \<Rightarrow> Duration" where
  "wall_now ts = Duration (wall_wall_epoch_ns ts)"

definition describe :: "Duration \<Rightarrow> string" where
  "describe t = duration_to_string t"

section \<open>The contract of a clock\<close>

locale iclock =
  fixes now :: "'s \<Rightarrow> Duration"
    and passes :: "'s \<Rightarrow> 's \<Rightarrow> bool"
  assumes no_jump_back: "passes s t \<Longrightarrow> now s \<le> now t"
begin

lemma ordered: "passes\<^sup>*\<^sup>* s t \<Longrightarrow> now s \<le> now t"
  by (induction rule: rtranclp_induct) (auto dest: no_jump_back)

lemma elapsed: "passes\<^sup>*\<^sup>* s t \<Longrightarrow> 0 \<le> as_ns (now t) - as_ns (now s)"
  using ordered [of s t] by (simp add: less_eq_Duration_def)

end

text \<open>The steady clock of the operating system never goes back; the system clock may be set.\<close>

definition time_passes :: "TimeSource \<Rightarrow> TimeSource \<Rightarrow> bool" where
  "time_passes ts ts' \<longleftrightarrow> ts_steady ts \<le> ts_steady ts'"

interpretation monotonic: iclock monotonic_now time_passes
  by unfold_locales (simp add: monotonic_now_def time_passes_def less_eq_Duration_def)

text \<open>A manual clock that is not rolled back.\<close>

inductive manual_passes :: "ManualClock \<Rightarrow> ManualClock \<Rightarrow> bool" where
  "0 \<le> as_ns d \<Longrightarrow> manual_passes c (advance d c)"
| "mc_now c \<le> d \<Longrightarrow> manual_passes c (set_now d c)"
| "manual_passes c (set_wall w c)"

interpretation manual: iclock mc_now manual_passes
proof
  fix c c' assume "manual_passes c c'"
  then show "mc_now c \<le> mc_now c'"
    by cases (auto simp: advance_def set_now_def set_wall_def detail_checked_add_def less_eq_Duration_def split: option.splits if_splits)
qed

text \<open>Neither the wall clock nor a manual clock with a rollback keeps the contract.\<close>

lemma wall_clock_jumps: "\<not> iclock wall_now time_passes"
proof
  assume "iclock wall_now time_passes"
  then have "wall_now \<lparr> ts_steady = 0, ts_system = 1 \<rparr> \<le> wall_now \<lparr> ts_steady = 1, ts_system = 0 \<rparr>"
    by (rule iclock.no_jump_back) (simp add: time_passes_def)
  then show False by (simp add: wall_now_def wall_wall_epoch_ns_def less_eq_Duration_def)
qed

lemma rollback_jumps: "d < mc_now c \<Longrightarrow> mc_now (rollback d c) < mc_now c"
  by (simp add: rollback_def)

section \<open>Version\<close>

definition library_version :: string where
  "library_version = ''1.0.0''"

definition library_version_major :: int where
  "library_version_major = 1"

definition library_version_minor :: int where
  "library_version_minor = 0"

definition library_version_patch :: int where
  "library_version_patch = 0"

lemma library_version_parts:
  "library_version = show_int library_version_major @ ''.'' @ show_int library_version_minor @ ''.'' @ show_int library_version_patch"
  by code_simp

end
