(* ===== verification/Spec2Isabelle.thy ===== *)
theory Spec2Isabelle
  imports Cli Session Promises Tracking Cuda_Proof Platform
begin

text \<open>
  SLO Fabric: a verification library for the service-level-objective engine.

  \<^bold>\<open>The program.\<close>  The engine evaluates contracts made of typed objectives against evidence, keeps error budgets, decides on
  enforcement actions and authorises them under generation-checked authority, explains its decisions and persists its
  state in a checksummed file.  A coordinator process serves the engine to workers and control clients over framed
  TCP messages; workers register, send evidence and heartbeats; an inspection tool runs the engine on a fixed scenario.

  \<^bold>\<open>Theories\<close>, in dependency order, with the sources they model.  Names of definitions are those of the functions where
  HOL allows it; enumerators and record fields carry a short prefix.

  \<^item> \<^verbatim>\<open>Prelude\<close>: 64-bit integers with their wrap-around, decimal numerals, bytes, collections of rewrite rules.
  \<^item> \<^verbatim>\<open>Binary64\<close>: the IEEE type \<^verbatim>\<open>double\<close> on its 64-bit pattern, with correctly rounded arithmetic and conversions.
    \<^verbatim>\<open>Ceilings\<close>: where rounding up to an integer and counting in doubles is exact.  \<^verbatim>\<open>Binary32\<close>: the type \<^verbatim>\<open>float\<close>, as the
    doubles of the same value.
  \<^item> \<^verbatim>\<open>Identities\<close>: \<^verbatim>\<open>identities.hpp\<close>, \<^verbatim>\<open>status.hpp\<close>.  \<^verbatim>\<open>Units\<close>: \<^verbatim>\<open>units.hpp\<close>, \<^verbatim>\<open>objective_value.hpp\<close>; checked sums are exact or
    refused, checked products are exact or, like scaling, without a defined result.
  \<^item> \<^verbatim>\<open>Objectives\<close>: \<^verbatim>\<open>objective.hpp\<close>, \<^verbatim>\<open>policy.hpp\<close>, \<^verbatim>\<open>contract.hpp\<close>, \<^verbatim>\<open>evidence.hpp\<close> and the small enumerations.
  \<^item> \<^verbatim>\<open>Windows\<close>: \<^verbatim>\<open>sample_window.hpp\<close>, \<^verbatim>\<open>quantile.hpp\<close>; windows keep their invariant, a sliding window refines the list of
    recent samples, quantiles are order statistics.
  \<^item> \<^verbatim>\<open>Budget\<close>: \<^verbatim>\<open>budget.hpp\<close>, the manual clock of \<^verbatim>\<open>clock.hpp\<close>; budgets balance.
  \<^item> \<^verbatim>\<open>Enforcement\<close>: \<^verbatim>\<open>enforcement.hpp\<close>; the lifecycle of an enforcement.  \<^verbatim>\<open>Adapter\<close>: \<^verbatim>\<open>adapter.hpp\<close>; the contract of an
    enforcer is a locale, which the reference sink implements.
  \<^item> \<^verbatim>\<open>Crc32\<close>: \<^verbatim>\<open>crc32.hpp\<close>; the table-driven checksum equals the bit-serial one and detects bursts.
  \<^item> \<^verbatim>\<open>Binary\<close>, \<^verbatim>\<open>Codecs\<close>, \<^verbatim>\<open>Persistence\<close>: \<^verbatim>\<open>binary.hpp\<close>, \<^verbatim>\<open>persistence.hpp\<close>, \<^verbatim>\<open>persistence.cpp\<close>.  The locale \<^verbatim>\<open>codec\<close> states what an
    encoder and its decoder promise; every pair of the file format and of the network protocol interprets it.
  \<^item> \<^verbatim>\<open>Containers\<close>: \<^verbatim>\<open>std::map\<close> and \<^verbatim>\<open>std::unordered_map\<close> behind the locale \<^verbatim>\<open>dict\<close>.
  \<^item> \<^verbatim>\<open>Accumulator\<close>, \<^verbatim>\<open>Evaluation\<close>, \<^verbatim>\<open>Fabric\<close>: \<^verbatim>\<open>fabric.cpp\<close> with \<^verbatim>\<open>fabric.hpp\<close>, \<^verbatim>\<open>explanation.hpp\<close>, \<^verbatim>\<open>what_would_change.hpp\<close>: the
    per-objective state, the judgement of one objective and the choice of an action, and the public operations on the
    record \<^verbatim>\<open>Impl\<close>, which holds the fields of \<^verbatim>\<open>SloFabric::Impl\<close>.  Each operation is one step, as under the mutex.
  \<^item> \<^verbatim>\<open>Fabric_Inv\<close>: the public operations as a step relation, runs, and the invariant of every reachable state.
    \<^verbatim>\<open>Scenario\<close> is a small concrete fabric for the instances.
  \<^item> \<^verbatim>\<open>Authority\<close>, \<^verbatim>\<open>Decisions\<close>, \<^verbatim>\<open>Restart\<close>: what authorisation requires, how generations, receipts and evidence evolve; what a
    decision means, when it asks for an action and for which contracts it is defined; what a save and a load in the next process restore,
    fence and lose.  \<^verbatim>\<open>Tracking\<close>: properties of single objectives that hold over whole runs, as interpretations of one
    locale: a cooldown that is kept, a restored state that waits for evidence.  \<^verbatim>\<open>Promises\<close>: where the engine does less than the documentation says.
  \<^item> \<^verbatim>\<open>Engine_Run\<close>: the engine as its clients use it.
  \<^item> \<^verbatim>\<open>Net\<close>: \<^verbatim>\<open>net.hpp\<close>, \<^verbatim>\<open>net.cpp\<close>; the frame decoder accepts exactly the encodings, and frames arrive in order over any
    stream.  \<^verbatim>\<open>Protocol\<close>: \<^verbatim>\<open>distributed_protocol.hpp\<close>.
  \<^item> \<^verbatim>\<open>Coordinator\<close>: \<^verbatim>\<open>coordinator_main.cpp\<close>; its globals as a record, one function per kind of frame, the monitor, start-up, and runs
    of interleaved events.  Runs project to runs of the engine, registrations are fenced by boot id and epoch, also
    across a restart, and replies carry the decision.  \<^verbatim>\<open>Worker\<close>: \<^verbatim>\<open>worker_main.cpp\<close>; both sides agree on a registration.
  \<^item> \<^verbatim>\<open>Threads\<close>: the same program as threads: every handler and the monitor has a program counter, a step does one access to
    what they share, and the mutex, whose owner is part of the state, excludes the monitor and the critical sections of the
    handlers from each other.  Any schedule keeps the invariant and is a run of the engine, no registration is accepted
    twice, no thread waits for ever for another as long as sends return (a handler sends the refusal of a stale boot id
    with the mutex held), and the whole-frame steps are schedules; the counter of evidence ids and the recovery flags do
    race.
  \<^item> \<^verbatim>\<open>Cli_Parse\<close>, \<^verbatim>\<open>Cli\<close>: \<^verbatim>\<open>slofabric_cli.cpp\<close>; the tool ends with the exit code its usage text
    promises, except where its own arithmetic is undefined.
  \<^item> \<^verbatim>\<open>Sockets\<close>: connecting, listening, accepting and closing of \<^verbatim>\<open>net.cpp\<close> over any socket interface; no descriptor and no
    address list is leaked.  \<^verbatim>\<open>Programs\<close>: the command lines and \<^verbatim>\<open>main\<close> functions of coordinator and worker.
  \<^item> \<^verbatim>\<open>Driver\<close>: \<^verbatim>\<open>process.hpp\<close>, \<^verbatim>\<open>distributed_proof.cpp\<close>; the driver ends, and it and the programs agree on their command
    lines.
  \<^item> \<^verbatim>\<open>Session\<close>: the handler of a connection on the bytes of its socket; it refines the conversation on whole frames, also when
    the stream breaks within a frame.
  \<^item> \<^verbatim>\<open>Examples\<close>: the programs of \<^verbatim>\<open>examples\<close> as the text they print; they all return, and for
    five of them the verdict is shown.  \<^verbatim>\<open>Cuda_Kernel\<close>, \<^verbatim>\<open>Cuda_Proof\<close>: \<^verbatim>\<open>cuda_proof.cu\<close>; the kernel computes its
    elementwise result in any order of its threads, and the program ends on every runtime.
  \<^item> \<^verbatim>\<open>Platform\<close>: the clocks of \<^verbatim>\<open>clock.hpp\<close> behind the locale \<^verbatim>\<open>iclock\<close>, \<^verbatim>\<open>version.cpp\<close>.

  The theorems at the end of this theory join the components: a worker's reports reach the engine through socket,
  handler and protocol; a decision reaches the driver; a crash in the midst of saves leaves a state to restart from.

  \<^bold>\<open>Conventions.\<close>  Signed 64-bit integers are \<^typ>\<open>int\<close> with \<^verbatim>\<open>wrap64\<close> at every unchecked operation and \<^verbatim>\<open>in_i64\<close> where a
  bound matters; unsigned ones are words.  A \<^verbatim>\<open>Result\<close> is an optional value with a status, as in the sources.  A
  conversion of a double out of range yields the value of the x86 instruction.  These two are conventions of the model about
  what the language leaves undefined; where a property is about such a case it is a case of its own: \<open>None\<close> as the outcome
  of an evaluation (a contract without objectives), of \<^verbatim>\<open>checked_mul\<close> and \<^verbatim>\<open>checked_scale\<close> (the outer \<open>None\<close>: a signed product out of
  range), of the inspection tool (its arithmetic on times, its conversion of a sample), and \<^verbatim>\<open>sort_evals\<close> on magnitudes that
  are not numbers, of which the model says nothing.  All functions are total, but for the wait of the driver
  for a process, which is a partial function shown to return: the loops of \<^verbatim>\<open>recv_exact\<close> and \<^verbatim>\<open>send_exact\<close> end by a measure on
  the bytes that remain.  The only fuel is the bound on the frames a receiver takes in \<^verbatim>\<open>recv_frames\<close> and \<^verbatim>\<open>handle_client\<close> and on
  the rounds of the accept loop and of the worker, which the code repeats for ever; for frames, more than the number sent
  is enough.

  \<^bold>\<open>Parameters.\<close>  The operating system is an argument: the outcome of file writes, the \<^verbatim>\<open>recv\<close> and \<^verbatim>\<open>send\<close> calls with what a
  stream socket promises as hypotheses \<^verbatim>\<open>stream_recv\<close> and \<^verbatim>\<open>stream_send\<close> (both ways on one socket: \<^verbatim>\<open>duplex\<close>; \<^verbatim>\<open>blocking\<close>
  when every send takes some bytes), the socket calls with \<^verbatim>\<open>socket_laws\<close>, process control and
  the steady clock with \<^verbatim>\<open>clock_laws\<close>, clock readings, random draws, the CUDA runtime with the order in which
  the threads of a launch run, the contraction of multiply and add in device code, uninitialised variables, the
  iteration order of unordered maps and what the standard leaves open about \<^verbatim>\<open>strtod\<close>.  The threads of the coordinator
  interleave sequentially consistent steps; the plain integer \<^verbatim>\<open>g_next_evidence\<close> is read and written in two of them.

  \<^bold>\<open>Not modelled.\<close>  The Windows branches of \<^verbatim>\<open>net.cpp\<close> and \<^verbatim>\<open>process.hpp\<close>, which differ in the system calls only; the CUDA
  runtime itself; the benchmarks, which time library calls; the tests.
\<close>

section \<open>Properties that span components\<close>

text \<open>
  Property C28.  What a worker reports reaches the engine, once and in order: when a serving worker with a fresh boot id,
  the current epoch and a latency that is an int64 has sent its registration and any number of rounds over a blocking
  connection, the handler of the coordinator at the other end, however the bytes were split on the way and as long as no
  other thread comes in between its turns, sends back one acknowledgement, which lets the worker go on, hands the engine
  exactly the samples of those rounds, under consecutive evidence ids, and forgets the worker but not its boot id when
  the connection ends.  If a recovery is authorised and not yet verified, and the worker is not the one with boot id
  1001, the first latency sample is followed by the restoration and the verification of the recovery, and no other
  sample is; nothing else reaches the engine.
\<close>

theorem worker_reports_delivered:
  assumes "stream_send (api_send wapi wsock) wsent" "blocking (api_send wapi wsock)" "wsent u = []"
    "duplex api sock incoming sent" "blocking (api_send api sock)" "sent w = []"
    "incoming w = wsent (worker_rounds wapi wsock cfg k (snd (send_frame (api_send wapi wsock) (worker_hello cfg) u)))"
    "length (wc_name cfg) \<le> 256" "wc_serve cfg" "wc_epoch cfg = gen_value (co_epoch co)"
    "(wc_name cfg, wc_forced_boot cfg) \<notin> seen_boots co" "d_cast_i64 (wc_latency_ns cfg) \<noteq> None" "3 * k + 1 < fuel"
  shows "\<exists>ack co' w'. handle_client api envs sock fuel co w = Some (True, co', w') \<and> sent w' = encode_frame ack \<and>
    worker_register True (Some ack) uninit = None \<and>
    co_fabric co' = take_inputs (round_inputs (\<lambda>j. envs (Suc j)) cfg co (co_next_evidence co) (recovery_due cfg co) k) (co_fabric co) \<and>
    co_next_evidence co' = co_next_evidence co + of_nat (2 * k) \<and>
    co_recovery_verified co' = (co_recovery_verified co \<or> recovery_due cfg co \<and> 0 < k) \<and>
    seen_boots co' = insert (wc_name cfg, wc_forced_boot cfg) (seen_boots co) \<and> map_of (co_workers co') sock = None"
proof -
  let ?rounds = "concat (replicate k (worker_round cfg))" and ?envs = "\<lambda>j. envs (Suc j)"
  let ?ack = "ack_frame (gen_value (co_epoch co)) (wc_forced_boot cfg) 0 ''ok''"
  note wf = worker_frames_wf(1) [OF assms(8)] worker_frames_wf(2) [of cfg]
  have inc: "incoming w = concat (map encode_frame (worker_hello cfg # ?rounds)) @ []"
    using worker_rounds_sent [OF assms(1,2)] send_frame_all [OF assms(1,2) wf(1), of u] assms(3,7) by simp
  obtain co1 where turn: "client_turn (envs 0) sock (Some (worker_hello cfg)) co = Some (CO_continue, [?ack], co1)"
    and co1: "co_fabric co1 = co_fabric co" "co_next_evidence co1 = co_next_evidence co" "co_epoch co1 = co_epoch co"
      "recovery_due cfg co1 = recovery_due cfg co" "co_recovery_verified co1 = co_recovery_verified co" "seen_boots co1 = insert (wc_name cfg, wc_forced_boot cfg) (seen_boots co)"
    using worker_registers [OF assms(8,10,11)] by blast
  obtain co2 where co2: "conversation ?envs sock ?rounds co1 = Some ([], client_end sock co2)"
    "served (round_inputs ?envs cfg co1 (co_next_evidence co1) (recovery_due cfg co1) k) (2 * k) (recovery_due cfg co1 \<and> 0 < k) co1 co2"
    using rounds_conversation [OF assms(9), of co1 ?envs sock k] assms(10) co1 by auto
  have len: "length ?rounds = 3 * k" using assms(9) by (simp add: length_concat worker_round_def sum_list_replicate)
  have conv: "conversation envs sock (worker_hello cfg # ?rounds) co = Some ([?ack], client_end sock co2)"
    using turn co2(1) by simp
  have "\<forall>f \<in> set (worker_hello cfg # ?rounds). frame_wf f" using wf by (auto simp: in_set_replicate)
  moreover have "length (worker_hello cfg # ?rounds) < fuel" using assms(13) by (simp add: len)
  ultimately obtain w' where "handle_client api envs sock fuel co w = Some (True, client_end sock co2, w')" "sent w' = encode_frame ?ack"
    using handle_client_conversation [OF assms(4) disjI1 [OF refl] _ inc _ conv] assms(5,6) by auto
  moreover have "worker_register True (Some ?ack) uninit = None" by (simp add: worker_register_def ack_frame_code)
  moreover have "co_fabric (client_end sock co2) =
      take_inputs (round_inputs ?envs cfg co (co_next_evidence co) (recovery_due cfg co) k) (co_fabric co)"
    "co_next_evidence (client_end sock co2) = co_next_evidence co + of_nat (2 * k)"
    "co_recovery_verified (client_end sock co2) = (co_recovery_verified co \<or> recovery_due cfg co \<and> 0 < k)"
    "seen_boots (client_end sock co2) = insert (wc_name cfg, wc_forced_boot cfg) (seen_boots co)"
    using co2(2) co1 round_inputs_epoch [OF co1(3)] by (simp_all add: served_def client_end_def seen_boots_def)
  moreover have "map_of (co_workers (client_end sock co2)) sock = None" by (auto simp: client_end_def map_of_eq_None_iff)
  ultimately show ?thesis by blast
qed

theorem worker_reports_delivered_witness:
  "\<exists>ack co' w'. handle_client narrow_socket (\<lambda>_. sample_env) 7 8 ((start 0 True [] empty_disk)\<lparr> co_recovery_auth := True \<rparr>)
       (snd (worker_rounds narrow_socket 9 default_worker 2 (snd (send_frame (api_send narrow_socket 9) (worker_hello default_worker) ([], [])))), []) =
       Some (True, co', w') \<and> snd w' = encode_frame ack \<and> worker_register True (Some ack) 99 = None \<and>
     co_next_evidence co' = 1000004 \<and> co_recovery_verified co'"
proof -
  let ?co = "(start 0 True [] empty_disk)\<lparr> co_recovery_auth := True \<rparr>"
  have co: "co_epoch ?co = Gen 1" "seen_boots ?co = {}" by (simp_all add: seen_boots_def start_shape)
  have snd: "stream_send (api_send narrow_socket 9) snd" using narrow_socket_laws(1) [of 9] by (simp add: duplex_def)
  have cast: "d_cast_i64 (wc_latency_ns default_worker) \<noteq> None" by code_simp
  show ?thesis
    using worker_reports_delivered [OF snd narrow_socket_laws(2) _ narrow_socket_laws(1,2) _ _ _ _ _ _ cast, of "([], [])"
        "(snd (worker_rounds narrow_socket 9 default_worker 2 (snd (send_frame (api_send narrow_socket 9) (worker_hello default_worker) ([], [])))), [])"
        2 ?co 8 "\<lambda>_. sample_env" 7 99] co
    by (auto simp: default_worker_def recovery_due_def)
qed

text \<open>
  Property C25.  A decision arrives at the driver as the engine made it: when the request of \<^verbatim>\<open>ctrl_eval\<close> has been sent and
  the handler of the coordinator takes one turn on the bytes that were sent, what \<^verbatim>\<open>ctrl_eval\<close> then reads is the reply to the
  evaluation of that turn, from which the compliance state, the binding dimension and the action are recovered.
\<close>

theorem evaluation_over_the_wire:
  assumes "stream_send (api_send (dr_sockets dr) c) dsent" "stream_recv (api_recv (dr_sockets dr) c) dincoming"
    "send_frame (api_send (dr_sockets dr) c) \<lparr> f_kind = FK_EvaluateRequest, f_flags = 0, f_payload = [] \<rparr> u = (st, u1)" "status_ok st"
    "duplex api sock incoming sent" "blocking (api_send api sock)" "dsent u1 = dsent u @ incoming w"
    "handle_client api envs sock 1 co w = Some (ended, co', w')" "sent w @ dincoming u1 = sent w'"
  shows "\<exists>res. evaluate (Id 100) (Id 200) (now_dur (en_now_ms (envs 0) 0)) (co_fabric co) = Some (res, co_fabric co') \<and>
    fst (ctrl_eval dr c u) = Some (reply_of (co_epoch co) res) \<and>
    (\<forall>er. res = result_value er \<longrightarrow>
       enum_cast compliance_states (rp_compliance (reply_of (co_epoch co) res)) = ex_compliance (er_explanation er) \<and>
       enum_cast dimensions (rp_binding_dim (reply_of (co_epoch co) res)) = ex_binding_dimension (er_explanation er) \<and>
       action_cast (rp_action (reply_of (co_epoch co) res)) = i_action (er_intent er))"
proof -
  let ?f = "\<lparr> f_kind = FK_EvaluateRequest, f_flags = 0, f_payload = [] \<rparr>"
  have wf: "frame_wf ?f" by (simp add: frame_wf_def frame_kind_cast_def kMaxFramePayload_def)
  have inc: "incoming w = encode_frame ?f @ []" using send_frame_prefix [OF assms(1) wf assms(3)] assms(4,7) by auto
  obtain w1 where w1: "recv_frame (api_recv api sock) kMaxFramePayload w = (result_value ?f, w1)"
    using recv_frame_delivers [where pending = incoming and recv = "api_recv api sock" and lim = kMaxFramePayload, OF _ wf _ _ inc] assms(5)
    by (auto simp: duplex_def kMaxFramePayload_def)
  obtain out rs co1 where turn: "client_turn (envs 0) sock (Some ?f) co = Some (out, rs, co1)"
    using assms(8) by (auto simp: w1 Let_def split: option.splits)
  then have out: "out = CO_continue" by (auto simp: client_turn_def handle_frame_def)
  obtain w2 where "blocking (api_send api sock) \<longrightarrow> sent w2 = sent w @ concat (map encode_frame rs)"
    "handle_client api envs sock (Suc 0) co w = Some (False, co1, w2)"
    using handle_client_step [where envs = envs and k = 0, OF assms(5) wf inc turn] out by auto
  then have co': "co' = co1" "dincoming u1 = concat (map encode_frame rs)" using assms(6,8,9) by auto
  from evaluation_reply_faithful [OF turn] obtain res r where
    r: "evaluate (Id 100) (Id 200) (now_dur (en_now_ms (envs 0) 0)) (co_fabric co) = Some (res, co_fabric co1)"
      "rs = [r]" "decode_reply (f_payload r) = Some (reply_of (co_epoch co) res)"
    and dec: "\<forall>er. res = result_value er \<longrightarrow>
       enum_cast compliance_states (rp_compliance (reply_of (co_epoch co) res)) = ex_compliance (er_explanation er) \<and>
       enum_cast dimensions (rp_binding_dim (reply_of (co_epoch co) res)) = ex_binding_dimension (er_explanation er) \<and>
       action_cast (rp_action (reply_of (co_epoch co) res)) = i_action (er_intent er)"
    by auto
  have kind: "f_kind r = FK_EvaluateReply" using turn r(2) by (auto simp: client_turn_def handle_frame_def handle_evaluate_def split: option.splits)
  have wfr: "frame_wf r" using replies_wf [OF turn] r(2) by simp
  have "\<exists>u2. recv_frame (api_recv (dr_sockets dr) c) kMaxFramePayload u1 = (result_value r, u2) \<and> dincoming u2 = []"
    using wfr co'(2) r(2) by (intro recv_frame_delivers [OF assms(2)]) (simp_all add: frame_wf_def, simp add: kMaxFramePayload_def)
  then have "fst (ctrl_eval dr c u) = Some (reply_of (co_epoch co) res)"
    using assms(3,4) kind r(3) by (auto simp: ctrl_eval_def)
  then show ?thesis using r(1) co'(1) dec by blast
qed

theorem evaluation_over_the_wire_witness:
  "\<exists>w' co' res. handle_client narrow_socket (\<lambda>_. sample_env) 7 1 (start 0 True [] empty_disk)
       (encode_frame \<lparr> f_kind = FK_EvaluateRequest, f_flags = 0, f_payload = [] \<rparr>, []) = Some (False, co', w') \<and>
     fst (ctrl_eval narrow_driver 9 (snd w', [])) = Some (reply_of (Gen 1) res)"
proof -
  let ?f = "\<lparr> f_kind = FK_EvaluateRequest, f_flags = 0, f_payload = [] \<rparr>" and ?co = "start 0 True [] empty_disk"
  let ?u = "\<lambda>b. (b :: bytes, [] :: bytes)" and ?w = "(encode_frame ?f, [] :: bytes)"
  have wf: "frame_wf ?f" by (simp add: frame_wf_def frame_kind_cast_def kMaxFramePayload_def)
  have "handle_evaluate sample_env ?co \<noteq> None" by code_simp
  then obtain rs co1 where turn: "client_turn sample_env 7 (Some ?f) ?co = Some (CO_continue, rs, co1)"
    by (auto simp: client_turn_def handle_frame_def)
  obtain w' where h: "handle_client narrow_socket (\<lambda>_. sample_env) 7 (Suc 0) ?co ?w = Some (False, co1, w')"
    by (rule handle_client_step [where envs = "\<lambda>_. sample_env" and k = 0 and w = ?w and rest = "[]", OF narrow_socket_laws(1) wf _ turn])
      (simp_all del: handle_client.simps(2))
  have dr: "dr_sockets narrow_driver = narrow_socket" by (simp add: narrow_driver_def)
  have ds: "stream_send (api_send (dr_sockets narrow_driver) 9) snd" "stream_recv (api_recv (dr_sockets narrow_driver) 9) fst"
    using narrow_socket_laws(1) [of 9] by (simp_all add: dr duplex_def)
  have keep: "fst (snd (api_send narrow_socket 9 bs w)) = fst w" for bs w by (simp add: narrow_socket_def)
  obtain st u1 where s: "send_frame (api_send (dr_sockets narrow_driver) 9) ?f (?u (snd w')) = (st, u1)" using prod.exhaust by blast
  then have "status_ok st" "snd u1 = encode_frame ?f" "fst u1 = snd w'"
    using send_frame_all [OF ds(1) _ wf, of "?u (snd w')"] narrow_socket_laws(2) [of 9]
      send_frame_keeps [of fst "api_send narrow_socket 9", OF keep, of ?f "?u (snd w')"] by (auto simp: dr)
  then have "\<exists>res. fst (ctrl_eval narrow_driver 9 (?u (snd w'))) = Some (reply_of (co_epoch ?co) res)"
    using evaluation_over_the_wire [OF ds s _ narrow_socket_laws(1,2), of ?w "\<lambda>_. sample_env" 7 ?co False co1 w'] h
    by (auto simp del: handle_client.simps(2))
  moreover have "co_epoch ?co = Gen 1" by simp
  ultimately show ?thesis using h by (auto simp del: handle_client.simps(2))
qed

text \<open>
  Property C40.  A crash leaves a complete state to restart from: a coordinator was started on a state file and saved to it
  any number of times, from several threads; wherever the system calls of those saves were cut off, the next process
  loads the state the crashed one was started on or one that it saved, with its contracts, policies and receipts, and no
  boot id is known to it.  If a save had been completed, it runs under the epoch after that of the crashed process; if
  not, it runs under the same epoch, and does not fence what the crashed process issued.
\<close>

theorem crash_restart:
  fixes f :: path and fs0 :: FileSystem and ms :: i64
  defines "old \<equiv> start ms True f fs0"
  assumes "f \<noteq> []" "\<not> is_tmp f" "fs_files fs0 f = Some (file_of_state (snapshot order0 s0))" "storable order0 s0"
    "save_step\<^sup>*\<^sup>* (fs0, {}, {}) (fs, js, qs)"
    "\<forall>bs. (f, bs) \<in> qs \<longrightarrow> (\<exists>order s. bs = file_of_state (snapshot order s) \<and> storable order s \<and> im_epoch s = co_epoch old)"
  shows "\<exists>order s. fs_files fs f = Some (file_of_state (snapshot order s)) \<and>
    im_contracts (co_fabric (start ms' True f fs)) = im_contracts s \<and> im_policies (co_fabric (start ms' True f fs)) = im_policies s \<and>
    im_enforcement_history (co_fabric (start ms' True f fs)) = im_enforcement_history s \<and> seen_boots (start ms' True f fs) = {} \<and>
    (s = s0 \<and> fs_files fs f = fs_files fs0 f \<and> co_epoch (start ms' True f fs) = co_epoch old \<or>
     (f, file_of_state (snapshot order s)) \<in> qs \<and> im_epoch s = co_epoch old \<and> co_epoch (start ms' True f fs) = gen_next (co_epoch old))"
proof -
  have old: "co_epoch old = gen_next (im_epoch s0)" unfolding old_def using start_on_file(1) [OF assms(2,5,4)] .
  have boots: "seen_boots (start ms' True f fs) = {}" by (simp add: seen_boots_def start_shape)
  from concurrent_saves_never_torn [OF assms(6,3)] show ?thesis
  proof
    assume same: "fs_files fs f = fs_files fs0 f"
    then have "fs_files fs f = Some (file_of_state (snapshot order0 s0))" using assms(4) by simp
    from start_on_file [OF assms(2,5) this] this same boots old show ?thesis by metis
  next
    assume "\<exists>bs. (f, bs) \<in> qs \<and> fs_files fs f = Some bs"
    then obtain order s where s: "fs_files fs f = Some (file_of_state (snapshot order s))" "storable order s" "im_epoch s = co_epoch old"
      "(f, file_of_state (snapshot order s)) \<in> qs" using assms(7) by auto
    from start_on_file [OF assms(2) s(2,1)] s boots show ?thesis by metis
  qed
qed

theorem crash_restart_witness:
  "\<exists>f fs0 fs js qs order s. save_step\<^sup>*\<^sup>* (fs0, {}, {}) (fs, js, qs) \<and> qs \<noteq> {} \<and> fs_files fs f = Some (file_of_state (snapshot order s)) \<and>
     im_contracts (co_fabric (start 5 True f fs)) = im_contracts s"
proof -
  let ?o = "en_order sample_env" and ?s0 = "co_fabric (start 0 True ''s'' empty_disk)" and ?f = "''s''"
  define fs0 where "fs0 = snd (save ?o WO_ok ?f ?s0 empty_disk)"
  have disk: "fs_files fs0 ?f = Some (file_of_state (snapshot ?o ?s0))" by (simp add: fs0_def save_def save_state_def save_bytes_target)
  have st0: "storable ?o ?s0" using sample_snapshot_wf start_inv [of 0 True ?f empty_disk] by (simp add: storable_def co_inv_def)
  let ?old = "start 0 True ?f fs0"
  let ?bs = "file_of_state (snapshot ?o (co_fabric ?old))"
  let ?t = "\<lambda>d. co_fabric (set_scenario 0 (initial_coordinator ?f d))"
  have "load True ?f fs0 (?t fs0) = (ok, restore (snapshot ?o ?s0) (?t fs0))"
    using load_file [OF _ _ disk] st0 by (simp add: storable_def)
  moreover have "?t fs0 = ?t empty_disk" by (simp add: set_scenario_def initial_coordinator_def Let_def)
  ultimately have fab: "co_fabric ?old = restore (snapshot ?o ?s0) (?t empty_disk)" by (simp add: start_shape)
  have "durable_wf (snapshot ?o (co_fabric ?old))" "int (length (serialize_state (snapshot ?o (co_fabric ?old)))) \<le> kMaxPersistenceBytes"
    unfolding fab by code_simp+
  then have st: "storable ?o (co_fabric ?old)" "im_epoch (co_fabric ?old) = co_epoch ?old"
    using start_inv [of 0 True ?f fs0] by (simp_all add: storable_def co_inv_def)
  have plain: "\<not> is_tmp ?f" by (auto simp: is_tmp_def tmp_path_def dest: arg_cong [where f = length])
  have "fs_tmp_seq fs0 \<noteq> - 1"
    by (simp add: fs0_def save_def save_state_def save_bytes_atomic_def rename_file_def put_file_def empty_disk_def Let_def)
  then obtain fs js where step: "save_step (fs0, {}, {}) (fs, js, {(?f, ?bs)})" using open_tmp [OF plain _ refl, of fs0 "{}" "{}" ?bs] by blast
  then have run: "save_step\<^sup>*\<^sup>* (fs0, {}, {}) (fs, js, {(?f, ?bs)})" by (rule r_into_rtranclp)
  have "\<forall>bs. (?f, bs) \<in> {(?f, ?bs)} \<longrightarrow> (\<exists>order s. bs = file_of_state (snapshot order s) \<and> storable order s \<and> im_epoch s = co_epoch ?old)"
    using st by blast
  from crash_restart [OF _ plain disk st0 run this, of 5] run show ?thesis by blast
qed

text \<open>
  The epoch of a process comes from the file it was started on, and nothing is written when it starts: two processes
  started on the same disk run under the same epoch.
\<close>

lemma epoch_reused_after_crash: "co_epoch (start ms' rd f d) = co_epoch (start ms rd f d)"
proof -
  let ?t = "\<lambda>ms. co_fabric (set_scenario ms (initial_coordinator f d))"
  have l: "fst (load rd f d s) = fst (load rd f d t)" "im_epoch s = im_epoch t \<Longrightarrow> im_epoch (snd (load rd f d s)) = im_epoch (snd (load rd f d t))" for s t
    by (auto simp: load_def restore_def Let_def fold_states_frame split: option.splits if_splits)
  have "engine_run (new_fabric None) (?t m)" for m using scenario_engine [of "initial_coordinator f d" m] by (simp add: initial_coordinator_def)
  then have "im_epoch (?t m) = im_epoch (new_fabric None)" for m using engine_run_epoch fabric_inv_new by blast
  moreover have "co_epoch (set_scenario m (initial_coordinator g d)) = Gen 1" for m g by (simp add: set_scenario_def initial_coordinator_def Let_def)
  ultimately show ?thesis using l [of "?t ms'" "?t ms"] by (simp add: start_def Let_def split_beta)
qed

end
